theory Spec2Isabelle
  imports Main "HOL-Library.Sublist"
begin

section \<open>JavaScript strings\<close>

text \<open>
  A string of the program is a sequence of UTF-16 code units. The strings of this
  development are those whose code units are all below 256: a character of the model is
  one such code unit. A template literal prints an absent (\<open>undefined\<close>) value as the
  nine characters \<open>undefined\<close>, and an optional string is truthy when it is present and
  not empty.
\<close>

definition tmpl :: "string option \<Rightarrow> string" where
  "tmpl v = (case v of None \<Rightarrow> ''undefined'' | Some s \<Rightarrow> s)"

definition truthy :: "string option \<Rightarrow> bool" where
  "truthy v = (case v of None \<Rightarrow> False | Some s \<Rightarrow> s \<noteq> [])"

text \<open>
  The dot of a regular expression without the \<open>s\<close> and \<open>u\<close> flags matches one code unit
  that is not a line terminator. The line terminators are U+000A, U+000D, U+2028 and
  U+2029; the two below 256 are the line feed and the carriage return.
\<close>

definition lineTerminator :: "char \<Rightarrow> bool" where
  "lineTerminator c = (c = CHR 0x0A \<or> c = CHR 0x0D)"

text \<open>
  \<open>script.replace(/.js$/, "")\<close>: the dot of the pattern is not escaped, so the pattern
  is any one character that the dot matches, then \<open>js\<close>, then the end of the input; its
  only possible match is the last three characters.
\<close>

definition stripJs :: "string \<Rightarrow> string" where
  "stripJs s =
     (let n = length s
      in if 3 \<le> n \<and> drop (n - 2) s = ''js'' \<and> \<not> lineTerminator (s ! (n - 3))
         then take (n - 3) s else s)"

text \<open>
  \<open>String.prototype.replaceAll\<close> with a string pattern and a string replacement. The
  replacement is a template: \<open>$$\<close> stands for a dollar sign, \<open>$&\<close> for the matched text,
  \<open>$`\<close> for the text before the match and \<open>$'\<close> for the text behind it; a string
  pattern has no capture groups, so every other use of the dollar sign is literal.
\<close>

fun getSubstitution :: "string \<Rightarrow> string \<Rightarrow> string \<Rightarrow> string \<Rightarrow> string" where
  "getSubstitution matched passed rest [] = []"
| "getSubstitution matched passed rest [c] = [c]"
| "getSubstitution matched passed rest (c # d # ds) =
     (if c = CHR ''$'' \<and> d = CHR ''$'' then CHR ''$'' # getSubstitution matched passed rest ds
      else if c = CHR ''$'' \<and> d = CHR ''&'' then matched @ getSubstitution matched passed rest ds
      else if c = CHR ''$'' \<and> d = CHR 0x60 then passed @ getSubstitution matched passed rest ds
      else if c = CHR ''$'' \<and> d = CHR 0x27 then rest @ getSubstitution matched passed rest ds
      else c # getSubstitution matched passed rest (d # ds))"

text \<open>
  The scan for a pattern that is not empty: at each position, from the left, a match is
  replaced and the scan goes on behind it; \<open>passed\<close> is the text already scanned.
\<close>

function replaceFrom :: "string \<Rightarrow> string \<Rightarrow> string \<Rightarrow> string \<Rightarrow> string" where
  "replaceFrom pat rv passed [] = []"
| "replaceFrom pat rv passed (c # cs) =
     (if pat \<noteq> [] \<and> prefix pat (c # cs)
      then getSubstitution pat passed (drop (length pat) (c # cs)) rv
           @ replaceFrom pat rv (passed @ pat) (drop (length pat) (c # cs))
      else c # replaceFrom pat rv (passed @ [c]) cs)"
  by pat_completeness auto
termination
  by (relation "measure (\<lambda>(pat, rv, passed, s). length s)") auto

text \<open>The empty pattern matches in front of every character and at the end.\<close>

fun replaceEmpty :: "string \<Rightarrow> string \<Rightarrow> string \<Rightarrow> string" where
  "replaceEmpty rv passed [] = getSubstitution [] passed [] rv"
| "replaceEmpty rv passed (c # cs) =
     getSubstitution [] passed (c # cs) rv @ c # replaceEmpty rv (passed @ [c]) cs"

definition replaceAll :: "string \<Rightarrow> string \<Rightarrow> string \<Rightarrow> string" where
  "replaceAll s pat rv = (if pat = [] then replaceEmpty rv [] s else replaceFrom pat rv [] s)"

text \<open>
  A \<open>Map\<close> from strings to strings keeps its keys in the order of their first insertion:
  an association list with distinct keys.
\<close>

type_synonym strmap = "(string \<times> string) list"

fun mapSet :: "string \<Rightarrow> string \<Rightarrow> strmap \<Rightarrow> strmap" where
  "mapSet k v [] = [(k, v)]"
| "mapSet k v ((k', v') # kvs) =
     (if k = k' then (k, v) # kvs else (k', v') # mapSet k v kvs)"

definition mapGet :: "strmap \<Rightarrow> string \<Rightarrow> string option" where
  "mapGet m k = map_of m k"

definition mapHas :: "strmap \<Rightarrow> string \<Rightarrow> bool" where
  "mapHas m k = (map_of m k \<noteq> None)"

section \<open>The filesystem, the network and the generators\<close>

text \<open>
  A path is resolved component by component, from the root when it starts with a slash
  and from the working directory otherwise: empty components and \<open>.\<close> are skipped,
  \<open>..\<close> steps to the parent, a name steps into the directory reached so far. There
  are no symbolic links. The file or directory that a path names is given by its
  normalised components, so \<open>./out/app\<close> and \<open>out/app\<close> are one file, and \<open>/out/app\<close>
  is another.
\<close>

type_synonym path = string
type_synonym npath = "bool \<times> string list"

fun splitSlash :: "string \<Rightarrow> string list" where
  "splitSlash [] = [[]]"
| "splitSlash (c # cs) =
     (if c = CHR ''/'' then [] # splitSlash cs
      else (case splitSlash cs of [] \<Rightarrow> [[c]] | x # xs \<Rightarrow> (c # x) # xs))"

text \<open>One step of the resolution, from the components reached so far.\<close>

definition stepInto :: "bool \<Rightarrow> string list \<Rightarrow> string \<Rightarrow> string list" where
  "stepInto ab acc c =
     (if c = [] \<or> c = ''.'' then acc
      else if c = ''..'' then
        (if acc = [] \<or> last acc = ''..'' then (if ab then acc else acc @ [c])
         else butlast acc)
      else acc @ [c])"

fun walk :: "bool \<Rightarrow> string list \<Rightarrow> string list \<Rightarrow> string list" where
  "walk ab acc [] = acc"
| "walk ab acc (c # cs) = walk ab (stepInto ab acc c) cs"

text \<open>
  The directories that the resolution passes through: each step by a name or by \<open>..\<close>
  is taken from a directory, which has to exist for the path to resolve. So \<open>x/../y\<close>
  names the same file as \<open>y\<close>, and resolves only when the directory \<open>x\<close> exists.
\<close>

fun through :: "bool \<Rightarrow> string list \<Rightarrow> string list \<Rightarrow> npath list" where
  "through ab acc [] = []"
| "through ab acc (c # cs) =
     (if c = [] \<or> c = ''.'' then through ab acc cs
      else (ab, acc) # through ab (stepInto ab acc c) cs)"

definition isAbsolute :: "path \<Rightarrow> bool" where
  "isAbsolute p = (case p of [] \<Rightarrow> False | c # _ \<Rightarrow> c = CHR ''/'')"

definition normPath :: "path \<Rightarrow> npath" where
  "normPath p = (isAbsolute p, walk (isAbsolute p) [] (splitSlash p))"

definition passedDirs :: "path \<Rightarrow> npath list" where
  "passedDirs p = through (isAbsolute p) [] (splitSlash p)"

text \<open>
  A path that is empty, or whose last component is empty (a trailing slash), \<open>.\<close> or
  \<open>..\<close>, can only name a directory.
\<close>

definition namesDir :: "path \<Rightarrow> bool" where
  "namesDir p = (last (splitSlash p) \<in> {[], ''.'', ''..''})"

definition selfAndAncestors :: "npath \<Rightarrow> npath list" where
  "selfAndAncestors n = map (\<lambda>k. (fst n, take k (snd n))) [1 ..< Suc (length (snd n))]"

definition below :: "npath \<Rightarrow> npath \<Rightarrow> bool" where
  "below d n = (fst d = fst n \<and> strict_prefix (snd d) (snd n))"

text \<open>
  The faults: of the filesystem (on the path given), of an assertion, of a method called
  on a value that has none (\<open>TypeError\<close>), and those that a collaborator throws.
\<close>

datatype error =
    IOError path
  | AssertionError string
  | TypeError string
  | Thrown string

datatype event =
    FsCwd
  | FsRead path
  | FsWrite path
  | FsEnsureDir path
  | FsEmptyDir path
  | FsExists path
  | NetFetch string
  | GenCompile path
  | GenBundle path
  | GenTranspile string

text \<open>
  The world outside the program: the text files, the directories, and the calls made so
  far to the filesystem, the network and the generators, oldest first. The working
  directory and the root are directories of every world.
\<close>

record world =
  files :: "npath \<Rightarrow> string option"
  dirs :: "npath set"
  trace :: "event list"

definition isDir :: "world \<Rightarrow> npath \<Rightarrow> bool" where
  "isDir w n = (snd n = [] \<or> n \<in> dirs w)"

definition isFile :: "world \<Rightarrow> npath \<Rightarrow> bool" where
  "isFile w n = (\<not> isDir w n \<and> files w n \<noteq> None)"

definition resolves :: "world \<Rightarrow> path \<Rightarrow> bool" where
  "resolves w p = list_all (isDir w) (passedDirs p)"

definition logEvent :: "event \<Rightarrow> world \<Rightarrow> world" where
  "logEvent e w = w\<lparr>trace := trace w @ [e]\<rparr>"

text \<open>\<open>Deno.readTextFile\<close>: the path has to resolve and to name a file.\<close>

definition readTextFile :: "path \<Rightarrow> world \<Rightarrow> (error + string) \<times> world" where
  "readTextFile p w =
     (let w' = logEvent (FsRead p) w; n = normPath p
      in if namesDir p \<or> \<not> resolves w p \<or> isDir w n then (Inl (IOError p), w')
         else (case files w n of
                 None \<Rightarrow> (Inl (IOError p), w')
               | Some text \<Rightarrow> (Inr text, w')))"

text \<open>
  \<open>Deno.writeTextFile\<close> creates the file or replaces its text; the path has to resolve,
  which for a path that ends in a name includes that the directory of the file exists.
\<close>

definition writeTextFile :: "path \<Rightarrow> string \<Rightarrow> world \<Rightarrow> (error + unit) \<times> world" where
  "writeTextFile p text w =
     (let w' = logEvent (FsWrite p) w; n = normPath p
      in if namesDir p \<or> \<not> resolves w p \<or> isDir w n then (Inl (IOError p), w')
         else (Inr (), w'\<lparr>files := (files w)(n \<mapsto> text)\<rparr>))"

text \<open>
  \<open>Deno.mkdir\<close> with \<open>recursive\<close>: every directory that the path passes through
  and the one it names are created where they are missing; a file at one of them is a
  fault.
\<close>

definition mkdirTargets :: "path \<Rightarrow> npath list" where
  "mkdirTargets p = concat (map selfAndAncestors (passedDirs p @ [normPath p]))"

definition canMkdir :: "world \<Rightarrow> path \<Rightarrow> bool" where
  "canMkdir w p = list_all (\<lambda>a. \<not> isFile w a) (mkdirTargets p)"

definition mkdir :: "path \<Rightarrow> world \<Rightarrow> world" where
  "mkdir p w = w\<lparr>dirs := dirs w \<union> set (mkdirTargets p)\<rparr>"

text \<open>
  \<open>fs.ensureDir\<close>: nothing to do when the path resolves to a directory; otherwise the
  directory is created, which faults when a file is in the way.
\<close>

definition ensureDir :: "path \<Rightarrow> world \<Rightarrow> (error + unit) \<times> world" where
  "ensureDir p w =
     (let w' = logEvent (FsEnsureDir p) w; n = normPath p
      in if resolves w p \<and> isDir w n then (Inr (), w')
         else if canMkdir w p then (Inr (), mkdir p w')
         else (Inl (IOError p), w'))"

text \<open>
  \<open>fs.emptyDir\<close>: everything below an existing directory is removed; a directory that
  does not exist is created.
\<close>

definition emptyDir :: "path \<Rightarrow> world \<Rightarrow> (error + unit) \<times> world" where
  "emptyDir p w =
     (let w' = logEvent (FsEmptyDir p) w; n = normPath p
      in if resolves w p \<and> isDir w n
         then (Inr (), w'\<lparr>files := (\<lambda>a. if below n a then None else files w a),
                          dirs := {a \<in> dirs w. \<not> below n a}\<rparr>)
         else if canMkdir w p then (Inr (), mkdir p w')
         else (Inl (IOError p), w'))"

text \<open>
  \<open>fs.exists\<close> answers \<open>false\<close> when the path is not found and rethrows every other
  fault of the lookup: that is the fault of a path that passes through a file, or that
  names a file as a directory.
\<close>

definition exists :: "path \<Rightarrow> world \<Rightarrow> (error + bool) \<times> world" where
  "exists p w =
     (let w' = logEvent (FsExists p) w; n = normPath p
      in case dropWhile (isDir w) (passedDirs p) of
           d # _ \<Rightarrow> if isFile w d then (Inl (IOError p), w') else (Inr False, w')
         | [] \<Rightarrow> if isDir w n then (Inr True, w')
                 else if files w n = None then (Inr False, w')
                 else if namesDir p then (Inl (IOError p), w')
                 else (Inr True, w'))"

text \<open>
  The collaborators that the program calls and does not define, taken as parameters.
  \<open>Deno.compile\<close> and \<open>Deno.bundle\<close> read the root module from the files and give the
  diagnostics (absent when there are none) with the emitted text, or throw.
  \<open>Deno.transpileOnly\<close> is given a record of sources, the text of each under its file
  name, and gives a record with an entry under each file name, or throws. \<open>fetch\<close>
  gives the text of the response or throws; \<open>md5\<close> is the hexadecimal digest.
  \<open>Deno.cwd\<close> gives the working directory, or throws when that is not available.
\<close>

text \<open>The entry of one file in the answer of \<open>Deno.transpileOnly\<close>.\<close>

record transpileOnlyResult =
  t_source :: string
  t_map :: "string option"

record env =
  denoCompile :: "(npath \<Rightarrow> string option) \<Rightarrow> path
                    \<Rightarrow> error + (string option \<times> (string \<times> string) list)"
  denoBundle :: "(npath \<Rightarrow> string option) \<Rightarrow> path \<Rightarrow> error + (string option \<times> string)"
  denoTranspileOnly :: "(string \<times> string) list \<Rightarrow> error + (string \<times> transpileOnlyResult) list"
  fetch :: "string \<Rightarrow> error + string"
  md5 :: "string \<Rightarrow> string"
  cwd :: "error + string"

section \<open>The cache manager (BCC.ts)\<close>

record BCC_Settings =
  set_tsSource :: string
  set_bundleFolder :: "string option"
  set_compiledFolder :: "string option"
  set_transpileFolder :: "string option"
  set_cacheFolder :: "string option"
  set_cacheRoot :: "string option"
  set_mapSources :: "bool option"

record BCC =
  tsSource :: string
  bundleFolder :: "string option"
  compiledFolder :: "string option"
  transpileFolder :: "string option"
  cacheFolder :: "string option"
  cacheRoot :: "string option"
  cacheMap :: strmap
  mapSources :: bool

definition newBCC :: "BCC_Settings \<Rightarrow> BCC" where
  "newBCC settings =
     \<lparr>tsSource = set_tsSource settings,
      bundleFolder = set_bundleFolder settings,
      compiledFolder = set_compiledFolder settings,
      transpileFolder = set_transpileFolder settings,
      cacheFolder = set_cacheFolder settings,
      cacheRoot = set_cacheRoot settings,
      cacheMap = [],
      mapSources = (case set_mapSources settings of None \<Rightarrow> False | Some v \<Rightarrow> v)\<rparr>"

definition clearBundleCache :: "BCC \<Rightarrow> world \<Rightarrow> (error + unit) \<times> world" where
  "clearBundleCache b w =
     (if \<not> truthy (bundleFolder b) then (Inr (), w)
      else emptyDir (''./'' @ tmpl (bundleFolder b) @ ''/'') w)"

definition clearCompileCache :: "BCC \<Rightarrow> world \<Rightarrow> (error + unit) \<times> world" where
  "clearCompileCache b w =
     (if \<not> truthy (compiledFolder b) then (Inr (), w)
      else emptyDir (''./'' @ tmpl (compiledFolder b) @ ''/'') w)"

definition clearTranspileCache :: "BCC \<Rightarrow> world \<Rightarrow> (error + unit) \<times> world" where
  "clearTranspileCache b w =
     (if \<not> truthy (transpileFolder b) then (Inr (), w)
      else emptyDir (''./'' @ tmpl (transpileFolder b) @ ''/'') w)"

definition clearExternalCache :: "BCC \<Rightarrow> world \<Rightarrow> (error + unit) \<times> world" where
  "clearExternalCache b w =
     (if \<not> truthy (cacheFolder b) then (Inr (), w)
      else emptyDir (''./'' @ tmpl (cacheFolder b) @ ''/'') w)"

text \<open>
  \<open>clearAllCache\<close> starts the clears in the order of its array and awaits them all with
  \<open>Promise.all\<close>. Here each clear runs to its end before the next one starts; every clear
  runs, also behind one that faults, and the outcome is the first fault in that order.
\<close>

fun allSettled :: "(world \<Rightarrow> (error + unit) \<times> world) list \<Rightarrow> world \<Rightarrow> (error + unit) \<times> world" where
  "allSettled [] w = (Inr (), w)"
| "allSettled (c # cs) w =
     (case c w of
        (Inl e, w1) \<Rightarrow> (Inl e, snd (allSettled cs w1))
      | (Inr _, w1) \<Rightarrow> allSettled cs w1)"

definition clearAllCache :: "BCC \<Rightarrow> world \<Rightarrow> (error + unit) \<times> world" where
  "clearAllCache b w =
     allSettled [clearBundleCache b, clearCompileCache b, clearTranspileCache b,
                 clearExternalCache b] w"

definition addCacheSource :: "string \<Rightarrow> string \<Rightarrow> BCC \<Rightarrow> BCC" where
  "addCacheSource handle source b = b\<lparr>cacheMap := mapSet handle source (cacheMap b)\<rparr>"

text \<open>The loop of \<open>mapExternalSources\<close> over the entries of the map, in their order.\<close>

fun mapLoop :: "string option \<Rightarrow> strmap \<Rightarrow> string \<Rightarrow> string" where
  "mapLoop root [] c2 = c2"
| "mapLoop root ((handle, source) # entries) c2 =
     mapLoop root entries (replaceAll c2 source (tmpl root @ ''/'' @ handle @ ''/''))"

definition mapExternalSources :: "BCC \<Rightarrow> string \<Rightarrow> string" where
  "mapExternalSources b code =
     (if mapSources b then mapLoop (cacheRoot b) (cacheMap b) code else code)"

text \<open>An absent path is the \<open>false\<close> of the source.\<close>

record paths =
  p_source :: string
  p_sourceURI :: string
  p_bundle :: "string option"
  p_transpile :: "string option"
  p_compiled :: "string option"

definition pathsOf :: "string \<Rightarrow> BCC \<Rightarrow> string \<Rightarrow> paths" where
  "pathsOf wd b script =
     \<lparr>p_source = ''./'' @ tsSource b @ ''/'' @ script,
      p_sourceURI = ''file://'' @ wd @ ''/'' @ tsSource b @ ''/'',
      p_bundle = (if truthy (bundleFolder b)
                  then Some (''./'' @ tmpl (bundleFolder b) @ ''/'' @ script) else None),
      p_transpile = (if truthy (transpileFolder b)
                     then Some (''./'' @ tmpl (transpileFolder b) @ ''/'' @ script) else None),
      p_compiled = (if truthy (compiledFolder b)
                    then Some (''./'' @ tmpl (compiledFolder b) @ ''/'' @ script) else None)\<rparr>"

text \<open>
  \<open>generatedPaths\<close> asks for the working directory each time it is called, for the
  field \<open>sourceURI\<close>; a fault of \<open>Deno.cwd\<close> is a fault of \<open>generatedPaths\<close>.
\<close>

definition generatedPaths :: "env \<Rightarrow> BCC \<Rightarrow> string \<Rightarrow> world \<Rightarrow> (error + paths) \<times> world" where
  "generatedPaths E b script w =
     (case cwd E of
        Inl e \<Rightarrow> (Inl e, logEvent FsCwd w)
      | Inr wd \<Rightarrow> (Inr (pathsOf wd b script), logEvent FsCwd w))"

definition valid :: "env \<Rightarrow> BCC \<Rightarrow> string option \<Rightarrow> world \<Rightarrow> (error + bool) \<times> world" where
  "valid E b script w =
     (if \<not> truthy script then (Inr False, w)
      else (case generatedPaths E b (tmpl script) w of
              (Inl e, w1) \<Rightarrow> (Inl e, w1)
            | (Inr paths, w1) \<Rightarrow> exists (p_source paths) w1))"

text \<open>The payloads that the operations return in place of code.\<close>

definition quote :: char where
  "quote = CHR 0x22"

definition somehowFailed :: "string \<Rightarrow> string" where
  "somehowFailed functionName =
     ''throw new Error('' @ [quote] @ functionName @ '' somehow failed.'' @ [quote] @ '')''"

definition failedToFind :: "string \<Rightarrow> string \<Rightarrow> string" where
  "failedToFind functionName script =
     ''throw new Error('' @ [quote] @ functionName @ '' failed to find file '' @ [CHR 0x27]
       @ script @ [CHR 0x27] @ ''.'' @ [quote] @ '')''"

definition isDisabled :: "string \<Rightarrow> string" where
  "isDisabled functionName =
     ''throw new Error('' @ [quote] @ functionName @ '' is disabled in the BCC configuration.''
       @ [quote] @ '')''"

text \<open>A generator is called on a script name; it changes the world or throws.\<close>

type_synonym generator = "string \<Rightarrow> world \<Rightarrow> (error + unit) \<times> world"

text \<open>
  \<open>cacheOrGen\<close> sets \<open>data\<close> to the payload \<open>somehowFailed\<close> first; every path that
  returns assigns it again, so that payload is never the result.
\<close>

definition cacheOrGen ::
  "string \<Rightarrow> string option \<Rightarrow> generator \<Rightarrow> string \<Rightarrow> world \<Rightarrow> (error + string) \<times> world" where
  "cacheOrGen script cachePath gen functionName w =
     (if truthy cachePath then
        (case readTextFile (tmpl cachePath) w of
           (Inr data, w1) \<Rightarrow> (Inr data, w1)
         | (Inl _, w1) \<Rightarrow>
             (case gen (stripJs script) w1 of
                (Inl e, w2) \<Rightarrow> (Inl e, w2)
              | (Inr _, w2) \<Rightarrow>
                  (case readTextFile (tmpl cachePath) w2 of
                     (Inr data, w3) \<Rightarrow> (Inr data, w3)
                   | (Inl _, w3) \<Rightarrow> (Inr (failedToFind functionName script), w3))))
      else (Inr (isDisabled functionName), w))"

text \<open>The loop of \<open>compile\<close> over the emitted resources: each is written to the same file.\<close>

fun compileLoop ::
  "BCC \<Rightarrow> string \<Rightarrow> string \<Rightarrow> (string \<times> string) list \<Rightarrow> world \<Rightarrow> (error + unit) \<times> world" where
  "compileLoop b dir folder [] w = (Inr (), w)"
| "compileLoop b dir folder ((resource, text) # emitMap) w =
     (let code = mapExternalSources b text
      in case ensureDir folder w of
           (Inl e, w1) \<Rightarrow> (Inl e, w1)
         | (Inr _, w1) \<Rightarrow>
             (case writeTextFile dir code w1 of
                (Inl e, w2) \<Rightarrow> (Inl e, w2)
              | (Inr _, w2) \<Rightarrow> compileLoop b dir folder emitMap w2))"

definition compile :: "env \<Rightarrow> BCC \<Rightarrow> generator" where
  "compile E b script w =
     (case generatedPaths E b script w of
        (Inl e, w0) \<Rightarrow> (Inl e, w0)
      | (Inr paths, w0) \<Rightarrow>
          if \<not> truthy (p_compiled paths) \<or> \<not> truthy (compiledFolder b) then (Inr (), w0)
          else (case denoCompile E (files w0) (p_source paths) of
                  Inl e \<Rightarrow> (Inl e, logEvent (GenCompile (p_source paths)) w0)
                | Inr (diagnostics, emitMap) \<Rightarrow>
                    (case diagnostics of
                       Some d \<Rightarrow> (Inl (AssertionError (''Compile Error: '' @ d)),
                                  logEvent (GenCompile (p_source paths)) w0)
                     | None \<Rightarrow>
                         compileLoop b (tmpl (p_compiled paths)) (tmpl (compiledFolder b)) emitMap
                           (logEvent (GenCompile (p_source paths)) w0))))"

definition cachedCompile :: "env \<Rightarrow> BCC \<Rightarrow> string \<Rightarrow> world \<Rightarrow> (error + string) \<times> world" where
  "cachedCompile E b script w =
     (case generatedPaths E b script w of
        (Inl e, w0) \<Rightarrow> (Inl e, w0)
      | (Inr paths, w0) \<Rightarrow>
          cacheOrGen script (p_compiled paths) (compile E b) ''cachedCompile'' w0)"

text \<open>The method \<open>bundle\<close>.\<close>

definition bundleGen :: "env \<Rightarrow> BCC \<Rightarrow> generator" where
  "bundleGen E b script w =
     (case generatedPaths E b script w of
        (Inl e, w0) \<Rightarrow> (Inl e, w0)
      | (Inr paths, w0) \<Rightarrow>
          if \<not> truthy (p_bundle paths) \<or> \<not> truthy (bundleFolder b) then (Inr (), w0)
          else (case denoBundle E (files w0) (p_source paths) of
                  Inl e \<Rightarrow> (Inl e, logEvent (GenBundle (p_source paths)) w0)
                | Inr (diagnostics, emit) \<Rightarrow>
                    (case diagnostics of
                       Some d \<Rightarrow> (Inl (AssertionError (''Compile Error: '' @ d)),
                                  logEvent (GenBundle (p_source paths)) w0)
                     | None \<Rightarrow>
                         (let code = mapExternalSources b emit
                          in case ensureDir (tmpl (bundleFolder b))
                                    (logEvent (GenBundle (p_source paths)) w0) of
                               (Inl e, w1) \<Rightarrow> (Inl e, w1)
                             | (Inr _, w1) \<Rightarrow>
                                 writeTextFile (tmpl (p_bundle paths) @ ''.js'') code w1))))"

definition cachedBundle :: "env \<Rightarrow> BCC \<Rightarrow> string \<Rightarrow> world \<Rightarrow> (error + string) \<times> world" where
  "cachedBundle E b script w =
     (case generatedPaths E b script w of
        (Inl e, w0) \<Rightarrow> (Inl e, w0)
      | (Inr paths, w0) \<Rightarrow>
          cacheOrGen script (p_bundle paths) (bundleGen E b) ''cachedBundle'' w0)"

text \<open>
  \<open>transpile\<close> hands the source path to \<open>Deno.transpileOnly\<close> as the text of the
  one file \<open>main.ts\<close>, and takes as the emitted code \<open>emit.source\<close>: the entry of the
  answer under the file name \<open>source\<close>, which is an entry of a file or \<open>undefined\<close>,
  and in no case a string. On such a value \<open>mapExternalSources\<close> returns it as it is
  when its loop does not run, and faults on the call of \<open>replaceAll\<close> when it does;
  \<open>Deno.writeTextFile\<close> encodes \<open>undefined\<close> as the empty text and an object as the
  text \<open>[object Object]\<close>.
\<close>

definition mapExternalSourcesOfValue ::
  "BCC \<Rightarrow> transpileOnlyResult option \<Rightarrow> error + transpileOnlyResult option" where
  "mapExternalSourcesOfValue b v =
     (if mapSources b \<and> cacheMap b \<noteq> []
      then (case v of
              None \<Rightarrow> Inl (TypeError ''Cannot read property replaceAll of undefined'')
            | Some _ \<Rightarrow> Inl (TypeError ''c2.replaceAll is not a function''))
      else Inr v)"

definition encodeValue :: "transpileOnlyResult option \<Rightarrow> string" where
  "encodeValue v = (case v of None \<Rightarrow> [] | Some _ \<Rightarrow> ''[object Object]'')"

definition transpile :: "env \<Rightarrow> BCC \<Rightarrow> generator" where
  "transpile E b script w =
     (case generatedPaths E b script w of
        (Inl e, w0) \<Rightarrow> (Inl e, w0)
      | (Inr paths, w0) \<Rightarrow>
          if \<not> truthy (p_transpile paths) \<or> \<not> truthy (transpileFolder b) then (Inr (), w0)
          else (case denoTranspileOnly E [(''main.ts'', p_source paths)] of
                  Inl e \<Rightarrow> (Inl e, logEvent (GenTranspile (p_source paths)) w0)
                | Inr emit \<Rightarrow>
                    (let rawCode = map_of emit ''source''
                     in case mapExternalSourcesOfValue b rawCode of
                          Inl e \<Rightarrow> (Inl e, logEvent (GenTranspile (p_source paths)) w0)
                        | Inr code \<Rightarrow>
                            (case ensureDir (tmpl (transpileFolder b))
                                    (logEvent (GenTranspile (p_source paths)) w0) of
                               (Inl e, w1) \<Rightarrow> (Inl e, w1)
                             | (Inr _, w1) \<Rightarrow>
                                 writeTextFile (tmpl (p_transpile paths)) (encodeValue code) w1))))"

definition cachedTranspile :: "env \<Rightarrow> BCC \<Rightarrow> string \<Rightarrow> world \<Rightarrow> (error + string) \<times> world" where
  "cachedTranspile E b script w =
     (case generatedPaths E b script w of
        (Inl e, w0) \<Rightarrow> (Inl e, w0)
      | (Inr paths, w0) \<Rightarrow>
          cacheOrGen script (p_transpile paths) (transpile E b) ''cachedTranspile'' w0)"

definition updateCache ::
  "env \<Rightarrow> BCC \<Rightarrow> string \<Rightarrow> string \<Rightarrow> string \<Rightarrow> world \<Rightarrow> (error + unit) \<times> world" where
  "updateCache E b script src uri w =
     (if \<not> truthy (cacheFolder b) then (Inr (), w)
      else (let url = tmpl (mapGet (cacheMap b) src) @ script;
                w1 = logEvent (NetFetch url) w
            in case fetch E url of
                 Inl e \<Rightarrow> (Inl e, w1)
               | Inr body \<Rightarrow>
                   (let code = mapExternalSources b body
                    in case ensureDir (tmpl (cacheFolder b) @ ''/'' @ src @ ''/'') w1 of
                         (Inl e, w2) \<Rightarrow> (Inl e, w2)
                       | (Inr _, w2) \<Rightarrow>
                           writeTextFile
                             (tmpl (cacheFolder b) @ ''/'' @ src @ ''/'' @ md5 E script) code w2)))"

definition validSource :: "BCC \<Rightarrow> string \<Rightarrow> bool" where
  "validSource b handle = mapHas (cacheMap b) handle"

definition missingFile :: "string \<Rightarrow> string \<Rightarrow> string" where
  "missingFile script handle =
     ''throw new Error('' @ [quote] @ ''external cache missing file '' @ [CHR 0x27] @ script
       @ [CHR 0x27] @ '' for source '' @ [CHR 0x27] @ handle @ [CHR 0x27] @ ''.'' @ [quote] @ '')''"

definition externalDisabled :: string where
  "externalDisabled = ''throw new Error('' @ [quote] @ ''External cache disabled.'' @ [quote] @ '')''"

definition scriptCache :: "env \<Rightarrow> BCC \<Rightarrow> string \<Rightarrow> string \<Rightarrow> world \<Rightarrow> (error + string) \<times> world" where
  "scriptCache E b script handle w =
     (if truthy (cacheFolder b) then
        (let uri = ''./'' @ tmpl (cacheFolder b) @ ''/'' @ handle @ ''/'' @ md5 E script
         in case readTextFile uri w of
              (Inr data, w1) \<Rightarrow> (Inr data, w1)
            | (Inl _, w1) \<Rightarrow>
                (case updateCache E b script handle uri w1 of
                   (Inl e, w2) \<Rightarrow> (Inl e, w2)
                 | (Inr _, w2) \<Rightarrow>
                     (case readTextFile uri w2 of
                        (Inr data, w3) \<Rightarrow> (Inr data, w3)
                      | (Inl _, w3) \<Rightarrow> (Inr (missingFile script handle), w3))))
      else (Inr externalDisabled, w))"

section \<open>The middleware (BCC\_Middleware.ts)\<close>

text \<open>
  A regular expression is taken by what \<open>exec\<close> gives on a pathname: nothing, or the
  groups that the middleware destructures from the match (the first group for the bundle
  and compile patterns, the first two for the cache pattern). A pattern is taken to
  define these groups and to have no \<open>g\<close> or \<open>y\<close> flag, as the three defaults do, so
  \<open>test\<close> succeeds exactly when \<open>exec\<close> matches.
\<close>

type_synonym regexp1 = "string \<Rightarrow> string option"
type_synonym regexp2 = "string \<Rightarrow> (string \<times> string) option"

definition dotPlus :: "string \<Rightarrow> string" where
  "dotPlus s = takeWhile (\<lambda>c. \<not> lineTerminator c) s"

text \<open>A literal, then \<open>(.+)\<close>, searched from the left: \<open>/\/bundled\/(.+)/\<close>.\<close>

fun execLiteralDotPlus :: "string \<Rightarrow> regexp1" where
  "execLiteralDotPlus lit [] = None"
| "execLiteralDotPlus lit (c # cs) =
     (if prefix lit (c # cs) \<and> dotPlus (drop (length lit) (c # cs)) \<noteq> []
      then Some (dotPlus (drop (length lit) (c # cs)))
      else execLiteralDotPlus lit cs)"

text \<open>
  \<open>(.+?)\/(.+)\<close> at a fixed start: the first group takes as few characters as it can,
  at least one, such that a slash and one more character follow.
\<close>

fun lazyThenSlash :: "string \<Rightarrow> string \<Rightarrow> (string \<times> string) option" where
  "lazyThenSlash g [] = None"
| "lazyThenSlash g (c # cs) =
     (if lineTerminator c then None
      else if g \<noteq> [] \<and> c = CHR ''/'' \<and> dotPlus cs \<noteq> [] then Some (g, dotPlus cs)
      else lazyThenSlash (g @ [c]) cs)"

fun execCache :: "string \<Rightarrow> regexp2" where
  "execCache lit [] = None"
| "execCache lit (c # cs) =
     (if prefix lit (c # cs)
      then (case lazyThenSlash [] (drop (length lit) (c # cs)) of
              Some r \<Rightarrow> Some r
            | None \<Rightarrow> execCache lit cs)
      else execCache lit cs)"

definition defaultBundleRegEx :: regexp1 where
  "defaultBundleRegEx = execLiteralDotPlus ''/bundled/''"

definition defaultCompileRegEx :: regexp1 where
  "defaultCompileRegEx = execLiteralDotPlus ''/compiled/''"

definition defaultCacheRegEx :: regexp2 where
  "defaultCacheRegEx = execCache ''/cache/''"

text \<open>An optional setting \<open>RegExp | null\<close>: left out, \<open>null\<close>, or a pattern.\<close>

datatype 'r re_setting = Undefined | Null | RegExp 'r

record BCC_Middleware_Settings =
  ms_BCC_Settings :: BCC_Settings
  ms_BundleRegEx :: "regexp1 re_setting"
  ms_CompileRegEx :: "regexp1 re_setting"
  ms_CacheRegEx :: "regexp2 re_setting"

record BCC_Middleware =
  BundleRegEx :: "regexp1 option"
  CompileRegEx :: "regexp1 option"
  CacheRegEx :: "regexp2 option"
  bcc :: BCC

text \<open>
  One slot of the constructor: the default, replaced by the setting when that is a
  pattern (\<open>null != undefined\<close> is false), then \<open>null\<close> when the folder is not set.
\<close>

definition slot :: "'r \<Rightarrow> 'r re_setting \<Rightarrow> string option \<Rightarrow> 'r option" where
  "slot dflt setting folder =
     (let r1 = Some dflt;
          r2 = (case setting of RegExp r \<Rightarrow> Some r | _ \<Rightarrow> r1)
      in if \<not> truthy folder then None else r2)"

definition newBCC_Middleware :: "BCC_Middleware_Settings \<Rightarrow> BCC_Middleware" where
  "newBCC_Middleware settings =
     \<lparr>BundleRegEx = slot defaultBundleRegEx (ms_BundleRegEx settings)
                       (set_bundleFolder (ms_BCC_Settings settings)),
      CompileRegEx = slot defaultCompileRegEx (ms_CompileRegEx settings)
                       (set_compiledFolder (ms_BCC_Settings settings)),
      CacheRegEx = slot defaultCacheRegEx (ms_CacheRegEx settings)
                       (set_cacheFolder (ms_BCC_Settings settings)),
      bcc = newBCC (ms_BCC_Settings settings)\<rparr>"

record response =
  r_body :: "string option"
  r_type :: "string option"

type_synonym handler = "response \<Rightarrow> world \<Rightarrow> (error + response) \<times> world"

text \<open>
  The two assignments of a matching branch: the body is the text that the awaited cache
  operation returns, the type is \<open>text/javascript\<close>; a fault of the operation leaves
  the branch before them.
\<close>

definition respond :: "response \<Rightarrow> (error + string) \<times> world \<Rightarrow> (error + response) \<times> world" where
  "respond resp r =
     (case r of
        (Inl e, w) \<Rightarrow> (Inl e, w)
      | (Inr text, w) \<Rightarrow> (Inr (resp\<lparr>r_body := Some text, r_type := Some ''text/javascript''\<rparr>), w))"

text \<open>\<open>re?.test(pathname)\<close> and then \<open>re.exec(pathname)\<close>: a \<open>null\<close> pattern matches nothing.\<close>

definition exec1 :: "regexp1 option \<Rightarrow> string \<Rightarrow> string option" where
  "exec1 re pathname = (case re of None \<Rightarrow> None | Some r \<Rightarrow> r pathname)"

definition exec2 :: "regexp2 option \<Rightarrow> string \<Rightarrow> (string \<times> string) option" where
  "exec2 re pathname = (case re of None \<Rightarrow> None | Some r \<Rightarrow> r pathname)"

definition middleware :: "env \<Rightarrow> BCC_Middleware \<Rightarrow> string \<Rightarrow> handler \<Rightarrow> handler" where
  "middleware E m pathname next resp w =
     (case exec1 (BundleRegEx m) pathname of
        Some script \<Rightarrow> respond resp (cachedBundle E (bcc m) script w)
      | None \<Rightarrow>
          (case exec1 (CompileRegEx m) pathname of
             Some script \<Rightarrow> respond resp (cachedCompile E (bcc m) script w)
           | None \<Rightarrow>
               (case exec2 (CacheRegEx m) pathname of
                  Some (src, script) \<Rightarrow> respond resp (scriptCache E (bcc m) script src w)
                | None \<Rightarrow> next resp w)))"

section \<open>The engine without feature toggles (the second engine file)\<close>

record BCC_Settings0 =
  set_tsSource0 :: string
  set_bundleFolder0 :: string
  set_compiledFolder0 :: string
  set_cacheFolder0 :: string
  set_cacheRoot0 :: string
  set_mapSources0 :: "bool option"

record BCC0 =
  tsSource0 :: string
  bundleFolder0 :: string
  compiledFolder0 :: string
  cacheFolder0 :: string
  cacheRoot0 :: string
  cacheMap0 :: strmap
  mapSources0 :: bool

definition newBCC0 :: "BCC_Settings0 \<Rightarrow> BCC0" where
  "newBCC0 settings =
     \<lparr>tsSource0 = set_tsSource0 settings,
      bundleFolder0 = set_bundleFolder0 settings,
      compiledFolder0 = set_compiledFolder0 settings,
      cacheFolder0 = set_cacheFolder0 settings,
      cacheRoot0 = set_cacheRoot0 settings,
      cacheMap0 = [],
      mapSources0 = (case set_mapSources0 settings of None \<Rightarrow> False | Some v \<Rightarrow> v)\<rparr>"

definition clearBundleCache0 :: "BCC0 \<Rightarrow> world \<Rightarrow> (error + unit) \<times> world" where
  "clearBundleCache0 b w = emptyDir (''./'' @ bundleFolder0 b @ ''/'') w"

definition clearCompileCache0 :: "BCC0 \<Rightarrow> world \<Rightarrow> (error + unit) \<times> world" where
  "clearCompileCache0 b w = emptyDir (''./'' @ compiledFolder0 b @ ''/'') w"

definition clearExternalCache0 :: "BCC0 \<Rightarrow> world \<Rightarrow> (error + unit) \<times> world" where
  "clearExternalCache0 b w = emptyDir (''./'' @ cacheFolder0 b @ ''/'') w"

definition clearAllCache0 :: "BCC0 \<Rightarrow> world \<Rightarrow> (error + unit) \<times> world" where
  "clearAllCache0 b w =
     allSettled [clearBundleCache0 b, clearCompileCache0 b, clearExternalCache0 b] w"

definition addCacheSource0 :: "string \<Rightarrow> string \<Rightarrow> BCC0 \<Rightarrow> BCC0" where
  "addCacheSource0 handle source b = b\<lparr>cacheMap0 := mapSet handle source (cacheMap0 b)\<rparr>"

definition mapExternalSources0 :: "BCC0 \<Rightarrow> string \<Rightarrow> string" where
  "mapExternalSources0 b code =
     (if mapSources0 b then mapLoop (Some (cacheRoot0 b)) (cacheMap0 b) code else code)"

record paths0 =
  p_source0 :: string
  p_sourceURI0 :: string
  p_bundle0 :: string
  p_compiled0 :: string

definition pathsOf0 :: "string \<Rightarrow> BCC0 \<Rightarrow> string \<Rightarrow> paths0" where
  "pathsOf0 wd b script =
     \<lparr>p_source0 = ''./'' @ tsSource0 b @ ''/'' @ script,
      p_sourceURI0 = ''file://'' @ wd @ ''/'' @ tsSource0 b @ ''/'',
      p_bundle0 = ''./'' @ bundleFolder0 b @ ''/'' @ script,
      p_compiled0 = ''./'' @ compiledFolder0 b @ ''/'' @ script\<rparr>"

definition generatedPaths0 :: "env \<Rightarrow> BCC0 \<Rightarrow> string \<Rightarrow> world \<Rightarrow> (error + paths0) \<times> world" where
  "generatedPaths0 E b script w =
     (case cwd E of
        Inl e \<Rightarrow> (Inl e, logEvent FsCwd w)
      | Inr wd \<Rightarrow> (Inr (pathsOf0 wd b script), logEvent FsCwd w))"

definition valid0 :: "env \<Rightarrow> BCC0 \<Rightarrow> string option \<Rightarrow> world \<Rightarrow> (error + bool) \<times> world" where
  "valid0 E b script w =
     (if \<not> truthy script then (Inr False, w)
      else (case generatedPaths0 E b (tmpl script) w of
              (Inl e, w1) \<Rightarrow> (Inl e, w1)
            | (Inr paths, w1) \<Rightarrow> exists (p_source0 paths) w1))"

definition cacheOrGen0 ::
  "string \<Rightarrow> string \<Rightarrow> generator \<Rightarrow> string \<Rightarrow> world \<Rightarrow> (error + string) \<times> world" where
  "cacheOrGen0 script cachePath gen functionName w =
     (case readTextFile cachePath w of
        (Inr data, w1) \<Rightarrow> (Inr data, w1)
      | (Inl _, w1) \<Rightarrow>
          (case gen (stripJs script) w1 of
             (Inl e, w2) \<Rightarrow> (Inl e, w2)
           | (Inr _, w2) \<Rightarrow>
               (case readTextFile cachePath w2 of
                  (Inr data, w3) \<Rightarrow> (Inr data, w3)
                | (Inl _, w3) \<Rightarrow> (Inr (failedToFind functionName script), w3))))"

fun compileLoop0 ::
  "BCC0 \<Rightarrow> string \<Rightarrow> (string \<times> string) list \<Rightarrow> world \<Rightarrow> (error + unit) \<times> world" where
  "compileLoop0 b dir [] w = (Inr (), w)"
| "compileLoop0 b dir ((resource, text) # emitMap) w =
     (let code = mapExternalSources0 b text
      in case writeTextFile (dir @ ''.js'') code w of
           (Inl e, w1) \<Rightarrow> (Inl e, w1)
         | (Inr _, w1) \<Rightarrow> compileLoop0 b dir emitMap w1)"

definition compile0 :: "env \<Rightarrow> BCC0 \<Rightarrow> generator" where
  "compile0 E b script w =
     (case generatedPaths0 E b script w of
        (Inl e, w0) \<Rightarrow> (Inl e, w0)
      | (Inr paths, w0) \<Rightarrow>
          (case denoCompile E (files w0) (p_source0 paths) of
             Inl e \<Rightarrow> (Inl e, logEvent (GenCompile (p_source0 paths)) w0)
           | Inr (diagnostics, emitMap) \<Rightarrow>
               (case diagnostics of
                  Some d \<Rightarrow> (Inl (AssertionError (''Compile Error: '' @ d)),
                             logEvent (GenCompile (p_source0 paths)) w0)
                | None \<Rightarrow>
                    compileLoop0 b (p_compiled0 paths) emitMap
                      (logEvent (GenCompile (p_source0 paths)) w0))))"

definition cachedCompile0 :: "env \<Rightarrow> BCC0 \<Rightarrow> string \<Rightarrow> world \<Rightarrow> (error + string) \<times> world" where
  "cachedCompile0 E b script w =
     (case generatedPaths0 E b script w of
        (Inl e, w0) \<Rightarrow> (Inl e, w0)
      | (Inr paths, w0) \<Rightarrow>
          cacheOrGen0 script (p_compiled0 paths) (compile0 E b) ''cachedCompile'' w0)"

definition bundle0 :: "env \<Rightarrow> BCC0 \<Rightarrow> generator" where
  "bundle0 E b script w =
     (case generatedPaths0 E b script w of
        (Inl e, w0) \<Rightarrow> (Inl e, w0)
      | (Inr paths, w0) \<Rightarrow>
          (case denoBundle E (files w0) (p_source0 paths) of
             Inl e \<Rightarrow> (Inl e, logEvent (GenBundle (p_source0 paths)) w0)
           | Inr (diagnostics, emit) \<Rightarrow>
               (case diagnostics of
                  Some d \<Rightarrow> (Inl (AssertionError (''Compile Error: '' @ d)),
                             logEvent (GenBundle (p_source0 paths)) w0)
                | None \<Rightarrow>
                    writeTextFile (p_bundle0 paths @ ''.js'') (mapExternalSources0 b emit)
                      (logEvent (GenBundle (p_source0 paths)) w0))))"

definition cachedBundle0 :: "env \<Rightarrow> BCC0 \<Rightarrow> string \<Rightarrow> world \<Rightarrow> (error + string) \<times> world" where
  "cachedBundle0 E b script w =
     (case generatedPaths0 E b script w of
        (Inl e, w0) \<Rightarrow> (Inl e, w0)
      | (Inr paths, w0) \<Rightarrow>
          cacheOrGen0 script (p_bundle0 paths) (bundle0 E b) ''cachedBundle'' w0)"

definition updateCache0 ::
  "env \<Rightarrow> BCC0 \<Rightarrow> string \<Rightarrow> string \<Rightarrow> string \<Rightarrow> world \<Rightarrow> (error + unit) \<times> world" where
  "updateCache0 E b script src uri w =
     (let url = tmpl (mapGet (cacheMap0 b) src) @ script;
          w1 = logEvent (NetFetch url) w
      in case fetch E url of
           Inl e \<Rightarrow> (Inl e, w1)
         | Inr body \<Rightarrow>
             (let code = mapExternalSources0 b body
              in case ensureDir (''./cache/'' @ src @ ''/'') w1 of
                   (Inl e, w2) \<Rightarrow> (Inl e, w2)
                 | (Inr _, w2) \<Rightarrow>
                     writeTextFile (''./cache/'' @ src @ ''/'' @ md5 E script) code w2))"

definition validSource0 :: "BCC0 \<Rightarrow> string \<Rightarrow> bool" where
  "validSource0 b handle = mapHas (cacheMap0 b) handle"

definition scriptCache0 :: "env \<Rightarrow> BCC0 \<Rightarrow> string \<Rightarrow> string \<Rightarrow> world \<Rightarrow> (error + string) \<times> world" where
  "scriptCache0 E b script handle w =
     (let uri = ''./'' @ cacheFolder0 b @ ''/'' @ handle @ ''/'' @ md5 E script
      in case readTextFile uri w of
           (Inr data, w1) \<Rightarrow> (Inr data, w1)
         | (Inl _, w1) \<Rightarrow>
             (case updateCache0 E b script handle uri w1 of
                (Inl e, w2) \<Rightarrow> (Inl e, w2)
              | (Inr _, w2) \<Rightarrow>
                  (case readTextFile uri w2 of
                     (Inr data, w3) \<Rightarrow> (Inr data, w3)
                   | (Inl _, w3) \<Rightarrow> (Inr (missingFile script handle), w3))))"

section \<open>Vocabulary of the properties\<close>

text \<open>A call of a generator or of the network, among the events of the trace.\<close>

definition isGen :: "event \<Rightarrow> bool" where
  "isGen e =
     (case e of
        GenCompile _ \<Rightarrow> True
      | GenBundle _ \<Rightarrow> True
      | GenTranspile _ \<Rightarrow> True
      | NetFetch _ \<Rightarrow> True
      | _ \<Rightarrow> False)"

definition genCalls :: "world \<Rightarrow> nat" where
  "genCalls w = length (filter isGen (trace w))"

text \<open>The path names a text file with the given content.\<close>

definition readable :: "world \<Rightarrow> path \<Rightarrow> string \<Rightarrow> bool" where
  "readable w p content =
     (\<not> namesDir p \<and> resolves w p \<and> \<not> isDir w (normPath p)
      \<and> files w (normPath p) = Some content)"

text \<open>
  The path can be written as a text file: it resolves, which includes that the directory
  of the file exists, and it names no directory.
\<close>

definition writable :: "world \<Rightarrow> path \<Rightarrow> bool" where
  "writable w p = (\<not> namesDir p \<and> resolves w p \<and> \<not> isDir w (normPath p))"

text \<open>The path resolves to a directory.\<close>

definition directory :: "world \<Rightarrow> path \<Rightarrow> bool" where
  "directory w p = (resolves w p \<and> isDir w (normPath p))"

text \<open>
  Read-through: the first request returns the content after one call of the generator
  (or of the network) and leaves it readable at the planned path; the second request
  returns the same content without a further call, and changes no file.
\<close>

definition readThrough ::
  "(world \<Rightarrow> (error + string) \<times> world) \<Rightarrow> path \<Rightarrow> string \<Rightarrow> world \<Rightarrow> bool" where
  "readThrough request planned content w =
     (let r1 = request w; r2 = request (snd r1)
      in fst r1 = Inr content \<and> genCalls (snd r1) = genCalls w + 1
         \<and> readable (snd r1) planned content
         \<and> fst r2 = Inr content \<and> genCalls (snd r2) = genCalls (snd r1)
         \<and> files (snd r2) = files (snd r1))"

text \<open>
  The configuration of the engine with toggles in which every folder of the simpler
  engine is set: the simpler engine, read as always enabled.
\<close>

definition toggled :: "BCC0 \<Rightarrow> BCC" where
  "toggled b0 =
     \<lparr>tsSource = tsSource0 b0,
      bundleFolder = Some (bundleFolder0 b0),
      compiledFolder = Some (compiledFolder0 b0),
      transpileFolder = None,
      cacheFolder = Some (cacheFolder0 b0),
      cacheRoot = Some (cacheRoot0 b0),
      cacheMap = cacheMap0 b0,
      mapSources = mapSources0 b0\<rparr>"

text \<open>Two worlds with the same files and the same directories.\<close>

definition sameFs :: "world \<Rightarrow> world \<Rightarrow> bool" where
  "sameFs w w' = (files w = files w' \<and> dirs w = dirs w')"

text \<open>
  Two outcomes that return the same value, or are both a fault. A fault of the
  filesystem carries the path as the program wrote it, so the faults of two calls on the
  same file, written \<open>./cache/x\<close> by one and \<open>cache/x\<close> by the other, are not equal.
\<close>

definition sameOutcome :: "error + 'a \<Rightarrow> error + 'a \<Rightarrow> bool" where
  "sameOutcome r r' = (case r of Inl _ \<Rightarrow> isl r' | Inr v \<Rightarrow> r' = Inr v)"

text \<open>The bundler throws or reports diagnostics on the module.\<close>

definition bundlerFaults :: "env \<Rightarrow> (npath \<Rightarrow> string option) \<Rightarrow> path \<Rightarrow> bool" where
  "bundlerFaults E fs p =
     (case denoBundle E fs p of
        Inl _ \<Rightarrow> True
      | Inr (diagnostics, _) \<Rightarrow> diagnostics \<noteq> None)"

text \<open>The compiler throws, reports diagnostics, or emits no resource for the module.\<close>

definition compilerWritesNothing :: "env \<Rightarrow> (npath \<Rightarrow> string option) \<Rightarrow> path \<Rightarrow> bool" where
  "compilerWritesNothing E fs p =
     (case denoCompile E fs p of
        Inl _ \<Rightarrow> True
      | Inr (diagnostics, emitMap) \<Rightarrow> diagnostics \<noteq> None \<or> emitMap = [])"

section \<open>Example configurations\<close>

text \<open>
  Stand-ins for the collaborators, to run the program on: a compiler and a bundler that
  read the root module and mark its text, and report a diagnostic on the module text
  \<open>let x =\<close>; a transpiler that marks the text of each file it is given and throws on
  one text; a network with one reachable address; a digest that is the script name
  behind a prefix; and the working directory \<open>/srv\<close>.
\<close>

definition exDiagnostics :: "string \<Rightarrow> string option" where
  "exDiagnostics src = (if src = ''let x ='' then Some ''[1109]'' else None)"

definition exEnv :: env where
  "exEnv =
     \<lparr>denoCompile = (\<lambda>fs p. case fs (normPath p) of
                              None \<Rightarrow> Inl (Thrown ''NotFound'')
                            | Some src \<Rightarrow> Inr (exDiagnostics src, [(p, ''/*js*/'' @ src)])),
      denoBundle = (\<lambda>fs p. case fs (normPath p) of
                             None \<Rightarrow> Inl (Thrown ''NotFound'')
                           | Some src \<Rightarrow> Inr (exDiagnostics src, ''/*bundle*/'' @ src)),
      denoTranspileOnly =
        (\<lambda>sources. if (''main.ts'', ''./src/bad'') \<in> set sources
                    then Inl (Thrown ''SyntaxError'')
                    else Inr (map (\<lambda>(name, src). (name, \<lparr>t_source = ''/*ts*/'' @ src,
                                                           t_map = None\<rparr>)) sources)),
      fetch = (\<lambda>url. if url = ''https://cdn.example/lib/utils.js'' then Inr ''export {}''
                       else Inl (Thrown ''TypeError'')),
      md5 = (\<lambda>s. ''md5-'' @ s),
      cwd = Inr ''/srv''\<rparr>"

text \<open>The working directory is not available.\<close>

definition exNoCwd :: env where
  "exNoCwd = exEnv\<lparr>cwd := Inl (Thrown ''NotFound'')\<rparr>"

text \<open>Two sources, \<open>src/app\<close> and the malformed \<open>src/bad\<close>, and no cache yet.\<close>

definition exWorld :: world where
  "exWorld =
     \<lparr>files = [(False, [''src'', ''app'']) \<mapsto> ''let x = 1'',
               (False, [''src'', ''bad'']) \<mapsto> ''let x =''],
      dirs = {(False, [''src''])},
      trace = []\<rparr>"

text \<open>A source in a folder of its own, \<open>src/lib/app\<close>.\<close>

definition exNested :: world where
  "exNested =
     \<lparr>files = [(False, [''src'', ''lib'', ''app'']) \<mapsto> ''let y = 2''],
      dirs = {(False, [''src'']), (False, [''src'', ''lib''])},
      trace = []\<rparr>"

text \<open>Only \<open>compiledFolder\<close> is set.\<close>

definition exCompileOnlySettings :: BCC_Settings where
  "exCompileOnlySettings =
     \<lparr>set_tsSource = ''src'', set_bundleFolder = None,
      set_compiledFolder = Some ''compiled'', set_transpileFolder = None,
      set_cacheFolder = None, set_cacheRoot = None, set_mapSources = None\<rparr>"

definition exCompileOnly :: BCC where
  "exCompileOnly = newBCC exCompileOnlySettings"

text \<open>Every folder is set, and the source \<open>lib\<close> is registered.\<close>

definition exAllSettings :: BCC_Settings where
  "exAllSettings =
     \<lparr>set_tsSource = ''src'', set_bundleFolder = Some ''bundle'',
      set_compiledFolder = Some ''compiled'', set_transpileFolder = Some ''transpiled'',
      set_cacheFolder = Some ''cache'', set_cacheRoot = Some ''/cache'',
      set_mapSources = None\<rparr>"

definition exAll :: BCC where
  "exAll = addCacheSource ''lib'' ''https://cdn.example/lib/'' (newBCC exAllSettings)"

text \<open>Rewriting is on; the base address of \<open>std\<close> is the beginning of that of \<open>x\<close>.\<close>

definition exTwoSources :: BCC where
  "exTwoSources =
     addCacheSource ''x'' ''https://deno.land/x/''
       (addCacheSource ''std'' ''https://deno.land/''
          (newBCC (exAllSettings\<lparr>set_mapSources := Some True\<rparr>)))"

text \<open>Rewriting is on; the local cache is served by the host of the registered source.\<close>

definition exSameHost :: BCC where
  "exSameHost =
     addCacheSource ''own'' ''http://localhost:8000/''
       (newBCC (exAllSettings\<lparr>set_cacheRoot := Some ''http://localhost:8000/cache'',
                               set_mapSources := Some True\<rparr>))"

text \<open>A network that answers every address, relative ones too.\<close>

definition exOpenNet :: env where
  "exOpenNet = exEnv\<lparr>fetch := (\<lambda>url. Inr (''/* '' @ url @ '' */''))\<rparr>"




text \<open>
  The middleware over every folder with the three default patterns; the middleware over
  the compile folder only, with a bundle pattern and a cache pattern supplied; and a next
  handler that answers on its own.
\<close>

definition exAllSettingsRouter :: BCC_Middleware_Settings where
  "exAllSettingsRouter =
     \<lparr>ms_BCC_Settings = exAllSettings, ms_BundleRegEx = Undefined,
      ms_CompileRegEx = Null, ms_CacheRegEx = Undefined\<rparr>"

definition exRouter :: BCC_Middleware where
  "exRouter =
     (newBCC_Middleware exAllSettingsRouter)
       \<lparr>bcc := addCacheSource ''lib'' ''https://cdn.example/lib/''
                 (bcc (newBCC_Middleware exAllSettingsRouter))\<rparr>"

definition exCompileRouterSettings :: BCC_Middleware_Settings where
  "exCompileRouterSettings =
     \<lparr>ms_BCC_Settings = exCompileOnlySettings,
      ms_BundleRegEx = RegExp (execLiteralDotPlus ''/b/''),
      ms_CompileRegEx = Undefined,
      ms_CacheRegEx = RegExp (execCache ''/c/'')\<rparr>"

definition exNoFolderSettings :: BCC_Middleware_Settings where
  "exNoFolderSettings =
     \<lparr>ms_BCC_Settings = exCompileOnlySettings\<lparr>set_compiledFolder := None\<rparr>,
      ms_BundleRegEx = RegExp (execLiteralDotPlus ''/b/''),
      ms_CompileRegEx = RegExp (execLiteralDotPlus ''/c/''),
      ms_CacheRegEx = RegExp (execCache ''/r/'')\<rparr>"

definition exNext :: handler where
  "exNext = (\<lambda>resp w. (Inr (resp\<lparr>r_body := Some ''not found''\<rparr>), w))"

definition exResponse :: response where
  "exResponse = \<lparr>r_body = None, r_type = None\<rparr>"

text \<open>
  The simpler engine with every folder set, the external cache in \<open>remote\<close>; a world
  in which the folders exist; and one in which the artifacts are cached.
\<close>

definition exAll0 :: BCC0 where
  "exAll0 =
     addCacheSource0 ''lib'' ''https://cdn.example/lib/''
       (newBCC0 \<lparr>set_tsSource0 = ''src'', set_bundleFolder0 = ''bundle'',
                 set_compiledFolder0 = ''compiled'', set_cacheFolder0 = ''remote'',
                 set_cacheRoot0 = ''/remote'', set_mapSources0 = None\<rparr>)"

text \<open>The simpler engine with the external cache in \<open>cache\<close>.\<close>

definition exCache0 :: BCC0 where
  "exCache0 = exAll0\<lparr>cacheFolder0 := ''cache''\<rparr>"

definition exWorldDirs :: world where
  "exWorldDirs =
     exWorld\<lparr>dirs := {(False, [''src'']), (False, [''bundle'']), (False, [''compiled'']),
                        (False, [''remote'']), (False, [''remote'', ''lib'']),
                        (False, [''cache''])}\<rparr>"

definition exCachedWorld :: world where
  "exCachedWorld =
     exWorldDirs\<lparr>files := (files exWorldDirs)
        ((False, [''bundle'', ''app.js'']) \<mapsto> ''/*bundle*/let x = 0'',
         (False, [''compiled'', ''app'']) \<mapsto> ''/*js*/let x = 0'',
         (False, [''remote'', ''lib'', ''md5-utils.js'']) \<mapsto> ''export {x}'')\<rparr>"

section \<open>Lemmas on the filesystem and the trace\<close>

lemma isGen_simps [simp]:
  "\<not> isGen FsCwd" "\<not> isGen (FsRead p)" "\<not> isGen (FsWrite p)" "\<not> isGen (FsEnsureDir p)"
  "\<not> isGen (FsEmptyDir p)" "\<not> isGen (FsExists p)" "isGen (NetFetch u)"
  "isGen (GenCompile p)" "isGen (GenBundle p)" "isGen (GenTranspile p)"
  by (simp_all add: isGen_def)

lemma logEvent_simps [simp]:
  "files (logEvent e w) = files w" "dirs (logEvent e w) = dirs w"
  "trace (logEvent e w) = trace w @ [e]"
  by (simp_all add: logEvent_def)

lemma isDir_dirs: "dirs w = dirs w' \<Longrightarrow> isDir w = isDir w'"
  by (intro ext) (simp add: isDir_def)

lemma resolves_dirs: "dirs w = dirs w' \<Longrightarrow> resolves w p = resolves w' p"
  using isDir_dirs[of w w'] by (simp add: resolves_def)

lemma isDir_logEvent [simp]: "isDir (logEvent e w) n = isDir w n"
  by (simp add: isDir_def)

lemma isFile_logEvent [simp]: "isFile (logEvent e w) n = isFile w n"
  by (simp add: isFile_def)

lemma resolves_logEvent [simp]: "resolves (logEvent e w) p = resolves w p"
  using resolves_dirs[of "logEvent e w" w p] by simp

lemma genCalls_logEvent [simp]: "genCalls (logEvent e w) = genCalls w + (if isGen e then 1 else 0)"
  by (simp add: genCalls_def)

lemma readable_logEvent [simp]: "readable (logEvent e w) p t = readable w p t"
  by (simp add: readable_def)

lemma writable_dirs: "dirs w = dirs w' \<Longrightarrow> writable w p = writable w' p"
  using resolves_dirs[of w w' p] isDir_dirs[of w w'] by (simp add: writable_def)

lemma directory_dirs: "dirs w = dirs w' \<Longrightarrow> directory w p = directory w' p"
  using resolves_dirs[of w w' p] isDir_dirs[of w w'] by (simp add: directory_def)

lemma writable_logEvent [simp]: "writable (logEvent e w) p = writable w p"
  using writable_dirs[of "logEvent e w" w p] by simp

lemma directory_logEvent [simp]: "directory (logEvent e w) p = directory w p"
  using directory_dirs[of "logEvent e w" w p] by simp

lemma snd_readTextFile [simp]: "snd (readTextFile p w) = logEvent (FsRead p) w"
  by (simp add: readTextFile_def Let_def split: option.splits)

lemma readTextFile_readable: "readable w p t \<Longrightarrow> readTextFile p w = (Inr t, logEvent (FsRead p) w)"
  by (simp add: readTextFile_def readable_def Let_def)

lemma writeTextFile_writable:
  "writable w p \<Longrightarrow>
     writeTextFile p t w = (Inr (), (logEvent (FsWrite p) w)\<lparr>files := (files w)(normPath p \<mapsto> t)\<rparr>)"
  by (simp add: writeTextFile_def writable_def Let_def)

lemma writeTextFile_fault: "\<not> writable w p \<Longrightarrow> writeTextFile p t w = (Inl (IOError p), logEvent (FsWrite p) w)"
  by (auto simp add: writeTextFile_def writable_def Let_def)

lemma writeTextFile_Inr:
  assumes "writeTextFile p t w = (Inr u, w')"
  shows "readable w' p t" and "genCalls w' = genCalls w" and "dirs w' = dirs w"
    and "trace w' = trace w @ [FsWrite p]" and "writable w p"
proof -
  show wr: "writable w p" using assms writeTextFile_fault[of w p t] by (cases "writable w p") auto
  have w': "w' = (logEvent (FsWrite p) w)\<lparr>files := (files w)(normPath p \<mapsto> t)\<rparr>"
    using assms writeTextFile_writable[OF wr, of t] by simp
  show "dirs w' = dirs w" "trace w' = trace w @ [FsWrite p]" "genCalls w' = genCalls w"
    using w' by (simp_all add: genCalls_def)
  then have "resolves w' p = resolves w p" "isDir w' = isDir w"
    using resolves_dirs[of w' w p] isDir_dirs[of w' w] by simp_all
  then show "readable w' p t" using wr w' by (simp add: readable_def writable_def)
qed

lemma writeTextFile_genCalls: "writeTextFile p t w = (r, w') \<Longrightarrow> genCalls w' = genCalls w"
  by (auto simp add: writeTextFile_def Let_def genCalls_def split: if_splits)

lemma ensureDir_genCalls: "ensureDir p w = (r, w') \<Longrightarrow> genCalls w' = genCalls w"
  by (auto simp add: ensureDir_def mkdir_def Let_def genCalls_def split: if_splits)

lemma trace_writeTextFile: "trace (snd (writeTextFile p t w)) = trace w @ [FsWrite p]"
  by (simp add: writeTextFile_def Let_def)

lemma trace_ensureDir: "trace (snd (ensureDir p w)) = trace w @ [FsEnsureDir p]"
  by (simp add: ensureDir_def mkdir_def Let_def)

text \<open>A directory that has been created is there.\<close>

lemma self_in_selfAndAncestors: "snd n \<noteq> [] \<Longrightarrow> n \<in> set (selfAndAncestors n)"
proof -
  assume a: "snd n \<noteq> []"
  have "length (snd n) \<in> set [1 ..< Suc (length (snd n))]" using a by (cases "snd n") simp_all
  moreover have "(fst n, take (length (snd n)) (snd n)) = n" by simp
  ultimately show ?thesis unfolding selfAndAncestors_def set_map by (metis (mono_tags, lifting) image_eqI)
qed

lemma mkdir_isDir:
  assumes "n \<in> set (passedDirs p @ [normPath p])"
  shows "isDir (mkdir p w) n"
proof (cases "snd n = []")
  case True
  then show ?thesis by (simp add: isDir_def)
next
  case False
  then have "n \<in> set (selfAndAncestors n)" by (rule self_in_selfAndAncestors)
  with assms have "n \<in> set (mkdirTargets p)" unfolding mkdirTargets_def by auto
  then show ?thesis by (simp add: isDir_def mkdir_def)
qed

lemma mkdir_directory: "directory (mkdir p w) p"
  using mkdir_isDir[of _ p w] by (simp add: directory_def resolves_def list_all_iff)

lemma mkdir_logEvent: "mkdir p (logEvent e w) = logEvent e (mkdir p w)"
  by (simp add: mkdir_def logEvent_def)

lemma ensureDir_existing:
  "directory w p \<Longrightarrow> ensureDir p w = (Inr (), logEvent (FsEnsureDir p) w)"
  by (simp add: ensureDir_def directory_def Let_def)

lemma ensureDir_post:
  assumes "fst (ensureDir p w) = Inr ()"
  shows "directory (snd (ensureDir p w)) p"
proof (cases "directory w p")
  case True
  then show ?thesis by (simp add: ensureDir_existing)
next
  case False
  then have "canMkdir w p" using assms by (auto simp add: ensureDir_def directory_def Let_def split: if_splits)
  then have "snd (ensureDir p w) = logEvent (FsEnsureDir p) (mkdir p w)"
    using False by (auto simp add: ensureDir_def directory_def Let_def mkdir_logEvent)
  then show ?thesis by (simp add: mkdir_directory)
qed

text \<open>What an operation of the filesystem does depends on the files and directories only.\<close>

lemma sameFs_refl [simp]: "sameFs w w"
  by (simp add: sameFs_def)

lemma sameFs_sym: "sameFs w w' \<Longrightarrow> sameFs w' w"
  by (simp add: sameFs_def)

lemma sameFs_trans: "sameFs w w' \<Longrightarrow> sameFs w' w'' \<Longrightarrow> sameFs w w''"
  by (simp add: sameFs_def)

lemma sameFs_logEvent [simp]: "sameFs (logEvent e w) w' = sameFs w w'" "sameFs w (logEvent e w') = sameFs w w'"
  by (simp_all add: sameFs_def)

lemma sameFs_dirs: "sameFs w w' \<Longrightarrow> dirs w = dirs w'"
  by (simp add: sameFs_def)

lemma sameFs_isFile: "sameFs w w' \<Longrightarrow> isFile w = isFile w'"
  by (intro ext) (simp add: isFile_def sameFs_def isDir_def)

lemma writeTextFile_sameFs:
  "sameFs w w' \<Longrightarrow>
     fst (writeTextFile p t w) = fst (writeTextFile p t w')
     \<and> sameFs (snd (writeTextFile p t w)) (snd (writeTextFile p t w'))"
  using resolves_dirs[of w w' p] isDir_dirs[of w w']
  by (simp add: writeTextFile_def sameFs_def Let_def)

lemma readTextFile_sameFs:
  "sameFs w w' \<Longrightarrow>
     fst (readTextFile p w) = fst (readTextFile p w')
     \<and> sameFs (snd (readTextFile p w)) (snd (readTextFile p w'))"
  using resolves_dirs[of w w' p] isDir_dirs[of w w']
  by (simp add: readTextFile_def sameFs_def Let_def split: option.splits)

lemma ensureDir_sameFs:
  "sameFs w w' \<Longrightarrow>
     fst (ensureDir p w) = fst (ensureDir p w')
     \<and> sameFs (snd (ensureDir p w)) (snd (ensureDir p w'))"
  using resolves_dirs[of w w' p] isDir_dirs[of w w'] sameFs_isFile[of w w']
  by (simp add: ensureDir_def sameFs_def Let_def canMkdir_def mkdir_def)

lemma ensureDir_logEvent:
  "fst (ensureDir p (logEvent e w)) = fst (ensureDir p w)"
  "sameFs (snd (ensureDir p (logEvent e w))) (snd (ensureDir p w))"
  using ensureDir_sameFs[of "logEvent e w" w p] by simp_all

text \<open>Paths that begin with \<open>./\<close>.\<close>

lemma splitSlash_nonempty [simp]: "splitSlash s \<noteq> []"
  by (induction s) (auto split: list.splits)

lemma namesDir_dot_slash: "namesDir (''./'' @ x) = namesDir x"
  by (simp add: namesDir_def)

lemma normPath_dot_slash: "\<not> isAbsolute x \<Longrightarrow> normPath (''./'' @ x) = normPath x"
  by (simp add: normPath_def isAbsolute_def stepInto_def)

lemma passedDirs_dot_slash: "\<not> isAbsolute x \<Longrightarrow> passedDirs (''./'' @ x) = passedDirs x"
  by (simp add: passedDirs_def isAbsolute_def stepInto_def)

lemma isAbsolute_append: "f \<noteq> [] \<Longrightarrow> isAbsolute (f @ x) = isAbsolute f"
  by (cases f) (simp_all add: isAbsolute_def)

lemma readable_dot_slash: "\<not> isAbsolute x \<Longrightarrow> readable w (''./'' @ x) t = readable w x t"
  using namesDir_dot_slash[of x] normPath_dot_slash[of x] passedDirs_dot_slash[of x]
  by (simp add: readable_def resolves_def)

lemma writable_dot_slash: "\<not> isAbsolute x \<Longrightarrow> writable w (''./'' @ x) = writable w x"
  using namesDir_dot_slash[of x] normPath_dot_slash[of x] passedDirs_dot_slash[of x]
  by (simp add: writable_def resolves_def)

lemma directory_dot_slash: "\<not> isAbsolute x \<Longrightarrow> directory w (''./'' @ x) = directory w x"
  using normPath_dot_slash[of x] passedDirs_dot_slash[of x]
  by (simp add: directory_def resolves_def)

lemma truthy_Some [simp]: "truthy (Some s) = (s \<noteq> [])" "\<not> truthy None"
  by (simp_all add: truthy_def)

lemma tmpl_Some [simp]: "tmpl (Some s) = s" "tmpl None = ''undefined''"
  by (simp_all add: tmpl_def)

lemma pathsOf_simps [simp]:
  "p_source (pathsOf wd b s) = ''./'' @ tsSource b @ ''/'' @ s"
  "p_bundle (pathsOf wd b s) =
     (if truthy (bundleFolder b) then Some (''./'' @ tmpl (bundleFolder b) @ ''/'' @ s) else None)"
  "p_transpile (pathsOf wd b s) =
     (if truthy (transpileFolder b) then Some (''./'' @ tmpl (transpileFolder b) @ ''/'' @ s) else None)"
  "p_compiled (pathsOf wd b s) =
     (if truthy (compiledFolder b) then Some (''./'' @ tmpl (compiledFolder b) @ ''/'' @ s) else None)"
  by (simp_all add: pathsOf_def)

lemma pathsOf0_simps [simp]:
  "p_source0 (pathsOf0 wd b s) = ''./'' @ tsSource0 b @ ''/'' @ s"
  "p_bundle0 (pathsOf0 wd b s) = ''./'' @ bundleFolder0 b @ ''/'' @ s"
  "p_compiled0 (pathsOf0 wd b s) = ''./'' @ compiledFolder0 b @ ''/'' @ s"
  by (simp_all add: pathsOf0_def)

lemma generatedPaths_cwd:
  "cwd E = Inr wd \<Longrightarrow> generatedPaths E b s w = (Inr (pathsOf wd b s), logEvent FsCwd w)"
  "cwd E = Inl e \<Longrightarrow> generatedPaths E b s w = (Inl e, logEvent FsCwd w)"
  by (simp_all add: generatedPaths_def)

lemma generatedPaths0_cwd:
  "cwd E = Inr wd \<Longrightarrow> generatedPaths0 E b s w = (Inr (pathsOf0 wd b s), logEvent FsCwd w)"
  "cwd E = Inl e \<Longrightarrow> generatedPaths0 E b s w = (Inl e, logEvent FsCwd w)"
  by (simp_all add: generatedPaths0_def)

section \<open>Lemmas on the cached operations\<close>

lemma cacheOrGen_miss_ok:
  assumes "truthy cp" "isl (fst (readTextFile (tmpl cp) w))"
    and "gen (stripJs script) (logEvent (FsRead (tmpl cp)) w) = (Inr u, w2)"
    and "readable w2 (tmpl cp) content"
  shows "cacheOrGen script cp gen fn w = (Inr content, logEvent (FsRead (tmpl cp)) w2)"
proof -
  obtain r1 w1 where r: "readTextFile (tmpl cp) w = (r1, w1)" by (cases "readTextFile (tmpl cp) w")
  then have w1: "w1 = logEvent (FsRead (tmpl cp)) w" using snd_readTextFile[of "tmpl cp" w] by simp
  from assms(2) r obtain e0 where r1: "r1 = Inl e0" by (cases r1) auto
  show ?thesis
    using assms(1,3) r r1 w1 readTextFile_readable[OF assms(4)]
    by (simp add: cacheOrGen_def)
qed

lemma cacheOrGen_hit:
  assumes "truthy cp" "readable w (tmpl cp) content"
  shows "cacheOrGen script cp gen fn w = (Inr content, logEvent (FsRead (tmpl cp)) w)"
  using assms readTextFile_readable[OF assms(2)] by (simp add: cacheOrGen_def)

lemma cacheOrGen_disabled:
  "\<not> truthy cp \<Longrightarrow> cacheOrGen script cp gen fn w = (Inr (isDisabled fn), w)"
  by (simp add: cacheOrGen_def)

lemma cacheOrGen_fault:
  assumes "truthy cp" "isl (fst (readTextFile (tmpl cp) w))"
    and "fst (gen (stripJs script) (logEvent (FsRead (tmpl cp)) w)) = Inl e"
  shows "cacheOrGen script cp gen fn w
           = (Inl e, snd (gen (stripJs script) (logEvent (FsRead (tmpl cp)) w)))"
proof -
  obtain r1 w1 where r: "readTextFile (tmpl cp) w = (r1, w1)" by (cases "readTextFile (tmpl cp) w")
  then have w1: "w1 = logEvent (FsRead (tmpl cp)) w" using snd_readTextFile[of "tmpl cp" w] by simp
  from assms(2) r obtain e0 where r1: "r1 = Inl e0" by (cases r1) auto
  obtain r2 w2 where g: "gen (stripJs script) (logEvent (FsRead (tmpl cp)) w) = (r2, w2)"
    by (cases "gen (stripJs script) (logEvent (FsRead (tmpl cp)) w)")
  with assms(3) have r2: "r2 = Inl e" by simp
  show ?thesis using assms(1) r r1 w1 g r2 by (simp add: cacheOrGen_def)
qed

text \<open>
  A cached operation asks for the working directory and then runs \<open>cacheOrGen\<close>: when
  the generator completes and leaves the text readable at the planned path, the
  operation is a read-through.
\<close>

lemma cached_readThrough:
  assumes req: "\<And>v. request v = cacheOrGen script cp gen fn (logEvent FsCwd v)"
    and "truthy cp" "isl (fst (readTextFile (tmpl cp) w))"
    and "gen (stripJs script) (logEvent (FsRead (tmpl cp)) (logEvent FsCwd w)) = (Inr u, w2)"
    and "readable w2 (tmpl cp) content"
    and "genCalls w2 = genCalls w + 1"
  shows "readThrough request (tmpl cp) content w"
proof -
  have m: "isl (fst (readTextFile (tmpl cp) (logEvent FsCwd w)))"
    using assms(3) readTextFile_sameFs[of "logEvent FsCwd w" w "tmpl cp"] by simp
  have 1: "request w = (Inr content, logEvent (FsRead (tmpl cp)) w2)"
    using cacheOrGen_miss_ok[where cp = cp and w = "logEvent FsCwd w" and gen = gen
            and script = script and u = u and ?w2.0 = w2 and content = content and fn = fn]
      assms(2,4,5) m req by simp
  have r: "readable (logEvent FsCwd (logEvent (FsRead (tmpl cp)) w2)) (tmpl cp) content"
    using assms(5) by simp
  have 2: "request (logEvent (FsRead (tmpl cp)) w2)
             = (Inr content, logEvent (FsRead (tmpl cp)) (logEvent FsCwd (logEvent (FsRead (tmpl cp)) w2)))"
    using cacheOrGen_hit[OF assms(2) r] req by simp
  show ?thesis using 1 2 assms(5,6) by (simp add: readThrough_def Let_def)
qed

lemma cachedCompile_cwd:
  "cwd E = Inr wd \<Longrightarrow>
     cachedCompile E b script w
       = cacheOrGen script (p_compiled (pathsOf wd b script)) (compile E b) ''cachedCompile''
           (logEvent FsCwd w)"
  "cwd E = Inl e \<Longrightarrow> cachedCompile E b script w = (Inl e, logEvent FsCwd w)"
  by (simp_all add: cachedCompile_def generatedPaths_cwd)

lemma cachedBundle_cwd:
  "cwd E = Inr wd \<Longrightarrow>
     cachedBundle E b script w
       = cacheOrGen script (p_bundle (pathsOf wd b script)) (bundleGen E b) ''cachedBundle''
           (logEvent FsCwd w)"
  "cwd E = Inl e \<Longrightarrow> cachedBundle E b script w = (Inl e, logEvent FsCwd w)"
  by (simp_all add: cachedBundle_def generatedPaths_cwd)

lemma cachedTranspile_cwd:
  "cwd E = Inr wd \<Longrightarrow>
     cachedTranspile E b script w
       = cacheOrGen script (p_transpile (pathsOf wd b script)) (transpile E b) ''cachedTranspile''
           (logEvent FsCwd w)"
  "cwd E = Inl e \<Longrightarrow> cachedTranspile E b script w = (Inl e, logEvent FsCwd w)"
  by (simp_all add: cachedTranspile_def generatedPaths_cwd)

text \<open>The generators, when the working directory is available and their kind is enabled.\<close>

lemma compile_cwd:
  "cwd E = Inr wd \<Longrightarrow> truthy (compiledFolder b) \<Longrightarrow>
     compile E b s w =
       (case denoCompile E (files w) (''./'' @ tsSource b @ ''/'' @ s) of
          Inl e \<Rightarrow> (Inl e, logEvent (GenCompile (''./'' @ tsSource b @ ''/'' @ s)) (logEvent FsCwd w))
        | Inr (diagnostics, emitMap) \<Rightarrow>
            (case diagnostics of
               Some d \<Rightarrow> (Inl (AssertionError (''Compile Error: '' @ d)),
                          logEvent (GenCompile (''./'' @ tsSource b @ ''/'' @ s)) (logEvent FsCwd w))
             | None \<Rightarrow>
                 compileLoop b (''./'' @ tmpl (compiledFolder b) @ ''/'' @ s) (tmpl (compiledFolder b))
                   emitMap (logEvent (GenCompile (''./'' @ tsSource b @ ''/'' @ s)) (logEvent FsCwd w))))"
  by (simp add: compile_def generatedPaths_cwd split: sum.splits prod.splits option.splits)

lemma bundleGen_cwd:
  "cwd E = Inr wd \<Longrightarrow> truthy (bundleFolder b) \<Longrightarrow>
     bundleGen E b s w =
       (case denoBundle E (files w) (''./'' @ tsSource b @ ''/'' @ s) of
          Inl e \<Rightarrow> (Inl e, logEvent (GenBundle (''./'' @ tsSource b @ ''/'' @ s)) (logEvent FsCwd w))
        | Inr (diagnostics, emit) \<Rightarrow>
            (case diagnostics of
               Some d \<Rightarrow> (Inl (AssertionError (''Compile Error: '' @ d)),
                          logEvent (GenBundle (''./'' @ tsSource b @ ''/'' @ s)) (logEvent FsCwd w))
             | None \<Rightarrow>
                 (case ensureDir (tmpl (bundleFolder b))
                         (logEvent (GenBundle (''./'' @ tsSource b @ ''/'' @ s)) (logEvent FsCwd w)) of
                    (Inl e, w1) \<Rightarrow> (Inl e, w1)
                  | (Inr _, w1) \<Rightarrow>
                      writeTextFile (''./'' @ tmpl (bundleFolder b) @ ''/'' @ s @ ''.js'')
                        (mapExternalSources b emit) w1)))"
  by (simp add: bundleGen_def generatedPaths_cwd Let_def split: sum.splits prod.splits option.splits)

lemma transpile_cwd:
  "cwd E = Inr wd \<Longrightarrow> truthy (transpileFolder b) \<Longrightarrow>
     transpile E b s w =
       (case denoTranspileOnly E [(''main.ts'', ''./'' @ tsSource b @ ''/'' @ s)] of
          Inl e \<Rightarrow> (Inl e, logEvent (GenTranspile (''./'' @ tsSource b @ ''/'' @ s)) (logEvent FsCwd w))
        | Inr emit \<Rightarrow>
            (case mapExternalSourcesOfValue b (map_of emit ''source'') of
               Inl e \<Rightarrow> (Inl e, logEvent (GenTranspile (''./'' @ tsSource b @ ''/'' @ s))
                                  (logEvent FsCwd w))
             | Inr code \<Rightarrow>
                 (case ensureDir (tmpl (transpileFolder b))
                         (logEvent (GenTranspile (''./'' @ tsSource b @ ''/'' @ s)) (logEvent FsCwd w)) of
                    (Inl e, w1) \<Rightarrow> (Inl e, w1)
                  | (Inr _, w1) \<Rightarrow>
                      writeTextFile (''./'' @ tmpl (transpileFolder b) @ ''/'' @ s)
                        (encodeValue code) w1)))"
  by (simp add: transpile_def generatedPaths_cwd Let_def split: sum.splits prod.splits option.splits)

text \<open>The loop of \<open>compile\<close>, once the output folder exists and the planned path can be written.\<close>

lemma compileLoop_genCalls: "genCalls (snd (compileLoop b dir folder em w)) = genCalls w"
proof (induction em arbitrary: w)
  case Nil
  then show ?case by simp
next
  case (Cons x em)
  obtain resource code where x: "x = (resource, code)" by (cases x)
  obtain r1 w1 where e: "ensureDir folder w = (r1, w1)" by (cases "ensureDir folder w")
  have g1: "genCalls w1 = genCalls w" using ensureDir_genCalls[OF e] .
  show ?case
  proof (cases r1)
    case (Inl a)
    then show ?thesis using x e g1 by simp
  next
    case (Inr u)
    obtain r2 w2 where wr: "writeTextFile dir (mapExternalSources b code) w1 = (r2, w2)"
      by (cases "writeTextFile dir (mapExternalSources b code) w1")
    have g2: "genCalls w2 = genCalls w1" using writeTextFile_genCalls[OF wr] .
    show ?thesis using x e Inr wr g1 g2 Cons.IH[of w2] by (cases r2) simp_all
  qed
qed

lemma compileLoop_steady:
  assumes "directory w folder" "writable w dir"
  shows "\<exists>w'. compileLoop b dir folder em w = (Inr (), w') \<and> dirs w' = dirs w
              \<and> (em \<noteq> [] \<longrightarrow> readable w' dir (mapExternalSources b (snd (last em))))"
  using assms
proof (induction em arbitrary: w)
  case Nil
  then show ?case by simp
next
  case (Cons x em)
  obtain resource code where x: "x = (resource, code)" by (cases x)
  let ?w1 = "logEvent (FsEnsureDir folder) w"
  have e: "ensureDir folder w = (Inr (), ?w1)" using Cons.prems(1) by (rule ensureDir_existing)
  have wr1: "writable ?w1 dir" using Cons.prems(2) by simp
  obtain w2 where wr: "writeTextFile dir (mapExternalSources b code) ?w1 = (Inr (), w2)"
    using writeTextFile_writable[OF wr1] by simp
  have d2: "dirs w2 = dirs w" using writeTextFile_Inr(3)[OF wr] by simp
  have r2: "readable w2 dir (mapExternalSources b code)" using writeTextFile_Inr(1)[OF wr] .
  have "directory w2 folder" "writable w2 dir"
    using Cons.prems directory_dirs[OF d2, of folder] writable_dirs[OF d2, of dir] by simp_all
  from Cons.IH[OF this] obtain w' where
    l: "compileLoop b dir folder em w2 = (Inr (), w')" and d: "dirs w' = dirs w2"
    and r: "em \<noteq> [] \<longrightarrow> readable w' dir (mapExternalSources b (snd (last em)))"
    by blast
  have c: "compileLoop b dir folder (x # em) w = (Inr (), w')" using x e wr l by simp
  show ?case
  proof (cases "em = []")
    case True
    then have "w' = w2" using l by simp
    then show ?thesis using c d d2 r2 x True by simp
  next
    case False
    then show ?thesis using c d d2 r by simp
  qed
qed

lemma compileLoop_ok:
  assumes "fst (ensureDir folder w) = Inr ()" "writable (snd (ensureDir folder w)) dir" "em \<noteq> []"
  shows "\<exists>w'. compileLoop b dir folder em w = (Inr (), w')
              \<and> readable w' dir (mapExternalSources b (snd (last em)))"
proof -
  obtain x em' where em: "em = x # em'" using assms(3) by (cases em) auto
  obtain resource code where x: "x = (resource, code)" by (cases x)
  obtain w1 where e: "ensureDir folder w = (Inr (), w1)"
    using assms(1) by (cases "ensureDir folder w") auto
  have d1: "directory w1 folder" using ensureDir_post[OF assms(1)] e by simp
  have wr1: "writable w1 dir" using assms(2) e by simp
  obtain w2 where wr: "writeTextFile dir (mapExternalSources b code) w1 = (Inr (), w2)"
    using writeTextFile_writable[OF wr1] by simp
  have d2: "dirs w2 = dirs w1" using writeTextFile_Inr(3)[OF wr] .
  have r2: "readable w2 dir (mapExternalSources b code)" using writeTextFile_Inr(1)[OF wr] .
  have "directory w2 folder" "writable w2 dir"
    using d1 wr1 directory_dirs[OF d2, of folder] writable_dirs[OF d2, of dir] by simp_all
  from compileLoop_steady[OF this, of b em'] obtain w' where
    l: "compileLoop b dir folder em' w2 = (Inr (), w')"
    and r: "em' \<noteq> [] \<longrightarrow> readable w' dir (mapExternalSources b (snd (last em')))"
    by blast
  have c: "compileLoop b dir folder em w = (Inr (), w')" using em x e wr l by simp
  show ?thesis
  proof (cases "em' = []")
    case True
    then have "w' = w2" using l by simp
    then show ?thesis using c r2 x em True by simp
  next
    case False
    then show ?thesis using c r em by simp
  qed
qed

text \<open>A write behind the creation of the output folder.\<close>

lemma ensureDir_then_write:
  assumes "fst (ensureDir folder w) = Inr ()" "writable (snd (ensureDir folder w)) p"
    and "sameFs v w"
  shows "\<exists>v2. (case ensureDir folder v of
                 (Inl e, v1) \<Rightarrow> (Inl e, v1)
               | (Inr _, v1) \<Rightarrow> writeTextFile p t v1) = (Inr (), v2)
              \<and> readable v2 p t \<and> genCalls v2 = genCalls v"
proof -
  obtain r1 v1 where e: "ensureDir folder v = (r1, v1)" by (cases "ensureDir folder v")
  have r1: "r1 = Inr ()" and s1: "sameFs v1 (snd (ensureDir folder w))"
    using ensureDir_sameFs[OF assms(3), of folder] e assms(1) by simp_all
  have g1: "genCalls v1 = genCalls v" using ensureDir_genCalls[OF e] .
  have "writable v1 p" using assms(2) writable_dirs[OF sameFs_dirs[OF s1], of p] by simp
  then obtain v2 where wr: "writeTextFile p t v1 = (Inr (), v2)"
    using writeTextFile_writable[of v1 p t] by simp
  show ?thesis using e r1 wr g1 writeTextFile_Inr(1,2)[OF wr] by simp
qed

text \<open>Read-through of the bundle cache, for an identifier that ends in \<open>.js\<close>.\<close>

lemma stripJs_extension: "stripJs (s @ ''.js'') = s"
  by (simp add: stripJs_def Let_def lineTerminator_def nth_append)

lemma stripJs_other: "length s < 3 \<or> drop (length s - 2) s \<noteq> ''js'' \<Longrightarrow> stripJs s = s"
  by (auto simp add: stripJs_def Let_def)

lemma bundle_readThrough:
  assumes cw: "cwd E = Inr wd"
    and en: "bundleFolder b = Some f" "f \<noteq> []"
    and miss: "isl (fst (readTextFile (''./'' @ f @ ''/'' @ s @ ''.js'') w))"
    and db: "denoBundle E (files w) (''./'' @ tsSource b @ ''/'' @ s) = Inr (None, emit)"
    and ed: "fst (ensureDir f w) = Inr ()"
    and wr: "writable (snd (ensureDir f w)) (''./'' @ f @ ''/'' @ s @ ''.js'')"
  shows "readThrough (cachedBundle E b (s @ ''.js'')) (''./'' @ f @ ''/'' @ s @ ''.js'')
           (mapExternalSources b emit) w"
proof -
  let ?p = "''./'' @ f @ ''/'' @ s @ ''.js''"
  let ?w1 = "logEvent (FsRead ?p) (logEvent FsCwd w)"
  let ?w3 = "logEvent (GenBundle (''./'' @ tsSource b @ ''/'' @ s)) (logEvent FsCwd ?w1)"
  have tr: "truthy (bundleFolder b)" using en by simp
  have s3: "sameFs ?w3 w" by simp
  from ensureDir_then_write[OF ed wr s3, of "mapExternalSources b emit"] obtain v2 where
    v2: "(case ensureDir f ?w3 of (Inl e, v1) \<Rightarrow> (Inl e, v1)
            | (Inr _, v1) \<Rightarrow> writeTextFile ?p (mapExternalSources b emit) v1) = (Inr (), v2)"
    and r: "readable v2 ?p (mapExternalSources b emit)" and g: "genCalls v2 = genCalls ?w3"
    by blast
  have tm: "tmpl (bundleFolder b) = f" using en by simp
  have b2: "bundleGen E b s ?w1 = (Inr (), v2)"
    using bundleGen_cwd[OF cw tr, of s ?w1] db v2 unfolding tm by simp
  have req: "\<And>v. cachedBundle E b (s @ ''.js'') v
               = cacheOrGen (s @ ''.js'') (Some ?p) (bundleGen E b) ''cachedBundle'' (logEvent FsCwd v)"
    using cachedBundle_cwd(1)[OF cw] en by simp
  have "readThrough (cachedBundle E b (s @ ''.js'')) (tmpl (Some ?p)) (mapExternalSources b emit) w"
    by (rule cached_readThrough[where ?w2.0 = v2 and u = "()" and gen = "bundleGen E b"
          and fn = "''cachedBundle''" and script = "s @ ''.js''"])
       (use req miss b2 r g in \<open>simp_all add: stripJs_extension\<close>)
  then show ?thesis by simp
qed

text \<open>Read-through of the compile cache, for an identifier that is passed on as it is.\<close>

lemma compile_readThrough:
  assumes cw: "cwd E = Inr wd"
    and en: "compiledFolder b = Some f" "f \<noteq> []"
    and ns: "stripJs script = script"
    and miss: "isl (fst (readTextFile (''./'' @ f @ ''/'' @ script) w))"
    and dc: "denoCompile E (files w) (''./'' @ tsSource b @ ''/'' @ script) = Inr (None, em)"
            "em \<noteq> []"
    and ed: "fst (ensureDir f w) = Inr ()"
    and wr: "writable (snd (ensureDir f w)) (''./'' @ f @ ''/'' @ script)"
  shows "readThrough (cachedCompile E b script) (''./'' @ f @ ''/'' @ script)
           (mapExternalSources b (snd (last em))) w"
proof -
  let ?p = "''./'' @ f @ ''/'' @ script"
  let ?w1 = "logEvent (FsRead ?p) (logEvent FsCwd w)"
  let ?w3 = "logEvent (GenCompile (''./'' @ tsSource b @ ''/'' @ script)) (logEvent FsCwd ?w1)"
  have tr: "truthy (compiledFolder b)" using en by simp
  have e3: "fst (ensureDir f ?w3) = Inr ()"
    using ensureDir_sameFs[of ?w3 w f] ed by simp
  have "sameFs (snd (ensureDir f ?w3)) (snd (ensureDir f w))"
    using ensureDir_sameFs[of ?w3 w f] by simp
  then have w3: "writable (snd (ensureDir f ?w3)) ?p"
    using wr writable_dirs[OF sameFs_dirs, of "snd (ensureDir f ?w3)" "snd (ensureDir f w)" ?p] by simp
  from compileLoop_ok[OF e3 w3 dc(2), of b] obtain v2 where
    l: "compileLoop b ?p f em ?w3 = (Inr (), v2)"
    and r: "readable v2 ?p (mapExternalSources b (snd (last em)))"
    by blast
  have g: "genCalls v2 = genCalls w + 1"
    using compileLoop_genCalls[of b ?p f em ?w3] l by simp
  have tm: "tmpl (compiledFolder b) = f" using en by simp
  have c2: "compile E b script ?w1 = (Inr (), v2)"
    using compile_cwd[OF cw tr, of script ?w1] dc(1) l unfolding tm by simp
  have req: "\<And>v. cachedCompile E b script v
               = cacheOrGen script (Some ?p) (compile E b) ''cachedCompile'' (logEvent FsCwd v)"
    using cachedCompile_cwd(1)[OF cw] en by simp
  have "readThrough (cachedCompile E b script) (tmpl (Some ?p))
          (mapExternalSources b (snd (last em))) w"
    by (rule cached_readThrough[where ?w2.0 = v2 and u = "()" and gen = "compile E b"
          and fn = "''cachedCompile''" and script = script])
       (use req miss c2 r g ns in simp_all)
  then show ?thesis by simp
qed

lemma scriptCache_hit:
  assumes "truthy (cacheFolder b)"
    and "readable w (''./'' @ tmpl (cacheFolder b) @ ''/'' @ handle @ ''/'' @ md5 E script) content"
  shows "scriptCache E b script handle w =
           (Inr content,
            logEvent (FsRead (''./'' @ tmpl (cacheFolder b) @ ''/'' @ handle @ ''/'' @ md5 E script)) w)"
  using assms(1) readTextFile_readable[OF assms(2)] by (simp add: scriptCache_def Let_def)

lemma scriptCache_miss:
  assumes "truthy (cacheFolder b)"
    and "isl (fst (readTextFile (''./'' @ tmpl (cacheFolder b) @ ''/'' @ handle @ ''/'' @ md5 E script) w))"
  shows "scriptCache E b script handle w =
           (let uri = ''./'' @ tmpl (cacheFolder b) @ ''/'' @ handle @ ''/'' @ md5 E script
            in case updateCache E b script handle uri (logEvent (FsRead uri) w) of
                 (Inl e, w2) \<Rightarrow> (Inl e, w2)
               | (Inr _, w2) \<Rightarrow>
                   (case readTextFile uri w2 of
                      (Inr data, w3) \<Rightarrow> (Inr data, w3)
                    | (Inl _, w3) \<Rightarrow> (Inr (missingFile script handle), w3)))"
proof -
  let ?uri = "''./'' @ tmpl (cacheFolder b) @ ''/'' @ handle @ ''/'' @ md5 E script"
  obtain r1 w1 where r: "readTextFile ?uri w = (r1, w1)" by (cases "readTextFile ?uri w")
  then have w1: "w1 = logEvent (FsRead ?uri) w" using snd_readTextFile[of ?uri w] by simp
  from assms(2) r obtain e0 where r1: "r1 = Inl e0" by (cases r1) auto
  show ?thesis using assms(1) r r1 w1 by (simp add: scriptCache_def Let_def)
qed

lemma scriptCache_readThrough:
  assumes en: "cacheFolder b = Some f" "f \<noteq> []" "\<not> isAbsolute f"
    and miss: "isl (fst (readTextFile (''./'' @ f @ ''/'' @ handle @ ''/'' @ md5 E script) w))"
    and fe: "fetch E (tmpl (mapGet (cacheMap b) handle) @ script) = Inr body"
    and ok: "fst (updateCache E b script handle (''./'' @ f @ ''/'' @ handle @ ''/'' @ md5 E script)
                   (logEvent (FsRead (''./'' @ f @ ''/'' @ handle @ ''/'' @ md5 E script)) w)) = Inr ()"
  shows "readThrough (scriptCache E b script handle)
           (''./'' @ f @ ''/'' @ handle @ ''/'' @ md5 E script) (mapExternalSources b body) w"
proof -
  let ?q = "f @ ''/'' @ handle @ ''/'' @ md5 E script"
  let ?uri = "''./'' @ ?q"
  let ?code = "mapExternalSources b body"
  let ?w1 = "logEvent (FsRead ?uri) w"
  let ?w1' = "logEvent (NetFetch (tmpl (mapGet (cacheMap b) handle) @ script)) ?w1"
  have tr: "truthy (cacheFolder b)" and tm: "tmpl (cacheFolder b) = f" using en by simp_all
  obtain r1 wa where e: "ensureDir (f @ ''/'' @ handle @ ''/'') ?w1' = (r1, wa)"
    by (cases "ensureDir (f @ ''/'' @ handle @ ''/'') ?w1'")
  have ga: "genCalls wa = genCalls ?w1'" using ensureDir_genCalls[OF e] .
  have c: "updateCache E b script handle ?uri ?w1 =
             (case r1 of Inl e \<Rightarrow> (Inl e, wa) | Inr _ \<Rightarrow> writeTextFile ?q ?code wa)"
    using en fe e by (cases r1) (simp_all add: updateCache_def Let_def)
  obtain w2 where w2: "writeTextFile ?q ?code wa = (Inr (), w2)"
    and u2: "updateCache E b script handle ?uri ?w1 = (Inr (), w2)"
    using ok c by (cases r1; cases "writeTextFile ?q ?code wa") auto
  have "\<not> isAbsolute ?q" using en isAbsolute_append[of f] by simp
  then have r: "readable w2 ?uri ?code"
    using writeTextFile_Inr(1)[OF w2] readable_dot_slash[of ?q w2 ?code] by simp
  have g: "genCalls w2 = genCalls w + 1"
    using writeTextFile_Inr(2)[OF w2] ga by simp
  have m: "isl (fst (readTextFile (''./'' @ tmpl (cacheFolder b) @ ''/'' @ handle @ ''/'' @ md5 E script) w))"
    using miss tm by simp
  have 1: "scriptCache E b script handle w = (Inr ?code, logEvent (FsRead ?uri) w2)"
    using scriptCache_miss[OF tr m] u2 readTextFile_readable[OF r] tm by (simp add: Let_def)
  have r3: "readable (logEvent (FsRead ?uri) w2)
              (''./'' @ tmpl (cacheFolder b) @ ''/'' @ handle @ ''/'' @ md5 E script) ?code"
    using r tm by simp
  have 2: "scriptCache E b script handle (logEvent (FsRead ?uri) w2) =
             (Inr ?code, logEvent (FsRead ?uri) (logEvent (FsRead ?uri) w2))"
    using scriptCache_hit[OF tr r3] tm by simp
  show ?thesis using 1 2 r g by (simp add: readThrough_def Let_def)
qed

section \<open>C3: rewriting of the remote references\<close>

lemma getSubstitution_plain:
  "CHR ''$'' \<notin> set rv \<Longrightarrow> getSubstitution m p r rv = rv"
  by (induction m p r rv rule: getSubstitution.induct) auto

lemma replaceFrom_no_occurrence:
  "\<not> sublist pat s \<Longrightarrow> replaceFrom pat rv p s = s"
proof (induction s arbitrary: p)
  case Nil
  then show ?case by simp
next
  case (Cons c cs)
  then have "\<not> prefix pat (c # cs)" "\<not> sublist pat cs"
    by (simp_all add: sublist_Cons_right)
  then show ?case using Cons.IH by simp
qed

lemma prefix_of_long:
  assumes "prefix pat (xs @ ys)" "length pat \<le> length xs"
  shows "prefix pat xs"
  using assms by (auto simp add: prefix_append)

lemma replaceFrom_passed:
  "CHR ''$'' \<notin> set rv \<Longrightarrow> replaceFrom pat rv p s = replaceFrom pat rv q s"
proof (induction s arbitrary: p q rule: length_induct)
  case (1 s)
  show ?case
  proof (cases s)
    case Nil
    then show ?thesis by simp
  next
    case (Cons c cs)
    show ?thesis
    proof (cases "pat \<noteq> [] \<and> prefix pat (c # cs)")
      case True
      then have "length (drop (length pat) (c # cs)) < length s" using Cons by simp
      then have "replaceFrom pat rv (p @ pat) (drop (length pat) (c # cs))
                   = replaceFrom pat rv (q @ pat) (drop (length pat) (c # cs))"
        using 1 by blast
      then show ?thesis using True Cons 1(2) by (simp add: getSubstitution_plain)
    next
      case False
      have "replaceFrom pat rv (p @ [c]) cs = replaceFrom pat rv (q @ [c]) cs"
        using 1 Cons by simp
      then show ?thesis using False Cons by auto
    qed
  qed
qed

lemma replaceFrom_first_occurrence:
  assumes "pat \<noteq> []" "CHR ''$'' \<notin> set rv"
  shows "\<not> sublist pat (pre @ butlast pat) \<Longrightarrow>
         replaceFrom pat rv p (pre @ pat @ post) = pre @ rv @ replaceFrom pat rv [] post"
proof (induction pre arbitrary: p)
  case Nil
  obtain c cs where pc: "pat @ post = c # cs" using assms(1) by (cases "pat @ post") auto
  have "prefix pat (c # cs)" using pc by (metis prefixI)
  moreover have "drop (length pat) (c # cs) = post" using pc by (metis append_eq_conv_conj)
  ultimately show ?case
    using assms pc replaceFrom_passed[OF assms(2), of pat "p @ pat" post "[]"]
    by (simp add: getSubstitution_plain)
next
  case (Cons c pre)
  have e: "butlast pat @ [last pat] = pat" using assms(1) by simp
  have "((c # pre) @ butlast pat) @ ([last pat] @ post) = (c # pre) @ (butlast pat @ [last pat]) @ post"
    by (simp only: append_assoc)
  then have split: "((c # pre) @ butlast pat) @ ([last pat] @ post) = (c # pre) @ pat @ post"
    by (simp only: e)
  have np: "\<not> prefix pat (c # pre @ pat @ post)"
  proof
    assume "prefix pat (c # pre @ pat @ post)"
    then have "prefix pat ((c # pre) @ pat @ post)" by simp
    then have "prefix pat (((c # pre) @ butlast pat) @ ([last pat] @ post))"
      by (simp only: split)
    moreover have "length pat \<le> length ((c # pre) @ butlast pat)" by simp
    ultimately have "prefix pat ((c # pre) @ butlast pat)" by (rule prefix_of_long)
    then have "sublist pat ((c # pre) @ butlast pat)" by (metis prefix_imp_sublist)
    with Cons.prems show False by simp
  qed
  have "\<not> sublist pat (pre @ butlast pat)"
    using Cons.prems by (simp add: sublist_Cons_right)
  then have "replaceFrom pat rv (p @ [c]) (pre @ pat @ post)
               = pre @ rv @ replaceFrom pat rv [] post"
    by (rule Cons.IH)
  then show ?case using np by simp
qed

lemma replaceAll_no_occurrence:
  "pat \<noteq> [] \<Longrightarrow> \<not> sublist pat s \<Longrightarrow> replaceAll s pat rv = s"
  by (simp add: replaceAll_def replaceFrom_no_occurrence)

lemma replaceAll_first_occurrence:
  "pat \<noteq> [] \<Longrightarrow> CHR ''$'' \<notin> set rv \<Longrightarrow> \<not> sublist pat (pre @ butlast pat) \<Longrightarrow>
     replaceAll (pre @ pat @ post) pat rv = pre @ rv @ replaceAll post pat rv"
  by (simp add: replaceAll_def replaceFrom_first_occurrence)

lemma mapLoop_foldl:
  "mapLoop root entries c2 =
     foldl (\<lambda>c (handle, source). replaceAll c source (tmpl root @ ''/'' @ handle @ ''/'')) c2 entries"
  by (induction root entries c2 rule: mapLoop.induct) simp_all

lemma mapLoop_no_occurrence:
  "\<forall>(handle, source) \<in> set entries. source \<noteq> [] \<and> \<not> sublist source c2 \<Longrightarrow>
     mapLoop root entries c2 = c2"
  by (induction root entries c2 rule: mapLoop.induct) (auto simp add: replaceAll_no_occurrence)

text \<open>
  C3, as the code has it. With rewriting off, \<open>mapExternalSources\<close> is the identity. With
  rewriting on, it makes one pass per entry of the registry, in the order of insertion,
  each on the text that the passes before it have left. A pass for a base address that is
  not empty, with no dollar sign in the replacement, replaces the occurrence it meets
  first in a scan from the left and goes on behind it, and it leaves a text with no
  occurrence as it is; a code in which no registered base address occurs is returned
  unchanged.
\<close>

theorem mapExternalSources_amended:
  "(\<not> mapSources b \<longrightarrow> mapExternalSources b code = code)
   \<and> (mapSources b \<longrightarrow>
        mapExternalSources b code
          = foldl (\<lambda>c (handle, source).
                     replaceAll c source (tmpl (cacheRoot b) @ ''/'' @ handle @ ''/''))
              code (cacheMap b))
   \<and> (source \<noteq> [] \<and> CHR ''$'' \<notin> set rv \<and> \<not> sublist source (pre @ butlast source) \<longrightarrow>
        replaceAll (pre @ source @ post) source rv = pre @ rv @ replaceAll post source rv)
   \<and> (source \<noteq> [] \<and> \<not> sublist source code \<longrightarrow> replaceAll code source rv = code)
   \<and> (mapSources b \<and> list_all (\<lambda>(handle, source). source \<noteq> [] \<and> \<not> sublist source code) (cacheMap b)
        \<longrightarrow> mapExternalSources b code = code)"
  using replaceAll_first_occurrence[of source rv pre post] replaceAll_no_occurrence[of source code rv]
    mapLoop_no_occurrence[of "cacheMap b" code "cacheRoot b"]
  by (auto simp add: mapExternalSources_def mapLoop_foldl list_all_iff)

theorem mapExternalSources_amended_witness:
  "\<not> mapSources exAll
   \<and> mapExternalSources exAll ''import https://cdn.example/lib/utils.js''
        = ''import https://cdn.example/lib/utils.js''
   \<and> mapSources exTwoSources
   \<and> mapExternalSources exTwoSources ''import https://deno.land/std/fs/mod.ts''
        = foldl (\<lambda>c (handle, source).
                   replaceAll c source (tmpl (cacheRoot exTwoSources) @ ''/'' @ handle @ ''/''))
            ''import https://deno.land/std/fs/mod.ts'' (cacheMap exTwoSources)
   \<and> (''https://deno.land/'' \<noteq> [] \<and> CHR ''$'' \<notin> set ''/cache/std/''
        \<and> \<not> sublist ''https://deno.land/'' (''import '' @ butlast ''https://deno.land/''))
   \<and> replaceAll (''import '' @ ''https://deno.land/'' @ ''std/fs/mod.ts'') ''https://deno.land/''
        ''/cache/std/''
        = ''import '' @ ''/cache/std/'' @ replaceAll ''std/fs/mod.ts'' ''https://deno.land/'' ''/cache/std/''
   \<and> (''https://deno.land/'' \<noteq> [] \<and> \<not> sublist ''https://deno.land/'' ''std/fs/mod.ts'')
   \<and> replaceAll ''std/fs/mod.ts'' ''https://deno.land/'' ''/cache/std/'' = ''std/fs/mod.ts''
   \<and> (mapSources exTwoSources
        \<and> list_all (\<lambda>(handle, source). source \<noteq> [] \<and> \<not> sublist source ''import ./local.ts'')
             (cacheMap exTwoSources))
   \<and> mapExternalSources exTwoSources ''import ./local.ts'' = ''import ./local.ts''"
  (is "?H1 \<and> ?C1 \<and> ?H2 \<and> ?C2 \<and> ?H3 \<and> ?C3 \<and> ?H4 \<and> ?C4 \<and> ?H5 \<and> ?C5")
proof -
  have h1: ?H1 by code_simp
  have h2: ?H2 by code_simp
  have h3: ?H3 by code_simp
  have h4: ?H4 by code_simp
  have h5: ?H5 by code_simp
  have c1: ?C1
    using mapExternalSources_amended
            [where b = exAll and code = "''import https://cdn.example/lib/utils.js''",
             THEN conjunct1, THEN mp, OF h1] .
  have c2: ?C2
    using mapExternalSources_amended
            [where b = exTwoSources and code = "''import https://deno.land/std/fs/mod.ts''",
             THEN conjunct2, THEN conjunct1, THEN mp, OF h2] .
  have c3: ?C3
    using mapExternalSources_amended
            [where source = "''https://deno.land/''" and rv = "''/cache/std/''"
               and pre = "''import ''" and post = "''std/fs/mod.ts''",
             THEN conjunct2, THEN conjunct2, THEN conjunct1, THEN mp, OF h3] .
  have c4: ?C4
    using mapExternalSources_amended
            [where source = "''https://deno.land/''" and rv = "''/cache/std/''"
               and code = "''std/fs/mod.ts''",
             THEN conjunct2, THEN conjunct2, THEN conjunct2, THEN conjunct1, THEN mp, OF h4] .
  have c5: ?C5
    using mapExternalSources_amended
            [where b = exTwoSources and code = "''import ./local.ts''",
             THEN conjunct2, THEN conjunct2, THEN conjunct2, THEN conjunct2, THEN mp, OF h5] .
  show ?thesis using h1 h2 h3 h4 h5 c1 c2 c3 c4 c5 by blast
qed

text \<open>
  C3 as stated fails with rewriting on. The pass for \<open>std\<close> rewrites the beginning of
  the address of \<open>x\<close>, so the occurrence of the base address of \<open>x\<close> in the input is not
  replaced by the local address of \<open>x\<close>; and where the local cache is served by the
  host of a registered source, the output contains that source's base address.
\<close>

theorem mapExternalSources_counterexample: "mapSources exTwoSources
   \<and> cacheMap exTwoSources = [(''std'', ''https://deno.land/''), (''x'', ''https://deno.land/x/'')]
   \<and> sublist ''https://deno.land/x/'' ''import https://deno.land/x/oak/mod.ts''
   \<and> mapExternalSources exTwoSources ''import https://deno.land/x/oak/mod.ts''
        = ''import /cache/std/x/oak/mod.ts''
   \<and> \<not> sublist ''/cache/x/'' (mapExternalSources exTwoSources ''import https://deno.land/x/oak/mod.ts'')
   \<and> mapSources exSameHost
   \<and> cacheMap exSameHost = [(''own'', ''http://localhost:8000/'')]
   \<and> mapExternalSources exSameHost ''import http://localhost:8000/mod.ts''
        = ''import http://localhost:8000/cache/own/mod.ts''
   \<and> sublist ''http://localhost:8000/''
        (mapExternalSources exSameHost ''import http://localhost:8000/mod.ts'')"
  by code_simp

section \<open>C4 and C5: the external cache\<close>

lemma map_of_mapSet: "map_of (mapSet k v m) k' = (if k' = k then Some v else map_of m k')"
  by (induction m) auto

lemma validSource_newBCC: "\<not> validSource (newBCC settings) handle"
  by (simp add: validSource_def mapHas_def newBCC_def)

lemma validSource_addCacheSource:
  "validSource (addCacheSource h source b) handle = (handle = h \<or> validSource b handle)"
  by (simp add: validSource_def mapHas_def addCacheSource_def map_of_mapSet)

lemma tmpl_unregistered: "\<not> validSource b handle \<Longrightarrow> tmpl (mapGet (cacheMap b) handle) = ''undefined''"
  by (simp add: validSource_def mapHas_def mapGet_def)

lemma updateCache_fetch_fault:
  "truthy (cacheFolder b) \<Longrightarrow> fetch E (tmpl (mapGet (cacheMap b) src) @ script) = Inl e \<Longrightarrow>
   updateCache E b script src uri w
     = (Inl e, logEvent (NetFetch (tmpl (mapGet (cacheMap b) src) @ script)) w)"
  by (simp add: updateCache_def Let_def)





text \<open>
  C4, as the code has it. \<open>validSource\<close> tells that a handle has not been registered
  through \<open>addCacheSource\<close>, but \<open>scriptCache\<close> does not consult the registry. With
  the external cache enabled it reads the cache entry and, on a miss, fetches the
  address made of the text \<open>undefined\<close> and the script path: a fault of that fetch is the
  outcome of \<open>scriptCache\<close>, and an answer is written to the cache and returned, by
  read-through as for a registered handle. Only with the external cache disabled is the
  payload of the disabled class returned, with no fetch and no write.
\<close>

theorem unregistered_handle_amended:
  "\<not> validSource (newBCC settings) handle
   \<and> validSource (addCacheSource h source b) handle = (handle = h \<or> validSource b handle)
   \<and> (\<not> validSource b handle \<and> truthy (cacheFolder b)
        \<and> isl (fst (readTextFile (''./'' @ tmpl (cacheFolder b) @ ''/'' @ handle @ ''/'' @ md5 E script) w))
        \<and> fetch E (''undefined'' @ script) = Inl e
      \<longrightarrow> scriptCache E b script handle w
            = (Inl e, logEvent (NetFetch (''undefined'' @ script))
                        (logEvent (FsRead (''./'' @ tmpl (cacheFolder b) @ ''/'' @ handle @ ''/''
                                             @ md5 E script)) w)))
   \<and> (\<not> validSource b handle \<and> cacheFolder b = Some f \<and> f \<noteq> [] \<and> \<not> isAbsolute f
        \<and> isl (fst (readTextFile (''./'' @ f @ ''/'' @ handle @ ''/'' @ md5 E script) w))
        \<and> fetch E (''undefined'' @ script) = Inr body
        \<and> fst (updateCache E b script handle (''./'' @ f @ ''/'' @ handle @ ''/'' @ md5 E script)
                  (logEvent (FsRead (''./'' @ f @ ''/'' @ handle @ ''/'' @ md5 E script)) w)) = Inr ()
      \<longrightarrow> readThrough (scriptCache E b script handle)
            (''./'' @ f @ ''/'' @ handle @ ''/'' @ md5 E script) (mapExternalSources b body) w)
   \<and> (\<not> truthy (cacheFolder b) \<longrightarrow> scriptCache E b script handle w = (Inr externalDisabled, w))"
proof -
  have 3: "scriptCache E b script handle w
            = (Inl e, logEvent (NetFetch (''undefined'' @ script))
                        (logEvent (FsRead (''./'' @ tmpl (cacheFolder b) @ ''/'' @ handle @ ''/''
                                             @ md5 E script)) w))"
    if u: "\<not> validSource b handle" and t: "truthy (cacheFolder b)"
      and m: "isl (fst (readTextFile (''./'' @ tmpl (cacheFolder b) @ ''/'' @ handle @ ''/'' @ md5 E script) w))"
      and f: "fetch E (''undefined'' @ script) = Inl e"
  proof -
    have f': "fetch E (tmpl (mapGet (cacheMap b) handle) @ script) = Inl e"
      using f tmpl_unregistered[OF u] by simp
    show ?thesis
      using scriptCache_miss[OF t m] updateCache_fetch_fault[OF t f'] tmpl_unregistered[OF u]
      by (simp add: Let_def)
  qed
  have 4: "readThrough (scriptCache E b script handle)
            (''./'' @ f @ ''/'' @ handle @ ''/'' @ md5 E script) (mapExternalSources b body) w"
    if u: "\<not> validSource b handle" and en: "cacheFolder b = Some f" "f \<noteq> []" "\<not> isAbsolute f"
      and m: "isl (fst (readTextFile (''./'' @ f @ ''/'' @ handle @ ''/'' @ md5 E script) w))"
      and f: "fetch E (''undefined'' @ script) = Inr body"
      and ok: "fst (updateCache E b script handle (''./'' @ f @ ''/'' @ handle @ ''/'' @ md5 E script)
                  (logEvent (FsRead (''./'' @ f @ ''/'' @ handle @ ''/'' @ md5 E script)) w)) = Inr ()"
  proof -
    have f': "fetch E (tmpl (mapGet (cacheMap b) handle) @ script) = Inr body"
      using f tmpl_unregistered[OF u] by simp
    show ?thesis using en m f' ok by (rule scriptCache_readThrough)
  qed
  show ?thesis
    using 3 4 validSource_newBCC[of settings handle] validSource_addCacheSource[of h source b handle]
    by (simp add: scriptCache_def)
qed

theorem unregistered_handle_amended_witness:
  "\<not> validSource (newBCC exAllSettings) ''nope''
   \<and> validSource (addCacheSource ''lib'' ''https://cdn.example/lib/'' (newBCC exAllSettings)) ''nope''
       = (''nope'' = ''lib'' \<or> validSource (newBCC exAllSettings) ''nope'')
   \<and> (\<not> validSource exAll ''nope'' \<and> truthy (cacheFolder exAll)
        \<and> isl (fst (readTextFile (''./'' @ tmpl (cacheFolder exAll) @ ''/'' @ ''nope'' @ ''/''
                                     @ md5 exEnv ''utils.js'') exWorld))
        \<and> fetch exEnv (''undefined'' @ ''utils.js'') = Inl (Thrown ''TypeError''))
   \<and> scriptCache exEnv exAll ''utils.js'' ''nope'' exWorld
       = (Inl (Thrown ''TypeError''),
          logEvent (NetFetch (''undefined'' @ ''utils.js''))
            (logEvent (FsRead (''./'' @ tmpl (cacheFolder exAll) @ ''/'' @ ''nope'' @ ''/''
                                 @ md5 exEnv ''utils.js'')) exWorld))
   \<and> (\<not> validSource exAll ''nope'' \<and> cacheFolder exAll = Some ''cache'' \<and> ''cache'' \<noteq> []
        \<and> \<not> isAbsolute ''cache''
        \<and> isl (fst (readTextFile (''./'' @ ''cache'' @ ''/'' @ ''nope'' @ ''/'' @ md5 exOpenNet ''utils.js'')
                      exWorld))
        \<and> fetch exOpenNet (''undefined'' @ ''utils.js'') = Inr ''/* undefinedutils.js */''
        \<and> fst (updateCache exOpenNet exAll ''utils.js'' ''nope''
                  (''./'' @ ''cache'' @ ''/'' @ ''nope'' @ ''/'' @ md5 exOpenNet ''utils.js'')
                  (logEvent (FsRead (''./'' @ ''cache'' @ ''/'' @ ''nope'' @ ''/''
                                       @ md5 exOpenNet ''utils.js'')) exWorld)) = Inr ())
   \<and> readThrough (scriptCache exOpenNet exAll ''utils.js'' ''nope'')
        (''./'' @ ''cache'' @ ''/'' @ ''nope'' @ ''/'' @ md5 exOpenNet ''utils.js'')
        (mapExternalSources exAll ''/* undefinedutils.js */'') exWorld
   \<and> \<not> truthy (cacheFolder exCompileOnly)
   \<and> scriptCache exEnv exCompileOnly ''utils.js'' ''nope'' exWorld = (Inr externalDisabled, exWorld)"
  (is "?C1 \<and> ?C2 \<and> ?H3 \<and> ?C3 \<and> ?H4 \<and> ?C4 \<and> ?H5 \<and> ?C5")
proof -
  have h3: ?H3 by code_simp
  have h4: ?H4 by code_simp
  have h5: ?H5 by code_simp
  have c1: ?C1
    using unregistered_handle_amended
            [where settings = exAllSettings and handle = "''nope''", THEN conjunct1] .
  have c2: ?C2
    using unregistered_handle_amended
            [where h = "''lib''" and source = "''https://cdn.example/lib/''"
               and b = "newBCC exAllSettings" and handle = "''nope''",
             THEN conjunct2, THEN conjunct1] .
  have c3: ?C3
    using unregistered_handle_amended
            [where b = exAll and handle = "''nope''" and E = exEnv and script = "''utils.js''"
               and w = exWorld and e = "Thrown ''TypeError''",
             THEN conjunct2, THEN conjunct2, THEN conjunct1, THEN mp, OF h3] .
  have c4: ?C4
    using unregistered_handle_amended
            [where b = exAll and handle = "''nope''" and E = exOpenNet and script = "''utils.js''"
               and w = exWorld and f = "''cache''" and body = "''/* undefinedutils.js */''",
             THEN conjunct2, THEN conjunct2, THEN conjunct2, THEN conjunct1, THEN mp, OF h4] .
  have c5: ?C5
    using unregistered_handle_amended
            [where b = exCompileOnly and handle = "''nope''" and E = exEnv
               and script = "''utils.js''" and w = exWorld,
             THEN conjunct2, THEN conjunct2, THEN conjunct2, THEN conjunct2, THEN mp, OF h5] .
  show ?thesis using c1 c2 h3 c3 h4 c4 h5 c5 by blast
qed

text \<open>
  C4 as stated fails: for the handle \<open>nope\<close>, which is not registered, \<open>scriptCache\<close>
  reads the cache and calls the network, and ends with the fault of the fetch instead of
  a payload; on a network that answers the address, the answer is written to the cache.
\<close>

theorem unregistered_handle_counterexample:
  "\<not> validSource exAll ''nope''
   \<and> fst (scriptCache exEnv exAll ''utils.js'' ''nope'' exWorld) = Inl (Thrown ''TypeError'')
   \<and> trace (snd (scriptCache exEnv exAll ''utils.js'' ''nope'' exWorld))
       = [FsRead ''./cache/nope/md5-utils.js'', NetFetch ''undefinedutils.js'']
   \<and> fst (scriptCache exOpenNet exAll ''utils.js'' ''nope'' exWorld) = Inr ''/* undefinedutils.js */''
   \<and> files (snd (scriptCache exOpenNet exAll ''utils.js'' ''nope'' exWorld))
        (normPath ''cache/nope/md5-utils.js'') = Some ''/* undefinedutils.js */''"
  by code_simp




lemma scriptCache_readThrough_fs:
  assumes en: "cacheFolder b = Some f" "f \<noteq> []" "\<not> isAbsolute f"
    and miss: "isl (fst (readTextFile (''./'' @ f @ ''/'' @ handle @ ''/'' @ md5 E script) w))"
    and fe: "fetch E (tmpl (mapGet (cacheMap b) handle) @ script) = Inr body"
    and ed: "fst (ensureDir (f @ ''/'' @ handle @ ''/'') w) = Inr ()"
    and wr: "writable (snd (ensureDir (f @ ''/'' @ handle @ ''/'') w))
               (f @ ''/'' @ handle @ ''/'' @ md5 E script)"
  shows "readThrough (scriptCache E b script handle)
           (''./'' @ f @ ''/'' @ handle @ ''/'' @ md5 E script) (mapExternalSources b body) w"
proof -
  let ?q = "f @ ''/'' @ handle @ ''/'' @ md5 E script"
  let ?uri = "''./'' @ ?q"
  let ?v = "logEvent (NetFetch (tmpl (mapGet (cacheMap b) handle) @ script)) (logEvent (FsRead ?uri) w)"
  have sv: "sameFs ?v w" by simp
  from ensureDir_then_write[OF ed wr sv, of "mapExternalSources b body"] obtain v2 where
    v2: "(case ensureDir (f @ ''/'' @ handle @ ''/'') ?v of (Inl e, v1) \<Rightarrow> (Inl e, v1)
            | (Inr _, v1) \<Rightarrow> writeTextFile ?q (mapExternalSources b body) v1) = (Inr (), v2)"
    by blast
  have tm: "tmpl (cacheFolder b) = f" and tr: "truthy (cacheFolder b)" using en by simp_all
  have "updateCache E b script handle ?uri (logEvent (FsRead ?uri) w) = (Inr (), v2)"
    using fe v2 tr unfolding updateCache_def Let_def tm by simp
  then have ok: "fst (updateCache E b script handle ?uri (logEvent (FsRead ?uri) w)) = Inr ()"
    by simp
  show ?thesis using en miss fe ok by (rule scriptCache_readThrough)
qed

section \<open>C1: read-through idempotence of the caches\<close>

text \<open>
  C1, as the code has it. The first request for a script that is not cached calls the
  generator (or the network) once, leaves the artifact readable at the planned path and
  returns it; the second request returns the same content without a further call. This
  holds for \<open>cachedBundle\<close> on an identifier that ends in \<open>.js\<close>, for \<open>scriptCache\<close>
  with a relative cache folder, and for \<open>cachedCompile\<close> of \<open>app\<close>, under these
  conditions on the world before the request: the working directory is available (for
  the two that ask for it), the bundler, the compiler or the network answers without a
  fault and without diagnostics, the output folder exists or can be created, and the
  planned path can be written once that folder exists.
\<close>

theorem read_through_amended:
  "(cwd E = Inr wd \<and> bundleFolder b = Some f \<and> f \<noteq> []
      \<and> isl (fst (readTextFile (''./'' @ f @ ''/'' @ s @ ''.js'') w))
      \<and> denoBundle E (files w) (''./'' @ tsSource b @ ''/'' @ s) = Inr (None, emit)
      \<and> fst (ensureDir f w) = Inr ()
      \<and> writable (snd (ensureDir f w)) (''./'' @ f @ ''/'' @ s @ ''.js'')
    \<longrightarrow> readThrough (cachedBundle E b (s @ ''.js'')) (''./'' @ f @ ''/'' @ s @ ''.js'')
          (mapExternalSources b emit) w)
   \<and> (cacheFolder b = Some f \<and> f \<noteq> [] \<and> \<not> isAbsolute f
      \<and> mapGet (cacheMap b) handle = Some base
      \<and> isl (fst (readTextFile (''./'' @ f @ ''/'' @ handle @ ''/'' @ md5 E script) w))
      \<and> fetch E (base @ script) = Inr body
      \<and> fst (ensureDir (f @ ''/'' @ handle @ ''/'') w) = Inr ()
      \<and> writable (snd (ensureDir (f @ ''/'' @ handle @ ''/'') w))
            (f @ ''/'' @ handle @ ''/'' @ md5 E script)
    \<longrightarrow> readThrough (scriptCache E b script handle)
          (''./'' @ f @ ''/'' @ handle @ ''/'' @ md5 E script) (mapExternalSources b body) w)
   \<and> (cwd E = Inr wd \<and> compiledFolder b = Some f \<and> f \<noteq> []
      \<and> isl (fst (readTextFile (''./'' @ f @ ''/'' @ ''app'') w))
      \<and> denoCompile E (files w) (''./'' @ tsSource b @ ''/'' @ ''app'') = Inr (None, em)
      \<and> em \<noteq> []
      \<and> fst (ensureDir f w) = Inr ()
      \<and> writable (snd (ensureDir f w)) (''./'' @ f @ ''/'' @ ''app'')
    \<longrightarrow> readThrough (cachedCompile E b ''app'') (''./'' @ f @ ''/'' @ ''app'')
          (mapExternalSources b (snd (last em))) w)"
proof -
  have ns: "stripJs ''app'' = ''app''" by (simp add: stripJs_def)
  show ?thesis
    using bundle_readThrough[of E wd b f s w emit]
          scriptCache_readThrough_fs[of b f handle E script w body]
          compile_readThrough[of E wd b f "''app''" w em, OF _ _ _ ns]
    by auto
qed

theorem read_through_amended_witness:
  "(cwd exEnv = Inr ''/srv'' \<and> bundleFolder exAll = Some ''bundle'' \<and> ''bundle'' \<noteq> []
      \<and> isl (fst (readTextFile (''./'' @ ''bundle'' @ ''/'' @ ''app'' @ ''.js'') exWorld))
      \<and> denoBundle exEnv (files exWorld) (''./'' @ tsSource exAll @ ''/'' @ ''app'')
           = Inr (None, ''/*bundle*/let x = 1'')
      \<and> fst (ensureDir ''bundle'' exWorld) = Inr ()
      \<and> writable (snd (ensureDir ''bundle'' exWorld)) (''./'' @ ''bundle'' @ ''/'' @ ''app'' @ ''.js''))
   \<and> readThrough (cachedBundle exEnv exAll ''app.js'') ''./bundle/app.js''
        ''/*bundle*/let x = 1'' exWorld
   \<and> (cacheFolder exAll = Some ''cache'' \<and> ''cache'' \<noteq> [] \<and> \<not> isAbsolute ''cache''
      \<and> mapGet (cacheMap exAll) ''lib'' = Some ''https://cdn.example/lib/''
      \<and> isl (fst (readTextFile (''./'' @ ''cache'' @ ''/'' @ ''lib'' @ ''/'' @ md5 exEnv ''utils.js'')
                    exWorld))
      \<and> fetch exEnv (''https://cdn.example/lib/'' @ ''utils.js'') = Inr ''export {}''
      \<and> fst (ensureDir (''cache'' @ ''/'' @ ''lib'' @ ''/'') exWorld) = Inr ()
      \<and> writable (snd (ensureDir (''cache'' @ ''/'' @ ''lib'' @ ''/'') exWorld))
            (''cache'' @ ''/'' @ ''lib'' @ ''/'' @ md5 exEnv ''utils.js''))
   \<and> readThrough (scriptCache exEnv exAll ''utils.js'' ''lib'') ''./cache/lib/md5-utils.js''
        ''export {}'' exWorld
   \<and> (cwd exEnv = Inr ''/srv'' \<and> compiledFolder exCompileOnly = Some ''compiled''
      \<and> ''compiled'' \<noteq> []
      \<and> isl (fst (readTextFile (''./'' @ ''compiled'' @ ''/'' @ ''app'') exWorld))
      \<and> denoCompile exEnv (files exWorld) (''./'' @ tsSource exCompileOnly @ ''/'' @ ''app'')
           = Inr (None, [(''./src/app'', ''/*js*/let x = 1'')])
      \<and> [(''./src/app'', ''/*js*/let x = 1'')] \<noteq> []
      \<and> fst (ensureDir ''compiled'' exWorld) = Inr ()
      \<and> writable (snd (ensureDir ''compiled'' exWorld)) (''./'' @ ''compiled'' @ ''/'' @ ''app''))
   \<and> readThrough (cachedCompile exEnv exCompileOnly ''app'') ''./compiled/app''
        ''/*js*/let x = 1'' exWorld"
  (is "?H1 \<and> ?C1 \<and> ?H2 \<and> ?C2 \<and> ?H3 \<and> ?C3")
proof -
  have h1: ?H1 by code_simp
  have h2: ?H2 by code_simp
  have h3: ?H3 by code_simp
  have e: "mapExternalSources exCompileOnly ''/*js*/let x = 1'' = ''/*js*/let x = 1''"
    "mapExternalSources exAll ''/*bundle*/let x = 1'' = ''/*bundle*/let x = 1''"
    "mapExternalSources exAll ''export {}'' = ''export {}''"
    "md5 exEnv ''utils.js'' = ''md5-utils.js''"
    by code_simp+
  have c1: ?C1
    using read_through_amended
            [where b = exAll and f = "''bundle''" and s = "''app''" and w = exWorld
               and E = exEnv and emit = "''/*bundle*/let x = 1''" and wd = "''/srv''",
             THEN conjunct1, THEN mp, OF h1]
    by (simp add: e)
  have c2: ?C2
    using read_through_amended
            [where b = exAll and f = "''cache''" and script = "''utils.js''" and w = exWorld
               and E = exEnv and handle = "''lib''" and base = "''https://cdn.example/lib/''"
               and body = "''export {}''",
             THEN conjunct2, THEN conjunct1, THEN mp, OF h2]
    by (simp add: e)
  have c3: ?C3
    using read_through_amended
            [where b = exCompileOnly and f = "''compiled''" and w = exWorld
               and E = exEnv and em = "[(''./src/app'', ''/*js*/let x = 1'')]" and wd = "''/srv''",
             THEN conjunct2, THEN conjunct2, THEN mp, OF h3]
    by (simp add: e)
  show ?thesis using h1 h2 h3 c1 c2 c3 by blast
qed

text \<open>
  C1 as stated fails for bundle: with the bundle kind enabled and the source \<open>src/app\<close>
  present, the request for \<open>app\<close> writes \<open>./bundle/app.js\<close> and reads \<open>./bundle/app\<close>, so
  it returns the not-found payload and the second request calls the bundler again.
\<close>

theorem read_through_counterexample:
  "truthy (bundleFolder exAll)
   \<and> fst (valid exEnv exAll (Some ''app'') exWorld) = Inr True
   \<and> fst (cachedBundle exEnv exAll ''app'' exWorld) = Inr (failedToFind ''cachedBundle'' ''app'')
   \<and> files (snd (cachedBundle exEnv exAll ''app'' exWorld)) (normPath ''./bundle/app'') = None
   \<and> files (snd (cachedBundle exEnv exAll ''app'' exWorld)) (normPath ''./bundle/app.js'')
        = Some ''/*bundle*/let x = 1''
   \<and> genCalls (snd (cachedBundle exEnv exAll ''app'' exWorld)) = 1
   \<and> genCalls (snd (cachedBundle exEnv exAll ''app''
                       (snd (cachedBundle exEnv exAll ''app'' exWorld)))) = 2"
  by code_simp

section \<open>C2: a kind that is not configured\<close>

text \<open>
  C2, as the code has it. A cached operation of a kind builds the planned paths first,
  and for them asks for the working directory, whether the kind is configured or not.
  When the folder of the kind is not set (absent, or the empty string) and the working
  directory is available, the operation returns the payload that names it as disabled,
  and the world is as it was but for that one query: no file was read or written, no
  generator ran and nothing was fetched. When the working directory is not available,
  the fault of the query is the outcome, and no payload is returned. \<open>scriptCache\<close>
  builds no paths: with the cache folder not set it returns the payload of the disabled
  external cache and leaves the world as it was.
\<close>

theorem disabled_kind_amended:
  \<open>(cwd E = Inr wd \<and> \<not> truthy (bundleFolder b) \<longrightarrow>
      cachedBundle E b script w
        = (Inr ''throw new Error("cachedBundle is disabled in the BCC configuration.")'',
           logEvent FsCwd w))
   \<and> (cwd E = Inr wd \<and> \<not> truthy (compiledFolder b) \<longrightarrow>
      cachedCompile E b script w
        = (Inr ''throw new Error("cachedCompile is disabled in the BCC configuration.")'',
           logEvent FsCwd w))
   \<and> (cwd E = Inr wd \<and> \<not> truthy (transpileFolder b) \<longrightarrow>
      cachedTranspile E b script w
        = (Inr ''throw new Error("cachedTranspile is disabled in the BCC configuration.")'',
           logEvent FsCwd w))
   \<and> (cwd E = Inl e \<longrightarrow>
      cachedBundle E b script w = (Inl e, logEvent FsCwd w)
      \<and> cachedCompile E b script w = (Inl e, logEvent FsCwd w)
      \<and> cachedTranspile E b script w = (Inl e, logEvent FsCwd w))
   \<and> (\<not> truthy (cacheFolder b) \<longrightarrow>
      scriptCache E b script handle w
        = (Inr ''throw new Error("External cache disabled.")'', w))\<close>
  by (simp add: cachedBundle_cwd cachedCompile_cwd cachedTranspile_cwd scriptCache_def
      cacheOrGen_disabled isDisabled_def externalDisabled_def quote_def)

theorem disabled_kind_amended_witness:
  \<open>(cwd exEnv = Inr ''/srv'' \<and> \<not> truthy (bundleFolder exCompileOnly))
   \<and> cachedBundle exEnv exCompileOnly ''app'' exWorld
       = (Inr ''throw new Error("cachedBundle is disabled in the BCC configuration.")'',
          logEvent FsCwd exWorld)
   \<and> (cwd exEnv = Inr ''/srv'' \<and> \<not> truthy (compiledFolder (exCompileOnly\<lparr>compiledFolder := Some []\<rparr>)))
   \<and> cachedCompile exEnv (exCompileOnly\<lparr>compiledFolder := Some []\<rparr>) ''app'' exWorld
       = (Inr ''throw new Error("cachedCompile is disabled in the BCC configuration.")'',
          logEvent FsCwd exWorld)
   \<and> (cwd exEnv = Inr ''/srv'' \<and> \<not> truthy (transpileFolder exCompileOnly))
   \<and> cachedTranspile exEnv exCompileOnly ''app'' exWorld
       = (Inr ''throw new Error("cachedTranspile is disabled in the BCC configuration.")'',
          logEvent FsCwd exWorld)
   \<and> cwd exNoCwd = Inl (Thrown ''NotFound'')
   \<and> (cachedBundle exNoCwd exCompileOnly ''app'' exWorld
         = (Inl (Thrown ''NotFound''), logEvent FsCwd exWorld)
      \<and> cachedCompile exNoCwd exCompileOnly ''app'' exWorld
         = (Inl (Thrown ''NotFound''), logEvent FsCwd exWorld)
      \<and> cachedTranspile exNoCwd exCompileOnly ''app'' exWorld
         = (Inl (Thrown ''NotFound''), logEvent FsCwd exWorld))
   \<and> \<not> truthy (cacheFolder exCompileOnly)
   \<and> scriptCache exEnv exCompileOnly ''utils.js'' ''lib'' exWorld
       = (Inr ''throw new Error("External cache disabled.")'', exWorld)\<close>
  (is "?H1 \<and> ?C1 \<and> ?H2 \<and> ?C2 \<and> ?H3 \<and> ?C3 \<and> ?H4 \<and> ?C4 \<and> ?H5 \<and> ?C5")
proof -
  have h1: ?H1 by code_simp
  have h2: ?H2 by code_simp
  have h3: ?H3 by code_simp
  have h4: ?H4 by code_simp
  have h5: ?H5 by code_simp
  have c1: ?C1
    using disabled_kind_amended
            [where E = exEnv and wd = "''/srv''" and b = exCompileOnly and script = "''app''"
               and w = exWorld,
             THEN conjunct1, THEN mp, OF h1] .
  have c2: ?C2
    using disabled_kind_amended
            [where E = exEnv and wd = "''/srv''" and b = "exCompileOnly\<lparr>compiledFolder := Some []\<rparr>"
               and script = "''app''" and w = exWorld,
             THEN conjunct2, THEN conjunct1, THEN mp, OF h2] .
  have c3: ?C3
    using disabled_kind_amended
            [where E = exEnv and wd = "''/srv''" and b = exCompileOnly and script = "''app''"
               and w = exWorld,
             THEN conjunct2, THEN conjunct2, THEN conjunct1, THEN mp, OF h3] .
  have c4: ?C4
    using disabled_kind_amended
            [where E = exNoCwd and e = "Thrown ''NotFound''" and b = exCompileOnly
               and script = "''app''" and w = exWorld,
             THEN conjunct2, THEN conjunct2, THEN conjunct2, THEN conjunct1, THEN mp, OF h4] .
  have c5: ?C5
    using disabled_kind_amended
            [where E = exEnv and b = exCompileOnly and script = "''utils.js''"
               and handle = "''lib''" and w = exWorld,
             THEN conjunct2, THEN conjunct2, THEN conjunct2, THEN conjunct2, THEN mp, OF h5] .
  show ?thesis using h1 c1 h2 c2 h3 c3 h4 c4 h5 c5 by blast
qed

text \<open>
  C2 as stated fails for the cached operations of a kind. With the bundle folder not set
  and the working directory not available, \<open>cachedBundle\<close> ends with the fault of
  \<open>Deno.cwd\<close> and returns no payload; and where the working directory is available,
  the operation has asked the system for it before it returns the payload.
\<close>

theorem disabled_kind_counterexample:
  "\<not> truthy (bundleFolder exCompileOnly)
   \<and> fst (cachedBundle exNoCwd exCompileOnly ''app'' exWorld) = Inl (Thrown ''NotFound'')
   \<and> trace (snd (cachedBundle exNoCwd exCompileOnly ''app'' exWorld)) = [FsCwd]
   \<and> trace (snd (cachedBundle exEnv exCompileOnly ''app'' exWorld)) = [FsCwd]"
  by code_simp

section \<open>C6: a fault of the generator\<close>

lemma compile_diagnostics:
  "cwd E = Inr wd \<Longrightarrow> truthy (compiledFolder b) \<Longrightarrow>
   denoCompile E (files w) (''./'' @ tsSource b @ ''/'' @ s) = Inr (Some d, em) \<Longrightarrow>
   compile E b s w = (Inl (AssertionError (''Compile Error: '' @ d)),
                      logEvent (GenCompile (''./'' @ tsSource b @ ''/'' @ s)) (logEvent FsCwd w))"
  by (simp add: compile_cwd)

lemma bundle_diagnostics:
  "cwd E = Inr wd \<Longrightarrow> truthy (bundleFolder b) \<Longrightarrow>
   denoBundle E (files w) (''./'' @ tsSource b @ ''/'' @ s) = Inr (Some d, emit) \<Longrightarrow>
   bundleGen E b s w = (Inl (AssertionError (''Compile Error: '' @ d)),
                        logEvent (GenBundle (''./'' @ tsSource b @ ''/'' @ s)) (logEvent FsCwd w))"
  by (simp add: bundleGen_cwd)

lemma generator_cwd_fault:
  "cwd E = Inl e \<Longrightarrow> compile E b s w = (Inl e, logEvent FsCwd w)"
  "cwd E = Inl e \<Longrightarrow> bundleGen E b s w = (Inl e, logEvent FsCwd w)"
  "cwd E = Inl e \<Longrightarrow> transpile E b s w = (Inl e, logEvent FsCwd w)"
  by (simp_all add: compile_def bundleGen_def transpile_def generatedPaths_cwd)

text \<open>
  C6. With the kind enabled and the artifact not cached, a fault of the generator is the
  outcome of the cached operation: \<open>cachedCompile\<close>, \<open>cachedBundle\<close> and
  \<open>cachedTranspile\<close> end with the generator's fault, in the world the generator left,
  and return no payload. Diagnostics of the compiler or the bundler are such a fault: the
  assertion of \<open>compile\<close> and of \<open>bundle\<close> fails with them. The generator runs behind
  the query of the working directory and the read of the planned path; where that query
  faults, its fault is the outcome of the generators and of the cached operations alike.
\<close>

theorem generator_fault_propagates:
  "(cwd E = Inr wd \<and> truthy (compiledFolder b)
      \<and> isl (fst (readTextFile (''./'' @ tmpl (compiledFolder b) @ ''/'' @ script) w))
      \<and> fst (compile E b (stripJs script)
               (logEvent (FsRead (''./'' @ tmpl (compiledFolder b) @ ''/'' @ script))
                  (logEvent FsCwd w))) = Inl e
    \<longrightarrow> cachedCompile E b script w
          = (Inl e, snd (compile E b (stripJs script)
                (logEvent (FsRead (''./'' @ tmpl (compiledFolder b) @ ''/'' @ script))
                   (logEvent FsCwd w)))))
   \<and> (cwd E = Inr wd \<and> truthy (bundleFolder b)
      \<and> isl (fst (readTextFile (''./'' @ tmpl (bundleFolder b) @ ''/'' @ script) w))
      \<and> fst (bundleGen E b (stripJs script)
               (logEvent (FsRead (''./'' @ tmpl (bundleFolder b) @ ''/'' @ script))
                  (logEvent FsCwd w))) = Inl e
    \<longrightarrow> cachedBundle E b script w
          = (Inl e, snd (bundleGen E b (stripJs script)
                (logEvent (FsRead (''./'' @ tmpl (bundleFolder b) @ ''/'' @ script))
                   (logEvent FsCwd w)))))
   \<and> (cwd E = Inr wd \<and> truthy (transpileFolder b)
      \<and> isl (fst (readTextFile (''./'' @ tmpl (transpileFolder b) @ ''/'' @ script) w))
      \<and> fst (transpile E b (stripJs script)
               (logEvent (FsRead (''./'' @ tmpl (transpileFolder b) @ ''/'' @ script))
                  (logEvent FsCwd w))) = Inl e
    \<longrightarrow> cachedTranspile E b script w
          = (Inl e, snd (transpile E b (stripJs script)
                (logEvent (FsRead (''./'' @ tmpl (transpileFolder b) @ ''/'' @ script))
                   (logEvent FsCwd w)))))
   \<and> (cwd E = Inr wd \<and> truthy (compiledFolder b)
      \<and> denoCompile E (files w) (''./'' @ tsSource b @ ''/'' @ s) = Inr (Some d, em)
    \<longrightarrow> fst (compile E b s w) = Inl (AssertionError (''Compile Error: '' @ d)))
   \<and> (cwd E = Inr wd \<and> truthy (bundleFolder b)
      \<and> denoBundle E (files w) (''./'' @ tsSource b @ ''/'' @ s) = Inr (Some d, emit)
    \<longrightarrow> fst (bundleGen E b s w) = Inl (AssertionError (''Compile Error: '' @ d)))
   \<and> (cwd E = Inl e
    \<longrightarrow> fst (compile E b s w) = Inl e \<and> fst (bundleGen E b s w) = Inl e
        \<and> fst (transpile E b s w) = Inl e
        \<and> cachedCompile E b script w = (Inl e, logEvent FsCwd w)
        \<and> cachedBundle E b script w = (Inl e, logEvent FsCwd w)
        \<and> cachedTranspile E b script w = (Inl e, logEvent FsCwd w))"
proof -
  have m: "isl (fst (readTextFile p (logEvent FsCwd w)))" if "isl (fst (readTextFile p w))" for p
    using that readTextFile_sameFs[of "logEvent FsCwd w" w p] by simp
  have 1: "cwd E = Inr wd \<Longrightarrow> truthy (compiledFolder b) \<Longrightarrow>
      isl (fst (readTextFile (''./'' @ tmpl (compiledFolder b) @ ''/'' @ script) w)) \<Longrightarrow>
      fst (compile E b (stripJs script)
             (logEvent (FsRead (''./'' @ tmpl (compiledFolder b) @ ''/'' @ script))
                (logEvent FsCwd w))) = Inl e
      \<Longrightarrow> cachedCompile E b script w
          = (Inl e, snd (compile E b (stripJs script)
                (logEvent (FsRead (''./'' @ tmpl (compiledFolder b) @ ''/'' @ script))
                   (logEvent FsCwd w))))"
    using cacheOrGen_fault[of "Some (''./'' @ tmpl (compiledFolder b) @ ''/'' @ script)"
        "logEvent FsCwd w" "compile E b" script e "''cachedCompile''"]
      m[of "''./'' @ tmpl (compiledFolder b) @ ''/'' @ script"]
    by (simp add: cachedCompile_cwd)
  have 2: "cwd E = Inr wd \<Longrightarrow> truthy (bundleFolder b) \<Longrightarrow>
      isl (fst (readTextFile (''./'' @ tmpl (bundleFolder b) @ ''/'' @ script) w)) \<Longrightarrow>
      fst (bundleGen E b (stripJs script)
             (logEvent (FsRead (''./'' @ tmpl (bundleFolder b) @ ''/'' @ script))
                (logEvent FsCwd w))) = Inl e
      \<Longrightarrow> cachedBundle E b script w
          = (Inl e, snd (bundleGen E b (stripJs script)
                (logEvent (FsRead (''./'' @ tmpl (bundleFolder b) @ ''/'' @ script))
                   (logEvent FsCwd w))))"
    using cacheOrGen_fault[of "Some (''./'' @ tmpl (bundleFolder b) @ ''/'' @ script)"
        "logEvent FsCwd w" "bundleGen E b" script e "''cachedBundle''"]
      m[of "''./'' @ tmpl (bundleFolder b) @ ''/'' @ script"]
    by (simp add: cachedBundle_cwd)
  have 3: "cwd E = Inr wd \<Longrightarrow> truthy (transpileFolder b) \<Longrightarrow>
      isl (fst (readTextFile (''./'' @ tmpl (transpileFolder b) @ ''/'' @ script) w)) \<Longrightarrow>
      fst (transpile E b (stripJs script)
             (logEvent (FsRead (''./'' @ tmpl (transpileFolder b) @ ''/'' @ script))
                (logEvent FsCwd w))) = Inl e
      \<Longrightarrow> cachedTranspile E b script w
          = (Inl e, snd (transpile E b (stripJs script)
                (logEvent (FsRead (''./'' @ tmpl (transpileFolder b) @ ''/'' @ script))
                   (logEvent FsCwd w))))"
    using cacheOrGen_fault[of "Some (''./'' @ tmpl (transpileFolder b) @ ''/'' @ script)"
        "logEvent FsCwd w" "transpile E b" script e "''cachedTranspile''"]
      m[of "''./'' @ tmpl (transpileFolder b) @ ''/'' @ script"]
    by (simp add: cachedTranspile_cwd)
  have 6: "cwd E = Inl e
    \<Longrightarrow> fst (compile E b s w) = Inl e \<and> fst (bundleGen E b s w) = Inl e
        \<and> fst (transpile E b s w) = Inl e
        \<and> cachedCompile E b script w = (Inl e, logEvent FsCwd w)
        \<and> cachedBundle E b script w = (Inl e, logEvent FsCwd w)
        \<and> cachedTranspile E b script w = (Inl e, logEvent FsCwd w)"
    by (simp add: generator_cwd_fault cachedCompile_cwd cachedBundle_cwd cachedTranspile_cwd)
  show ?thesis
    using 1 2 3 6 compile_diagnostics[of E wd b w s d em] bundle_diagnostics[of E wd b w s d emit]
    by simp
qed

theorem generator_fault_propagates_witness:
  "(cwd exEnv = Inr ''/srv'' \<and> truthy (compiledFolder exAll)
      \<and> isl (fst (readTextFile (''./'' @ tmpl (compiledFolder exAll) @ ''/'' @ ''bad'') exWorld))
      \<and> fst (compile exEnv exAll (stripJs ''bad'')
               (logEvent (FsRead (''./'' @ tmpl (compiledFolder exAll) @ ''/'' @ ''bad''))
                  (logEvent FsCwd exWorld)))
           = Inl (AssertionError ''Compile Error: [1109]''))
   \<and> cachedCompile exEnv exAll ''bad'' exWorld
       = (Inl (AssertionError ''Compile Error: [1109]''),
          snd (compile exEnv exAll (stripJs ''bad'')
                 (logEvent (FsRead (''./'' @ tmpl (compiledFolder exAll) @ ''/'' @ ''bad''))
                    (logEvent FsCwd exWorld))))
   \<and> (cwd exEnv = Inr ''/srv'' \<and> truthy (bundleFolder exAll)
      \<and> isl (fst (readTextFile (''./'' @ tmpl (bundleFolder exAll) @ ''/'' @ ''bad'') exWorld))
      \<and> fst (bundleGen exEnv exAll (stripJs ''bad'')
               (logEvent (FsRead (''./'' @ tmpl (bundleFolder exAll) @ ''/'' @ ''bad''))
                  (logEvent FsCwd exWorld)))
           = Inl (AssertionError ''Compile Error: [1109]''))
   \<and> cachedBundle exEnv exAll ''bad'' exWorld
       = (Inl (AssertionError ''Compile Error: [1109]''),
          snd (bundleGen exEnv exAll (stripJs ''bad'')
                 (logEvent (FsRead (''./'' @ tmpl (bundleFolder exAll) @ ''/'' @ ''bad''))
                    (logEvent FsCwd exWorld))))
   \<and> (cwd exEnv = Inr ''/srv'' \<and> truthy (transpileFolder exAll)
      \<and> isl (fst (readTextFile (''./'' @ tmpl (transpileFolder exAll) @ ''/'' @ ''bad'') exWorld))
      \<and> fst (transpile exEnv exAll (stripJs ''bad'')
               (logEvent (FsRead (''./'' @ tmpl (transpileFolder exAll) @ ''/'' @ ''bad''))
                  (logEvent FsCwd exWorld)))
           = Inl (Thrown ''SyntaxError''))
   \<and> cachedTranspile exEnv exAll ''bad'' exWorld
       = (Inl (Thrown ''SyntaxError''),
          snd (transpile exEnv exAll (stripJs ''bad'')
                 (logEvent (FsRead (''./'' @ tmpl (transpileFolder exAll) @ ''/'' @ ''bad''))
                    (logEvent FsCwd exWorld))))
   \<and> (cwd exEnv = Inr ''/srv'' \<and> truthy (compiledFolder exAll)
      \<and> denoCompile exEnv (files exWorld) (''./'' @ tsSource exAll @ ''/'' @ ''bad'')
           = Inr (Some ''[1109]'', [(''./src/bad'', ''/*js*/let x ='')]))
   \<and> fst (compile exEnv exAll ''bad'' exWorld) = Inl (AssertionError (''Compile Error: '' @ ''[1109]''))
   \<and> (cwd exEnv = Inr ''/srv'' \<and> truthy (bundleFolder exAll)
      \<and> denoBundle exEnv (files exWorld) (''./'' @ tsSource exAll @ ''/'' @ ''bad'')
           = Inr (Some ''[1109]'', ''/*bundle*/let x =''))
   \<and> fst (bundleGen exEnv exAll ''bad'' exWorld) = Inl (AssertionError (''Compile Error: '' @ ''[1109]''))
   \<and> cwd exNoCwd = Inl (Thrown ''NotFound'')
   \<and> (fst (compile exNoCwd exAll ''bad'' exWorld) = Inl (Thrown ''NotFound'')
        \<and> fst (bundleGen exNoCwd exAll ''bad'' exWorld) = Inl (Thrown ''NotFound'')
        \<and> fst (transpile exNoCwd exAll ''bad'' exWorld) = Inl (Thrown ''NotFound'')
        \<and> cachedCompile exNoCwd exAll ''bad'' exWorld = (Inl (Thrown ''NotFound''), logEvent FsCwd exWorld)
        \<and> cachedBundle exNoCwd exAll ''bad'' exWorld = (Inl (Thrown ''NotFound''), logEvent FsCwd exWorld)
        \<and> cachedTranspile exNoCwd exAll ''bad'' exWorld
            = (Inl (Thrown ''NotFound''), logEvent FsCwd exWorld))"
  (is "?H1 \<and> ?C1 \<and> ?H2 \<and> ?C2 \<and> ?H3 \<and> ?C3 \<and> ?H4 \<and> ?C4 \<and> ?H5 \<and> ?C5 \<and> ?H6 \<and> ?C6")
proof -
  have h1: ?H1 by code_simp
  have h2: ?H2 by code_simp
  have h3: ?H3 by code_simp
  have h4: ?H4 by code_simp
  have h5: ?H5 by code_simp
  have h6: ?H6 by code_simp
  note t = generator_fault_propagates
             [where b = exAll and E = exEnv and script = "''bad''" and w = exWorld and s = "''bad''"
                and d = "''[1109]''" and em = "[(''./src/bad'', ''/*js*/let x ='')]"
                and emit = "''/*bundle*/let x =''" and wd = "''/srv''"]
  have c1: ?C1
    using t[where e = "AssertionError ''Compile Error: [1109]''", THEN conjunct1, THEN mp, OF h1] .
  have c2: ?C2
    using t[where e = "AssertionError ''Compile Error: [1109]''",
            THEN conjunct2, THEN conjunct1, THEN mp, OF h2] .
  have c3: ?C3
    using t[where e = "Thrown ''SyntaxError''",
            THEN conjunct2, THEN conjunct2, THEN conjunct1, THEN mp, OF h3] .
  have c4: ?C4
    using t[THEN conjunct2, THEN conjunct2, THEN conjunct2, THEN conjunct1, THEN mp, OF h4] .
  have c5: ?C5
    using t[THEN conjunct2, THEN conjunct2, THEN conjunct2, THEN conjunct2, THEN conjunct1,
            THEN mp, OF h5] .
  have c6: ?C6
    using generator_fault_propagates
            [where b = exAll and E = exNoCwd and script = "''bad''" and w = exWorld and s = "''bad''"
               and e = "Thrown ''NotFound''",
             THEN conjunct2, THEN conjunct2, THEN conjunct2, THEN conjunct2, THEN conjunct2,
             THEN mp, OF h6] .
  show ?thesis using h1 h2 h3 h4 h5 h6 c1 c2 c3 c4 c5 c6 by blast
qed

section \<open>C7: the extension of the script identifier\<close>

lemma compileLoop_trace: "\<exists>rest. trace (snd (compileLoop b dir folder em w)) = trace w @ rest"
proof (induction em arbitrary: w)
  case Nil
  then show ?case by simp
next
  case (Cons x em)
  obtain resource code where x: "x = (resource, code)" by (cases x)
  obtain r1 w1 where e: "ensureDir folder w = (r1, w1)" by (cases "ensureDir folder w")
  have t1: "trace w1 = trace w @ [FsEnsureDir folder]" using trace_ensureDir[of folder w] e by simp
  obtain r2 w2 where wr: "writeTextFile dir (mapExternalSources b code) w1 = (r2, w2)"
    by (cases "writeTextFile dir (mapExternalSources b code) w1")
  have t2: "trace w2 = trace w1 @ [FsWrite dir]"
    using trace_writeTextFile[of dir "mapExternalSources b code" w1] wr by simp
  from Cons.IH[of w2] obtain rest where "trace (snd (compileLoop b dir folder em w2)) = trace w2 @ rest"
    by blast
  then show ?case using x e wr t1 t2 by (cases r1; cases r2) auto
qed

lemma cacheOrGen_miss_trace:
  assumes "truthy cp" "isl (fst (readTextFile (tmpl cp) w))"
    and "trace (snd (gen (stripJs script) (logEvent (FsRead (tmpl cp)) w)))
           = trace (logEvent (FsRead (tmpl cp)) w) @ evs"
  shows "\<exists>rest. trace (snd (cacheOrGen script cp gen fn w)) = trace w @ [FsRead (tmpl cp)] @ evs @ rest"
proof -
  let ?w1 = "logEvent (FsRead (tmpl cp)) w"
  obtain r1 w1 where r: "readTextFile (tmpl cp) w = (r1, w1)" by (cases "readTextFile (tmpl cp) w")
  then have w1: "w1 = ?w1" using snd_readTextFile[of "tmpl cp" w] by simp
  from assms(2) r obtain e0 where r1: "r1 = Inl e0" by (cases r1) auto
  obtain r2 w2 where g: "gen (stripJs script) ?w1 = (r2, w2)" by (cases "gen (stripJs script) ?w1")
  have t2: "trace w2 = trace w @ [FsRead (tmpl cp)] @ evs" using assms(3) g by simp
  obtain r3 w3 where r3: "readTextFile (tmpl cp) w2 = (r3, w3)" by (cases "readTextFile (tmpl cp) w2")
  then have t3: "trace w3 = trace w2 @ [FsRead (tmpl cp)]" using snd_readTextFile[of "tmpl cp" w2] by simp
  show ?thesis using assms(1) r r1 w1 g t2 r3 t3
    by (cases r2; cases r3) (auto simp add: cacheOrGen_def)
qed

lemma bundleGen_trace:
  assumes "cwd E = Inr wd" "truthy (bundleFolder b)"
    and "denoBundle E (files w) (''./'' @ tsSource b @ ''/'' @ s) = Inr (None, emit)"
    and "fst (ensureDir (tmpl (bundleFolder b)) w) = Inr ()"
  shows "trace (snd (bundleGen E b s w))
           = trace w @ [FsCwd, GenBundle (''./'' @ tsSource b @ ''/'' @ s),
                        FsEnsureDir (tmpl (bundleFolder b)),
                        FsWrite (''./'' @ tmpl (bundleFolder b) @ ''/'' @ s @ ''.js'')]"
proof -
  let ?w1 = "logEvent (GenBundle (''./'' @ tsSource b @ ''/'' @ s)) (logEvent FsCwd w)"
  obtain r1 wa where e: "ensureDir (tmpl (bundleFolder b)) ?w1 = (r1, wa)"
    by (cases "ensureDir (tmpl (bundleFolder b)) ?w1")
  have r1: "r1 = Inr ()"
    using assms(4) e ensureDir_sameFs[of ?w1 w "tmpl (bundleFolder b)"] by simp
  have ta: "trace wa = trace ?w1 @ [FsEnsureDir (tmpl (bundleFolder b))]"
    using trace_ensureDir[of "tmpl (bundleFolder b)" ?w1] e by simp
  show ?thesis using assms(3) e r1 ta
    by (simp add: bundleGen_cwd[OF assms(1,2)] trace_writeTextFile)
qed

lemma compile_trace_any:
  assumes "cwd E = Inr wd" "truthy (compiledFolder b)"
  shows "\<exists>rest. trace (snd (compile E b s w))
            = trace w @ [FsCwd, GenCompile (''./'' @ tsSource b @ ''/'' @ s)] @ rest"
proof (cases "denoCompile E (files w) (''./'' @ tsSource b @ ''/'' @ s)")
  case (Inl e)
  then show ?thesis by (simp add: compile_cwd[OF assms])
next
  case (Inr r)
  obtain diagnostics em where r: "r = (diagnostics, em)" by (cases r)
  show ?thesis
  proof (cases diagnostics)
    case None
    let ?w1 = "logEvent (GenCompile (''./'' @ tsSource b @ ''/'' @ s)) (logEvent FsCwd w)"
    obtain rest where
      "trace (snd (compileLoop b (''./'' @ tmpl (compiledFolder b) @ ''/'' @ s) (tmpl (compiledFolder b))
                     em ?w1)) = trace ?w1 @ rest"
      using compileLoop_trace by blast
    then show ?thesis using Inr r None by (simp add: compile_cwd[OF assms])
  next
    case (Some d)
    then show ?thesis using Inr r by (simp add: compile_cwd[OF assms])
  qed
qed

lemma bundleGen_trace_any:
  assumes "cwd E = Inr wd" "truthy (bundleFolder b)"
  shows "\<exists>rest. trace (snd (bundleGen E b s w))
            = trace w @ [FsCwd, GenBundle (''./'' @ tsSource b @ ''/'' @ s)] @ rest"
proof (cases "denoBundle E (files w) (''./'' @ tsSource b @ ''/'' @ s)")
  case (Inl e)
  then show ?thesis by (simp add: bundleGen_cwd[OF assms])
next
  case (Inr r)
  obtain diagnostics emit where r: "r = (diagnostics, emit)" by (cases r)
  show ?thesis
  proof (cases diagnostics)
    case None
    let ?w1 = "logEvent (GenBundle (''./'' @ tsSource b @ ''/'' @ s)) (logEvent FsCwd w)"
    obtain r1 wa where e: "ensureDir (tmpl (bundleFolder b)) ?w1 = (r1, wa)"
      by (cases "ensureDir (tmpl (bundleFolder b)) ?w1")
    have ta: "trace wa = trace ?w1 @ [FsEnsureDir (tmpl (bundleFolder b))]"
      using trace_ensureDir[of "tmpl (bundleFolder b)" ?w1] e by simp
    show ?thesis using Inr r None e ta
      by (cases r1) (simp_all add: bundleGen_cwd[OF assms] trace_writeTextFile)
  next
    case (Some d)
    then show ?thesis using Inr r by (simp add: bundleGen_cwd[OF assms])
  qed
qed

lemma transpile_trace_any:
  assumes "cwd E = Inr wd" "truthy (transpileFolder b)"
  shows "\<exists>rest. trace (snd (transpile E b s w))
            = trace w @ [FsCwd, GenTranspile (''./'' @ tsSource b @ ''/'' @ s)] @ rest"
proof (cases "denoTranspileOnly E [(''main.ts'', ''./'' @ tsSource b @ ''/'' @ s)]")
  case (Inl e)
  then show ?thesis by (simp add: transpile_cwd[OF assms])
next
  case (Inr emit)
  let ?w1 = "logEvent (GenTranspile (''./'' @ tsSource b @ ''/'' @ s)) (logEvent FsCwd w)"
  show ?thesis
  proof (cases "mapExternalSourcesOfValue b (map_of emit ''source'')")
    case (Inl e)
    then show ?thesis using Inr by (simp add: transpile_cwd[OF assms])
  next
    case (Inr code)
    obtain r1 wa where e: "ensureDir (tmpl (transpileFolder b)) ?w1 = (r1, wa)"
      by (cases "ensureDir (tmpl (transpileFolder b)) ?w1")
    have ta: "trace wa = trace ?w1 @ [FsEnsureDir (tmpl (transpileFolder b))]"
      using trace_ensureDir[of "tmpl (transpileFolder b)" ?w1] e by simp
    show ?thesis using \<open>denoTranspileOnly E [(''main.ts'', ''./'' @ tsSource b @ ''/'' @ s)] = Inr emit\<close>
        Inr e ta
      by (cases r1) (simp_all add: transpile_cwd[OF assms] trace_writeTextFile)
  qed
qed

text \<open>The first calls of a cached operation on a miss.\<close>

lemma cached_miss_trace:
  assumes req: "request w = cacheOrGen script (Some p) gen fn (logEvent FsCwd w)"
    and "p \<noteq> []" "isl (fst (readTextFile p w))"
    and "\<exists>rest. trace (snd (gen (stripJs script) (logEvent (FsRead p) (logEvent FsCwd w))))
           = trace (logEvent (FsRead p) (logEvent FsCwd w)) @ evs @ rest"
  shows "\<exists>rest. trace (snd (request w)) = trace w @ [FsCwd, FsRead p] @ evs @ rest"
proof -
  from assms(4) obtain rest1 where
    g: "trace (snd (gen (stripJs script) (logEvent (FsRead (tmpl (Some p))) (logEvent FsCwd w))))
           = trace (logEvent (FsRead (tmpl (Some p))) (logEvent FsCwd w)) @ (evs @ rest1)"
    by auto
  have m: "isl (fst (readTextFile (tmpl (Some p)) (logEvent FsCwd w)))"
    using assms(3) readTextFile_sameFs[of "logEvent FsCwd w" w p] by simp
  have t: "truthy (Some p)" using assms(2) by simp
  note L = cacheOrGen_miss_trace
             [where cp = "Some p" and w = "logEvent FsCwd w" and gen = gen and script = script
                and fn = fn and evs = "evs @ rest1"]
  show ?thesis using L[OF t m g] req by auto
qed

lemma cachedCompile_miss_trace:
  assumes "cwd E = Inr wd" "truthy (compiledFolder b)"
    and "isl (fst (readTextFile (''./'' @ tmpl (compiledFolder b) @ ''/'' @ script) w))"
  shows "\<exists>rest. trace (snd (cachedCompile E b script w))
           = trace w @ [FsCwd, FsRead (''./'' @ tmpl (compiledFolder b) @ ''/'' @ script),
                        FsCwd, GenCompile (''./'' @ tsSource b @ ''/'' @ stripJs script)] @ rest"
proof -
  let ?p = "''./'' @ tmpl (compiledFolder b) @ ''/'' @ script"
  have req: "cachedCompile E b script w
               = cacheOrGen script (Some ?p) (compile E b) ''cachedCompile'' (logEvent FsCwd w)"
    using assms(1,2) by (simp add: cachedCompile_cwd)
  have g: "\<exists>rest. trace (snd (compile E b (stripJs script) (logEvent (FsRead ?p) (logEvent FsCwd w))))
           = trace (logEvent (FsRead ?p) (logEvent FsCwd w))
             @ [FsCwd, GenCompile (''./'' @ tsSource b @ ''/'' @ stripJs script)] @ rest"
    using compile_trace_any[OF assms(1,2)] by blast
  have "?p \<noteq> []" by simp
  from cached_miss_trace[where request = "cachedCompile E b script", OF req this assms(3) g]
  show ?thesis by simp
qed

lemma cachedBundle_miss_trace:
  assumes "cwd E = Inr wd" "truthy (bundleFolder b)"
    and "isl (fst (readTextFile (''./'' @ tmpl (bundleFolder b) @ ''/'' @ script) w))"
  shows "\<exists>rest. trace (snd (cachedBundle E b script w))
           = trace w @ [FsCwd, FsRead (''./'' @ tmpl (bundleFolder b) @ ''/'' @ script),
                        FsCwd, GenBundle (''./'' @ tsSource b @ ''/'' @ stripJs script)] @ rest"
proof -
  let ?p = "''./'' @ tmpl (bundleFolder b) @ ''/'' @ script"
  have req: "cachedBundle E b script w
               = cacheOrGen script (Some ?p) (bundleGen E b) ''cachedBundle'' (logEvent FsCwd w)"
    using assms(1,2) by (simp add: cachedBundle_cwd)
  have g: "\<exists>rest. trace (snd (bundleGen E b (stripJs script) (logEvent (FsRead ?p) (logEvent FsCwd w))))
           = trace (logEvent (FsRead ?p) (logEvent FsCwd w))
             @ [FsCwd, GenBundle (''./'' @ tsSource b @ ''/'' @ stripJs script)] @ rest"
    using bundleGen_trace_any[OF assms(1,2)] by blast
  have "?p \<noteq> []" by simp
  from cached_miss_trace[where request = "cachedBundle E b script", OF req this assms(3) g]
  show ?thesis by simp
qed

lemma cachedTranspile_miss_trace:
  assumes "cwd E = Inr wd" "truthy (transpileFolder b)"
    and "isl (fst (readTextFile (''./'' @ tmpl (transpileFolder b) @ ''/'' @ script) w))"
  shows "\<exists>rest. trace (snd (cachedTranspile E b script w))
           = trace w @ [FsCwd, FsRead (''./'' @ tmpl (transpileFolder b) @ ''/'' @ script),
                        FsCwd, GenTranspile (''./'' @ tsSource b @ ''/'' @ stripJs script)] @ rest"
proof -
  let ?p = "''./'' @ tmpl (transpileFolder b) @ ''/'' @ script"
  have req: "cachedTranspile E b script w
               = cacheOrGen script (Some ?p) (transpile E b) ''cachedTranspile'' (logEvent FsCwd w)"
    using assms(1,2) by (simp add: cachedTranspile_cwd)
  have g: "\<exists>rest. trace (snd (transpile E b (stripJs script) (logEvent (FsRead ?p) (logEvent FsCwd w))))
           = trace (logEvent (FsRead ?p) (logEvent FsCwd w))
             @ [FsCwd, GenTranspile (''./'' @ tsSource b @ ''/'' @ stripJs script)] @ rest"
    using transpile_trace_any[OF assms(1,2)] by blast
  have "?p \<noteq> []" by simp
  from cached_miss_trace[where request = "cachedTranspile E b script", OF req this assms(3) g]
  show ?thesis by simp
qed

lemma cachedBundle_write_trace:
  assumes "cwd E = Inr wd" "truthy (bundleFolder b)"
    and "isl (fst (readTextFile (''./'' @ tmpl (bundleFolder b) @ ''/'' @ script) w))"
    and "denoBundle E (files w) (''./'' @ tsSource b @ ''/'' @ stripJs script) = Inr (None, emit)"
    and "fst (ensureDir (tmpl (bundleFolder b)) w) = Inr ()"
  shows "\<exists>rest. trace (snd (cachedBundle E b script w))
           = trace w @ [FsCwd, FsRead (''./'' @ tmpl (bundleFolder b) @ ''/'' @ script),
                        FsCwd, GenBundle (''./'' @ tsSource b @ ''/'' @ stripJs script),
                        FsEnsureDir (tmpl (bundleFolder b)),
                        FsWrite (''./'' @ tmpl (bundleFolder b) @ ''/'' @ stripJs script @ ''.js'')]
             @ rest"
proof -
  let ?p = "''./'' @ tmpl (bundleFolder b) @ ''/'' @ script"
  let ?w1 = "logEvent (FsRead ?p) (logEvent FsCwd w)"
  have req: "cachedBundle E b script w
               = cacheOrGen script (Some ?p) (bundleGen E b) ''cachedBundle'' (logEvent FsCwd w)"
    using assms(1,2) by (simp add: cachedBundle_cwd)
  have e1: "fst (ensureDir (tmpl (bundleFolder b)) ?w1) = Inr ()"
    using assms(5) ensureDir_sameFs[of ?w1 w "tmpl (bundleFolder b)"] by simp
  have d1: "denoBundle E (files ?w1) (''./'' @ tsSource b @ ''/'' @ stripJs script) = Inr (None, emit)"
    using assms(4) by simp
  have g: "\<exists>rest. trace (snd (bundleGen E b (stripJs script) ?w1))
           = trace ?w1
             @ [FsCwd, GenBundle (''./'' @ tsSource b @ ''/'' @ stripJs script),
                FsEnsureDir (tmpl (bundleFolder b)),
                FsWrite (''./'' @ tmpl (bundleFolder b) @ ''/'' @ stripJs script @ ''.js'')] @ rest"
    using bundleGen_trace[OF assms(1,2) d1 e1] by simp
  have "?p \<noteq> []" by simp
  from cached_miss_trace[where request = "cachedBundle E b script", OF req this assms(3) g]
  show ?thesis by simp
qed

text \<open>
  C7, as the code has it. An identifier that ends in \<open>.js\<close> reaches the generator
  without that extension, and one that has fewer than three characters or does not end
  in \<open>js\<close> reaches it unchanged. On a miss, a cached operation reads the path planned
  for the identifier as it was given and calls its generator on the stripped identifier.
  \<open>bundle\<close> names its output by attaching \<open>.js\<close> to the path planned for the stripped
  identifier: for an identifier that ends in \<open>.js\<close>, the path written is the path read.
\<close>

theorem extension_normalisation_amended:
  "stripJs (s @ ''.js'') = s
   \<and> (length s < 3 \<or> drop (length s - 2) s \<noteq> ''js'' \<longrightarrow> stripJs s = s)
   \<and> (cwd E = Inr wd \<and> truthy (bundleFolder b)
        \<and> isl (fst (readTextFile (''./'' @ tmpl (bundleFolder b) @ ''/'' @ script) w))
        \<and> denoBundle E (files w) (''./'' @ tsSource b @ ''/'' @ stripJs script) = Inr (None, emit)
        \<and> fst (ensureDir (tmpl (bundleFolder b)) w) = Inr ()
      \<longrightarrow> (\<exists>rest. trace (snd (cachedBundle E b script w))
              = trace w @ [FsCwd, FsRead (''./'' @ tmpl (bundleFolder b) @ ''/'' @ script),
                            FsCwd, GenBundle (''./'' @ tsSource b @ ''/'' @ stripJs script),
                            FsEnsureDir (tmpl (bundleFolder b)),
                            FsWrite (''./'' @ tmpl (bundleFolder b) @ ''/'' @ stripJs script @ ''.js'')]
                @ rest))
   \<and> ''./'' @ tmpl (bundleFolder b) @ ''/'' @ stripJs (s @ ''.js'') @ ''.js''
       = ''./'' @ tmpl (bundleFolder b) @ ''/'' @ (s @ ''.js'')
   \<and> (cwd E = Inr wd \<and> truthy (compiledFolder b)
        \<and> isl (fst (readTextFile (''./'' @ tmpl (compiledFolder b) @ ''/'' @ script) w))
      \<longrightarrow> (\<exists>rest. trace (snd (cachedCompile E b script w))
              = trace w @ [FsCwd, FsRead (''./'' @ tmpl (compiledFolder b) @ ''/'' @ script),
                            FsCwd, GenCompile (''./'' @ tsSource b @ ''/'' @ stripJs script)] @ rest))
   \<and> (cwd E = Inr wd \<and> truthy (transpileFolder b)
        \<and> isl (fst (readTextFile (''./'' @ tmpl (transpileFolder b) @ ''/'' @ script) w))
      \<longrightarrow> (\<exists>rest. trace (snd (cachedTranspile E b script w))
              = trace w @ [FsCwd, FsRead (''./'' @ tmpl (transpileFolder b) @ ''/'' @ script),
                            FsCwd, GenTranspile (''./'' @ tsSource b @ ''/'' @ stripJs script)] @ rest))"
  using stripJs_extension[of s] stripJs_other[of s]
    cachedBundle_write_trace[of E wd b script w emit]
    cachedCompile_miss_trace[of E wd b script w]
    cachedTranspile_miss_trace[of E wd b script w]
  by simp

theorem extension_normalisation_amended_witness:
  "stripJs (''lib/app'' @ ''.js'') = ''lib/app''
   \<and> (length ''app.ts'' < 3 \<or> drop (length ''app.ts'' - 2) ''app.ts'' \<noteq> ''js'')
   \<and> stripJs ''app.ts'' = ''app.ts''
   \<and> (cwd exEnv = Inr ''/srv'' \<and> truthy (bundleFolder exAll)
        \<and> isl (fst (readTextFile (''./'' @ tmpl (bundleFolder exAll) @ ''/'' @ ''app.js'') exWorld))
        \<and> denoBundle exEnv (files exWorld) (''./'' @ tsSource exAll @ ''/'' @ stripJs ''app.js'')
             = Inr (None, ''/*bundle*/let x = 1'')
        \<and> fst (ensureDir (tmpl (bundleFolder exAll)) exWorld) = Inr ())
   \<and> (\<exists>rest. trace (snd (cachedBundle exEnv exAll ''app.js'' exWorld))
              = trace exWorld @ [FsCwd, FsRead (''./'' @ tmpl (bundleFolder exAll) @ ''/'' @ ''app.js''),
                            FsCwd, GenBundle (''./'' @ tsSource exAll @ ''/'' @ stripJs ''app.js''),
                            FsEnsureDir (tmpl (bundleFolder exAll)),
                            FsWrite (''./'' @ tmpl (bundleFolder exAll) @ ''/'' @ stripJs ''app.js'' @ ''.js'')]
                @ rest)
   \<and> ''./'' @ tmpl (bundleFolder exAll) @ ''/'' @ stripJs (''app'' @ ''.js'') @ ''.js''
       = ''./'' @ tmpl (bundleFolder exAll) @ ''/'' @ (''app'' @ ''.js'')
   \<and> (cwd exEnv = Inr ''/srv'' \<and> truthy (compiledFolder exAll)
        \<and> isl (fst (readTextFile (''./'' @ tmpl (compiledFolder exAll) @ ''/'' @ ''lib.js'') exWorld)))
   \<and> (\<exists>rest. trace (snd (cachedCompile exEnv exAll ''lib.js'' exWorld))
              = trace exWorld @ [FsCwd, FsRead (''./'' @ tmpl (compiledFolder exAll) @ ''/'' @ ''lib.js''),
                            FsCwd, GenCompile (''./'' @ tsSource exAll @ ''/'' @ stripJs ''lib.js'')] @ rest)
   \<and> (cwd exEnv = Inr ''/srv'' \<and> truthy (transpileFolder exAll)
        \<and> isl (fst (readTextFile (''./'' @ tmpl (transpileFolder exAll) @ ''/'' @ ''lib.js'') exWorld)))
   \<and> (\<exists>rest. trace (snd (cachedTranspile exEnv exAll ''lib.js'' exWorld))
              = trace exWorld @ [FsCwd, FsRead (''./'' @ tmpl (transpileFolder exAll) @ ''/'' @ ''lib.js''),
                            FsCwd, GenTranspile (''./'' @ tsSource exAll @ ''/'' @ stripJs ''lib.js'')] @ rest)
   \<and> stripJs ''lib.js'' = ''lib''"
  (is "?C1 \<and> ?H2 \<and> ?C2 \<and> ?H3 \<and> ?C3 \<and> ?C4 \<and> ?H5 \<and> ?C5 \<and> ?H6 \<and> ?C6 \<and> ?X")
proof -
  have h2: ?H2 by code_simp
  have h3: ?H3 by code_simp
  have h5: ?H5 by code_simp
  have h6: ?H6 by code_simp
  have x: ?X by code_simp
  have c1: ?C1
    using extension_normalisation_amended[where s = "''lib/app''", THEN conjunct1] .
  have c2: ?C2
    using extension_normalisation_amended
            [where s = "''app.ts''", THEN conjunct2, THEN conjunct1, THEN mp, OF h2] .
  have c3: ?C3
    using extension_normalisation_amended
            [where b = exAll and E = exEnv and script = "''app.js''" and w = exWorld
               and emit = "''/*bundle*/let x = 1''" and wd = "''/srv''",
             THEN conjunct2, THEN conjunct2, THEN conjunct1, THEN mp, OF h3] .
  have c4: ?C4
    using extension_normalisation_amended
            [where b = exAll and s = "''app''",
             THEN conjunct2, THEN conjunct2, THEN conjunct2, THEN conjunct1] .
  have c5: ?C5
    using extension_normalisation_amended
            [where b = exAll and E = exEnv and script = "''lib.js''" and w = exWorld
               and wd = "''/srv''",
             THEN conjunct2, THEN conjunct2, THEN conjunct2, THEN conjunct2, THEN conjunct1,
             THEN mp, OF h5] .
  have c6: ?C6
    using extension_normalisation_amended
            [where b = exAll and E = exEnv and script = "''lib.js''" and w = exWorld
               and wd = "''/srv''",
             THEN conjunct2, THEN conjunct2, THEN conjunct2, THEN conjunct2, THEN conjunct2,
             THEN mp, OF h6] .
  show ?thesis using c1 h2 c2 h3 c3 c4 h5 c5 h6 c6 x by blast
qed

text \<open>
  C7 as stated fails for the identifier \<open>app\<close>: \<open>bundle\<close> attaches an extension that
  was never stripped. It writes \<open>./bundle/app.js\<close>, the path read is \<open>./bundle/app\<close>,
  and the request returns the not-found payload.
\<close>

theorem extension_normalisation_counterexample:
  "trace (snd (cachedBundle exEnv exAll ''app'' exWorld))
     = [FsCwd, FsRead ''./bundle/app'', FsCwd, GenBundle ''./src/app'', FsEnsureDir ''bundle'',
        FsWrite ''./bundle/app.js'', FsRead ''./bundle/app'']
   \<and> normPath ''./bundle/app.js'' \<noteq> normPath ''./bundle/app''
   \<and> fst (cachedBundle exEnv exAll ''app'' exWorld) = Inr (failedToFind ''cachedBundle'' ''app'')"
  by code_simp

section \<open>C8: the dispatch of the middleware\<close>

lemma slot_disabled: "\<not> truthy folder \<Longrightarrow> slot dflt setting folder = None"
  by (simp add: slot_def Let_def)

lemma slot_enabled:
  "truthy folder \<Longrightarrow>
     slot dflt setting folder = Some (case setting of RegExp r \<Rightarrow> r | _ \<Rightarrow> dflt)"
  by (cases setting) (simp_all add: slot_def Let_def)

text \<open>
  C8. The middleware tries the bundle pattern, then the compile pattern, then the cache
  pattern. The first that matches decides the operation: \<open>cachedBundle\<close> or
  \<open>cachedCompile\<close> on the captured script, \<open>scriptCache\<close> on the captured script and
  handle; the text returned becomes the body of the response, of type
  \<open>text/javascript\<close>. When none matches, the outcome is that of the next handler. The
  constructor sets to \<open>null\<close> the pattern of a folder that is not set, whatever pattern
  the settings supply, so that route is never taken; with a folder set, the pattern is
  the supplied one, or the default.
\<close>

theorem router_dispatch:
  "(exec1 (BundleRegEx m) pathname = Some script
      \<longrightarrow> middleware E m pathname next resp w = respond resp (cachedBundle E (bcc m) script w))
   \<and> (exec1 (BundleRegEx m) pathname = None \<and> exec1 (CompileRegEx m) pathname = Some script
      \<longrightarrow> middleware E m pathname next resp w = respond resp (cachedCompile E (bcc m) script w))
   \<and> (exec1 (BundleRegEx m) pathname = None \<and> exec1 (CompileRegEx m) pathname = None
        \<and> exec2 (CacheRegEx m) pathname = Some (src, script)
      \<longrightarrow> middleware E m pathname next resp w = respond resp (scriptCache E (bcc m) script src w))
   \<and> (exec1 (BundleRegEx m) pathname = None \<and> exec1 (CompileRegEx m) pathname = None
        \<and> exec2 (CacheRegEx m) pathname = None
      \<longrightarrow> middleware E m pathname next resp w = next resp w)
   \<and> respond resp (Inr payload, w)
       = (Inr (resp\<lparr>r_body := Some payload, r_type := Some ''text/javascript''\<rparr>), w)
   \<and> respond resp (Inl e, w) = (Inl e, w)
   \<and> (\<not> truthy (set_bundleFolder (ms_BCC_Settings settings))
      \<longrightarrow> BundleRegEx (newBCC_Middleware settings) = None
          \<and> exec1 (BundleRegEx (newBCC_Middleware settings)) pathname = None)
   \<and> (\<not> truthy (set_compiledFolder (ms_BCC_Settings settings))
      \<longrightarrow> CompileRegEx (newBCC_Middleware settings) = None
          \<and> exec1 (CompileRegEx (newBCC_Middleware settings)) pathname = None)
   \<and> (\<not> truthy (set_cacheFolder (ms_BCC_Settings settings))
      \<longrightarrow> CacheRegEx (newBCC_Middleware settings) = None
          \<and> exec2 (CacheRegEx (newBCC_Middleware settings)) pathname = None)
   \<and> (\<not> truthy (set_bundleFolder (ms_BCC_Settings settings))
        \<and> \<not> truthy (set_compiledFolder (ms_BCC_Settings settings))
        \<and> \<not> truthy (set_cacheFolder (ms_BCC_Settings settings))
      \<longrightarrow> middleware E (newBCC_Middleware settings) pathname next resp w = next resp w)
   \<and> (truthy (set_bundleFolder (ms_BCC_Settings settings))
      \<longrightarrow> BundleRegEx (newBCC_Middleware settings)
            = Some (case ms_BundleRegEx settings of RegExp r \<Rightarrow> r | _ \<Rightarrow> defaultBundleRegEx))"
  by (simp add: middleware_def respond_def newBCC_Middleware_def slot_disabled slot_enabled
      exec1_def exec2_def)

theorem router_dispatch_witness:
  "exec1 (BundleRegEx exRouter) ''/bundled/compiled/app.js'' = Some ''compiled/app.js''
   \<and> middleware exEnv exRouter ''/bundled/compiled/app.js'' exNext exResponse exWorld
       = respond exResponse (cachedBundle exEnv (bcc exRouter) ''compiled/app.js'' exWorld)
   \<and> (exec1 (BundleRegEx exRouter) ''/compiled/app'' = None
        \<and> exec1 (CompileRegEx exRouter) ''/compiled/app'' = Some ''app'')
   \<and> middleware exEnv exRouter ''/compiled/app'' exNext exResponse exWorld
       = respond exResponse (cachedCompile exEnv (bcc exRouter) ''app'' exWorld)
   \<and> (exec1 (BundleRegEx exRouter) ''/cache/lib/utils.js'' = None
        \<and> exec1 (CompileRegEx exRouter) ''/cache/lib/utils.js'' = None
        \<and> exec2 (CacheRegEx exRouter) ''/cache/lib/utils.js'' = Some (''lib'', ''utils.js''))
   \<and> middleware exEnv exRouter ''/cache/lib/utils.js'' exNext exResponse exWorld
       = respond exResponse (scriptCache exEnv (bcc exRouter) ''utils.js'' ''lib'' exWorld)
   \<and> (exec1 (BundleRegEx exRouter) ''/index.html'' = None
        \<and> exec1 (CompileRegEx exRouter) ''/index.html'' = None
        \<and> exec2 (CacheRegEx exRouter) ''/index.html'' = None)
   \<and> middleware exEnv exRouter ''/index.html'' exNext exResponse exWorld
       = exNext exResponse exWorld
   \<and> \<not> truthy (set_bundleFolder (ms_BCC_Settings exCompileRouterSettings))
   \<and> (BundleRegEx (newBCC_Middleware exCompileRouterSettings) = None
        \<and> exec1 (BundleRegEx (newBCC_Middleware exCompileRouterSettings)) ''/b/app.js'' = None)
   \<and> \<not> truthy (set_compiledFolder (ms_BCC_Settings exNoFolderSettings))
   \<and> (CompileRegEx (newBCC_Middleware exNoFolderSettings) = None
        \<and> exec1 (CompileRegEx (newBCC_Middleware exNoFolderSettings)) ''/c/app'' = None)
   \<and> \<not> truthy (set_cacheFolder (ms_BCC_Settings exCompileRouterSettings))
   \<and> (CacheRegEx (newBCC_Middleware exCompileRouterSettings) = None
        \<and> exec2 (CacheRegEx (newBCC_Middleware exCompileRouterSettings)) ''/c/lib/utils.js'' = None)
   \<and> (\<not> truthy (set_bundleFolder (ms_BCC_Settings exNoFolderSettings))
        \<and> \<not> truthy (set_compiledFolder (ms_BCC_Settings exNoFolderSettings))
        \<and> \<not> truthy (set_cacheFolder (ms_BCC_Settings exNoFolderSettings)))
   \<and> middleware exEnv (newBCC_Middleware exNoFolderSettings) ''/b/app.js'' exNext exResponse exWorld
       = exNext exResponse exWorld
   \<and> truthy (set_bundleFolder (ms_BCC_Settings exAllSettingsRouter))
   \<and> BundleRegEx (newBCC_Middleware exAllSettingsRouter)
       = Some (case ms_BundleRegEx exAllSettingsRouter of RegExp r \<Rightarrow> r | _ \<Rightarrow> defaultBundleRegEx)"
  (is "?H1 \<and> ?C1 \<and> ?H2 \<and> ?C2 \<and> ?H3 \<and> ?C3 \<and> ?H4 \<and> ?C4 \<and> ?H7 \<and> ?C7 \<and> ?H8 \<and> ?C8
        \<and> ?H9 \<and> ?C9 \<and> ?H10 \<and> ?C10 \<and> ?H11 \<and> ?C11")
proof -
  have h1: ?H1 by code_simp
  have h2: ?H2 by code_simp
  have h3: ?H3 by code_simp
  have h4: ?H4 by code_simp
  have h7: ?H7 by code_simp
  have h8: ?H8 by code_simp
  have h9: ?H9 by code_simp
  have h10: ?H10 by code_simp
  have h11: ?H11 by code_simp
  have c1: ?C1
    using router_dispatch
            [where E = exEnv and ?next = exNext and resp = exResponse and w = exWorld and m = exRouter and pathname = "''/bundled/compiled/app.js''" and script = "''compiled/app.js''",
             THEN conjunct1, THEN mp, OF h1] .
  have c2: ?C2
    using router_dispatch
            [where E = exEnv and ?next = exNext and resp = exResponse and w = exWorld and m = exRouter and pathname = "''/compiled/app''" and script = "''app''",
             THEN conjunct2, THEN conjunct1, THEN mp, OF h2] .
  have c3: ?C3
    using router_dispatch
            [where E = exEnv and ?next = exNext and resp = exResponse and w = exWorld and m = exRouter and pathname = "''/cache/lib/utils.js''" and script = "''utils.js''" and src = "''lib''",
             THEN conjunct2, THEN conjunct2, THEN conjunct1, THEN mp, OF h3] .
  have c4: ?C4
    using router_dispatch
            [where E = exEnv and ?next = exNext and resp = exResponse and w = exWorld and m = exRouter and pathname = "''/index.html''",
             THEN conjunct2, THEN conjunct2, THEN conjunct2, THEN conjunct1, THEN mp, OF h4] .
  have c7: ?C7
    using router_dispatch
            [where E = exEnv and ?next = exNext and resp = exResponse and w = exWorld and settings = exCompileRouterSettings and pathname = "''/b/app.js''",
             THEN conjunct2, THEN conjunct2, THEN conjunct2, THEN conjunct2, THEN conjunct2, THEN conjunct2, THEN conjunct1, THEN mp, OF h7] .
  have c8: ?C8
    using router_dispatch
            [where E = exEnv and ?next = exNext and resp = exResponse and w = exWorld and settings = exNoFolderSettings and pathname = "''/c/app''",
             THEN conjunct2, THEN conjunct2, THEN conjunct2, THEN conjunct2, THEN conjunct2, THEN conjunct2, THEN conjunct2, THEN conjunct1, THEN mp, OF h8] .
  have c9: ?C9
    using router_dispatch
            [where E = exEnv and ?next = exNext and resp = exResponse and w = exWorld and settings = exCompileRouterSettings and pathname = "''/c/lib/utils.js''",
             THEN conjunct2, THEN conjunct2, THEN conjunct2, THEN conjunct2, THEN conjunct2, THEN conjunct2, THEN conjunct2, THEN conjunct2, THEN conjunct1, THEN mp, OF h9] .
  have c10: ?C10
    using router_dispatch
            [where E = exEnv and ?next = exNext and resp = exResponse and w = exWorld and settings = exNoFolderSettings and pathname = "''/b/app.js''",
             THEN conjunct2, THEN conjunct2, THEN conjunct2, THEN conjunct2, THEN conjunct2, THEN conjunct2, THEN conjunct2, THEN conjunct2, THEN conjunct2, THEN conjunct1, THEN mp, OF h10] .
  have c11: ?C11
    using router_dispatch
            [where E = exEnv and ?next = exNext and resp = exResponse and w = exWorld and settings = exAllSettingsRouter,
             THEN conjunct2, THEN conjunct2, THEN conjunct2, THEN conjunct2, THEN conjunct2, THEN conjunct2, THEN conjunct2, THEN conjunct2, THEN conjunct2, THEN conjunct2, THEN mp, OF h11] .
  show ?thesis using h1 c1 h2 c2 h3 c3 h4 c4 h7 c7 h8 c8 h9 c9 h10 c10 h11 c11 by blast
qed

section \<open>C10: the empty script identifier\<close>

lemma splitSlash_trailing: "splitSlash (x @ ''/'') = splitSlash x @ [[]]"
proof (induction x)
  case Nil
  then show ?case by simp
next
  case (Cons c x)
  obtain y ys where "splitSlash x = y # ys" using splitSlash_nonempty[of x] by (cases "splitSlash x") auto
  then show ?case using Cons by simp
qed

lemma namesDir_trailing: "namesDir (x @ ''/'')"
  by (simp add: namesDir_def splitSlash_trailing)

lemma read_directory_path: "isl (fst (readTextFile (x @ ''/'') w))"
  using namesDir_trailing[of x] by (simp add: readTextFile_def Let_def)

lemma stripJs_empty: "stripJs [] = []"
  by (simp add: stripJs_def)

lemma updateCache_trace: "\<exists>rest. trace (snd (updateCache E b script src uri w)) = trace w @ rest"
proof (cases "truthy (cacheFolder b)")
  case False
  then show ?thesis by (simp add: updateCache_def)
next
  case True
  let ?url = "tmpl (mapGet (cacheMap b) src) @ script"
  let ?w1 = "logEvent (NetFetch ?url) w"
  show ?thesis
  proof (cases "fetch E ?url")
    case (Inl e)
    then show ?thesis using True by (simp add: updateCache_def Let_def)
  next
    case (Inr body)
    obtain r1 wa where e: "ensureDir (tmpl (cacheFolder b) @ ''/'' @ src @ ''/'') ?w1 = (r1, wa)"
      by (cases "ensureDir (tmpl (cacheFolder b) @ ''/'' @ src @ ''/'') ?w1")
    have ta: "trace wa = trace ?w1 @ [FsEnsureDir (tmpl (cacheFolder b) @ ''/'' @ src @ ''/'')]"
      using trace_ensureDir[of "tmpl (cacheFolder b) @ ''/'' @ src @ ''/''" ?w1] e by simp
    show ?thesis using True Inr e ta
      by (cases r1) (simp_all add: updateCache_def Let_def trace_writeTextFile)
  qed
qed

lemma scriptCache_first_read:
  assumes "truthy (cacheFolder b)"
  shows "\<exists>rest. trace (snd (scriptCache E b script handle w))
            = trace w @ [FsRead (''./'' @ tmpl (cacheFolder b) @ ''/'' @ handle @ ''/'' @ md5 E script)]
              @ rest"
proof -
  let ?uri = "''./'' @ tmpl (cacheFolder b) @ ''/'' @ handle @ ''/'' @ md5 E script"
  let ?w1 = "logEvent (FsRead ?uri) w"
  obtain r1 w1 where r: "readTextFile ?uri w = (r1, w1)" by (cases "readTextFile ?uri w")
  then have w1: "w1 = ?w1" using snd_readTextFile[of ?uri w] by simp
  obtain r2 w2 where u: "updateCache E b script handle ?uri ?w1 = (r2, w2)"
    by (cases "updateCache E b script handle ?uri ?w1")
  obtain rest where t2: "trace w2 = trace ?w1 @ rest"
    using updateCache_trace[of E b script handle ?uri ?w1] u by auto
  obtain r3 w3 where r3: "readTextFile ?uri w2 = (r3, w3)" by (cases "readTextFile ?uri w2")
  then have t3: "trace w3 = trace w2 @ [FsRead ?uri]" using snd_readTextFile[of ?uri w2] by simp
  show ?thesis using assms r w1 u t2 r3 t3
    by (cases r1; cases r2; cases r3) (auto simp add: scriptCache_def Let_def)
qed

text \<open>
  C10, as the code has it. \<open>valid\<close> answers false to an absent or empty identifier and
  leaves the world as it was: no file is touched. The cache operations do not call
  \<open>valid\<close> and do not look at the identifier: with their kind enabled and the empty
  identifier, they ask for the working directory and then read the planned path, which
  is the folder followed by a slash, and then call the generator on the empty
  identifier; where the working directory is not available, they end with the fault of
  that query. \<open>scriptCache\<close> first reads the cache entry.
\<close>

theorem empty_identifier_amended:
  "valid E b None w = (Inr False, w)
   \<and> valid E b (Some []) w = (Inr False, w)
   \<and> (cwd E = Inr wd \<and> truthy (compiledFolder b) \<longrightarrow>
        (\<exists>rest. trace (snd (cachedCompile E b [] w))
           = trace w @ [FsCwd, FsRead (''./'' @ tmpl (compiledFolder b) @ ''/''),
                        FsCwd, GenCompile (''./'' @ tsSource b @ ''/'')] @ rest))
   \<and> (cwd E = Inr wd \<and> truthy (bundleFolder b) \<longrightarrow>
        (\<exists>rest. trace (snd (cachedBundle E b [] w))
           = trace w @ [FsCwd, FsRead (''./'' @ tmpl (bundleFolder b) @ ''/''),
                        FsCwd, GenBundle (''./'' @ tsSource b @ ''/'')] @ rest))
   \<and> (cwd E = Inr wd \<and> truthy (transpileFolder b) \<longrightarrow>
        (\<exists>rest. trace (snd (cachedTranspile E b [] w))
           = trace w @ [FsCwd, FsRead (''./'' @ tmpl (transpileFolder b) @ ''/''),
                        FsCwd, GenTranspile (''./'' @ tsSource b @ ''/'')] @ rest))
   \<and> (truthy (cacheFolder b) \<longrightarrow>
        (\<exists>rest. trace (snd (scriptCache E b [] handle w))
           = trace w @ [FsRead (''./'' @ tmpl (cacheFolder b) @ ''/'' @ handle @ ''/'' @ md5 E [])]
             @ rest))
   \<and> (cwd E = Inl e \<longrightarrow>
        cachedCompile E b [] w = (Inl e, logEvent FsCwd w)
        \<and> cachedBundle E b [] w = (Inl e, logEvent FsCwd w)
        \<and> cachedTranspile E b [] w = (Inl e, logEvent FsCwd w))"
proof -
  have m: "isl (fst (readTextFile (''./'' @ f @ ''/'' @ []) w))" for f
    using read_directory_path[of "''./'' @ f" w] by simp
  have 12: "valid E b None w = (Inr False, w)" "valid E b (Some []) w = (Inr False, w)"
    by (simp_all add: valid_def)
  show ?thesis
    using 12 scriptCache_first_read[of b E "[]" handle w]
      cachedCompile_miss_trace[of E wd b "[]" w, OF _ _ m]
      cachedBundle_miss_trace[of E wd b "[]" w, OF _ _ m]
      cachedTranspile_miss_trace[of E wd b "[]" w, OF _ _ m]
      cachedCompile_cwd(2)[of E e b "[]" w] cachedBundle_cwd(2)[of E e b "[]" w]
      cachedTranspile_cwd(2)[of E e b "[]" w]
    by (simp add: stripJs_empty)
qed

theorem empty_identifier_amended_witness:
  "valid exEnv exAll None exWorld = (Inr False, exWorld)
   \<and> valid exEnv exAll (Some []) exWorld = (Inr False, exWorld)
   \<and> (cwd exEnv = Inr ''/srv'' \<and> truthy (compiledFolder exAll))
   \<and> (\<exists>rest. trace (snd (cachedCompile exEnv exAll [] exWorld))
           = trace exWorld @ [FsCwd, FsRead (''./'' @ tmpl (compiledFolder exAll) @ ''/''),
                        FsCwd, GenCompile (''./'' @ tsSource exAll @ ''/'')] @ rest)
   \<and> (cwd exEnv = Inr ''/srv'' \<and> truthy (bundleFolder exAll))
   \<and> (\<exists>rest. trace (snd (cachedBundle exEnv exAll [] exWorld))
           = trace exWorld @ [FsCwd, FsRead (''./'' @ tmpl (bundleFolder exAll) @ ''/''),
                        FsCwd, GenBundle (''./'' @ tsSource exAll @ ''/'')] @ rest)
   \<and> (cwd exEnv = Inr ''/srv'' \<and> truthy (transpileFolder exAll))
   \<and> (\<exists>rest. trace (snd (cachedTranspile exEnv exAll [] exWorld))
           = trace exWorld @ [FsCwd, FsRead (''./'' @ tmpl (transpileFolder exAll) @ ''/''),
                        FsCwd, GenTranspile (''./'' @ tsSource exAll @ ''/'')] @ rest)
   \<and> truthy (cacheFolder exAll)
   \<and> (\<exists>rest. trace (snd (scriptCache exEnv exAll [] ''lib'' exWorld))
           = trace exWorld @ [FsRead (''./'' @ tmpl (cacheFolder exAll) @ ''/'' @ ''lib'' @ ''/'' @ md5 exEnv [])]
             @ rest)
   \<and> cwd exNoCwd = Inl (Thrown ''NotFound'')
   \<and> (cachedCompile exNoCwd exAll [] exWorld = (Inl (Thrown ''NotFound''), logEvent FsCwd exWorld)
        \<and> cachedBundle exNoCwd exAll [] exWorld = (Inl (Thrown ''NotFound''), logEvent FsCwd exWorld)
        \<and> cachedTranspile exNoCwd exAll [] exWorld
            = (Inl (Thrown ''NotFound''), logEvent FsCwd exWorld))"
  (is "?C1 \<and> ?C2 \<and> ?H3 \<and> ?C3 \<and> ?H4 \<and> ?C4 \<and> ?H5 \<and> ?C5 \<and> ?H6 \<and> ?C6 \<and> ?H7 \<and> ?C7")
proof -
  have h3: ?H3 by code_simp
  have h4: ?H4 by code_simp
  have h5: ?H5 by code_simp
  have h6: ?H6 by code_simp
  have h7: ?H7 by code_simp
  note t = empty_identifier_amended[where E = exEnv and b = exAll and w = exWorld
             and handle = "''lib''" and wd = "''/srv''"]
  have c1: ?C1 using t[THEN conjunct1] .
  have c2: ?C2 using t[THEN conjunct2, THEN conjunct1] .
  have c3: ?C3 using t[THEN conjunct2, THEN conjunct2, THEN conjunct1, THEN mp, OF h3] .
  have c4: ?C4 using t[THEN conjunct2, THEN conjunct2, THEN conjunct2, THEN conjunct1, THEN mp, OF h4] .
  have c5: ?C5
    using t[THEN conjunct2, THEN conjunct2, THEN conjunct2, THEN conjunct2, THEN conjunct1,
            THEN mp, OF h5] .
  have c6: ?C6
    using t[THEN conjunct2, THEN conjunct2, THEN conjunct2, THEN conjunct2, THEN conjunct2,
            THEN conjunct1, THEN mp, OF h6] .
  have c7: ?C7
    using empty_identifier_amended
            [where E = exNoCwd and b = exAll and w = exWorld and e = "Thrown ''NotFound''",
             THEN conjunct2, THEN conjunct2, THEN conjunct2, THEN conjunct2, THEN conjunct2,
             THEN conjunct2, THEN mp, OF h7] .
  show ?thesis using c1 c2 h3 c3 h4 c4 h5 c5 h6 c6 h7 c7 by blast
qed

text \<open>
  C10 as stated fails for the cache operations: \<open>cachedCompile\<close> on the empty
  identifier, with compile enabled, reads \<open>./compiled/\<close> and calls the compiler on
  \<open>./src/\<close>; nothing rejects the identifier before the read.
\<close>

theorem empty_identifier_counterexample:
  "truthy (compiledFolder exAll)
   \<and> trace (snd (cachedCompile exEnv exAll [] exWorld))
       = [FsCwd, FsRead ''./compiled/'', FsCwd, GenCompile ''./src/'']
   \<and> fst (cachedCompile exEnv exAll [] exWorld) = Inl (Thrown ''NotFound'')"
  by code_simp

section \<open>C9: the two engines\<close>

lemma toggled_simps [simp]:
  "tsSource (toggled b0) = tsSource0 b0"
  "bundleFolder (toggled b0) = Some (bundleFolder0 b0)"
  "compiledFolder (toggled b0) = Some (compiledFolder0 b0)"
  "transpileFolder (toggled b0) = None"
  "cacheFolder (toggled b0) = Some (cacheFolder0 b0)"
  "cacheRoot (toggled b0) = Some (cacheRoot0 b0)"
  "cacheMap (toggled b0) = cacheMap0 b0"
  "mapSources (toggled b0) = mapSources0 b0"
  by (simp_all add: toggled_def)

lemma mapExternalSources_toggled: "mapExternalSources (toggled b0) code = mapExternalSources0 b0 code"
  by (simp add: mapExternalSources_def mapExternalSources0_def)

lemma sameOutcome_refl [simp]: "sameOutcome r r"
  by (cases r) (simp_all add: sameOutcome_def)

lemma sameOutcome_simps [simp]:
  "sameOutcome (Inl e) (Inl e')" "sameOutcome (Inr v) r = (r = Inr v)"
  "\<not> sameOutcome (Inl e) (Inr v)"
  by (simp_all add: sameOutcome_def)

text \<open>The clears.\<close>

lemma clears_toggled:
  "bundleFolder0 b0 \<noteq> [] \<Longrightarrow> clearBundleCache (toggled b0) = clearBundleCache0 b0"
  "compiledFolder0 b0 \<noteq> [] \<Longrightarrow> clearCompileCache (toggled b0) = clearCompileCache0 b0"
  "cacheFolder0 b0 \<noteq> [] \<Longrightarrow> clearExternalCache (toggled b0) = clearExternalCache0 b0"
  "clearTranspileCache (toggled b0) = (\<lambda>w. (Inr (), w))"
  by (intro ext, simp add: clearBundleCache_def clearBundleCache0_def
        clearCompileCache_def clearCompileCache0_def clearExternalCache_def clearExternalCache0_def
        clearTranspileCache_def)+

lemma allSettled_skip: "allSettled ((\<lambda>w. (Inr (), w)) # cs) w = allSettled cs w"
  by simp

lemma clearAllCache_toggled:
  assumes "bundleFolder0 b0 \<noteq> []" "compiledFolder0 b0 \<noteq> []" "cacheFolder0 b0 \<noteq> []"
  shows "clearAllCache (toggled b0) w = clearAllCache0 b0 w"
proof -
  have s: "allSettled [clearTranspileCache (toggled b0), clearExternalCache0 b0] v
             = allSettled [clearExternalCache0 b0] v" for v
    unfolding clears_toggled(4) by (rule allSettled_skip)
  show ?thesis
    unfolding clearAllCache_def clearAllCache0_def
      clears_toggled(1)[OF assms(1)] clears_toggled(2)[OF assms(2)] clears_toggled(3)[OF assms(3)]
    using s by (simp split: prod.splits sum.splits)
qed

text \<open>A hit is one and the same read.\<close>

lemma cacheOrGen_hit_read:
  "truthy cp \<Longrightarrow> \<not> isl (fst (readTextFile (tmpl cp) w)) \<Longrightarrow>
     cacheOrGen script cp gen fn w = readTextFile (tmpl cp) w"
  by (cases "readTextFile (tmpl cp) w"; cases "fst (readTextFile (tmpl cp) w)")
     (auto simp add: cacheOrGen_def)

lemma cacheOrGen0_hit_read:
  "\<not> isl (fst (readTextFile cp w)) \<Longrightarrow> cacheOrGen0 script cp gen fn w = readTextFile cp w"
  by (cases "readTextFile cp w"; cases "fst (readTextFile cp w)")
     (auto simp add: cacheOrGen0_def)

lemma scriptCache_hit_read:
  "truthy (cacheFolder b) \<Longrightarrow>
   \<not> isl (fst (readTextFile (''./'' @ tmpl (cacheFolder b) @ ''/'' @ handle @ ''/'' @ md5 E script) w)) \<Longrightarrow>
     scriptCache E b script handle w
       = readTextFile (''./'' @ tmpl (cacheFolder b) @ ''/'' @ handle @ ''/'' @ md5 E script) w"
  by (cases "readTextFile (''./'' @ tmpl (cacheFolder b) @ ''/'' @ handle @ ''/'' @ md5 E script) w";
      cases "fst (readTextFile (''./'' @ tmpl (cacheFolder b) @ ''/'' @ handle @ ''/'' @ md5 E script) w)")
     (auto simp add: scriptCache_def Let_def)

lemma scriptCache0_hit_read:
  "\<not> isl (fst (readTextFile (''./'' @ cacheFolder0 b @ ''/'' @ handle @ ''/'' @ md5 E script) w)) \<Longrightarrow>
     scriptCache0 E b script handle w
       = readTextFile (''./'' @ cacheFolder0 b @ ''/'' @ handle @ ''/'' @ md5 E script) w"
  by (cases "readTextFile (''./'' @ cacheFolder0 b @ ''/'' @ handle @ ''/'' @ md5 E script) w";
      cases "fst (readTextFile (''./'' @ cacheFolder0 b @ ''/'' @ handle @ ''/'' @ md5 E script) w)")
     (auto simp add: scriptCache0_def Let_def)

lemma cachedBundle0_cwd:
  "cwd E = Inr wd \<Longrightarrow>
     cachedBundle0 E b script w
       = cacheOrGen0 script (''./'' @ bundleFolder0 b @ ''/'' @ script) (bundle0 E b) ''cachedBundle''
           (logEvent FsCwd w)"
  "cwd E = Inl e \<Longrightarrow> cachedBundle0 E b script w = (Inl e, logEvent FsCwd w)"
  by (simp_all add: cachedBundle0_def generatedPaths0_cwd)

lemma cachedCompile0_cwd:
  "cwd E = Inr wd \<Longrightarrow>
     cachedCompile0 E b script w
       = cacheOrGen0 script (''./'' @ compiledFolder0 b @ ''/'' @ script) (compile0 E b) ''cachedCompile''
           (logEvent FsCwd w)"
  "cwd E = Inl e \<Longrightarrow> cachedCompile0 E b script w = (Inl e, logEvent FsCwd w)"
  by (simp_all add: cachedCompile0_def generatedPaths0_cwd)

lemma read_after_cwd:
  "fst (readTextFile p (logEvent FsCwd w)) = fst (readTextFile p w)"
  using readTextFile_sameFs[of "logEvent FsCwd w" w p] by simp

lemma cachedBundle_hit_same:
  assumes "bundleFolder0 b0 \<noteq> []"
    and "\<not> isl (fst (readTextFile (''./'' @ bundleFolder0 b0 @ ''/'' @ script) w))"
  shows "cachedBundle E (toggled b0) script w = cachedBundle0 E b0 script w"
proof (cases "cwd E")
  case (Inl e)
  then show ?thesis by (simp add: cachedBundle_cwd cachedBundle0_cwd)
next
  case (Inr wd)
  let ?p = "''./'' @ bundleFolder0 b0 @ ''/'' @ script"
  have h: "\<not> isl (fst (readTextFile ?p (logEvent FsCwd w)))" using assms(2) read_after_cwd by simp
  show ?thesis
    using assms(1) h
      cacheOrGen_hit_read[of "Some ?p" "logEvent FsCwd w" script "bundleGen E (toggled b0)" "''cachedBundle''"]
      cacheOrGen0_hit_read[of ?p "logEvent FsCwd w" script "bundle0 E b0" "''cachedBundle''"]
    by (simp add: cachedBundle_cwd(1)[OF Inr] cachedBundle0_cwd(1)[OF Inr])
qed

lemma cachedCompile_hit_same:
  assumes "compiledFolder0 b0 \<noteq> []"
    and "\<not> isl (fst (readTextFile (''./'' @ compiledFolder0 b0 @ ''/'' @ script) w))"
  shows "cachedCompile E (toggled b0) script w = cachedCompile0 E b0 script w"
proof (cases "cwd E")
  case (Inl e)
  then show ?thesis by (simp add: cachedCompile_cwd cachedCompile0_cwd)
next
  case (Inr wd)
  let ?p = "''./'' @ compiledFolder0 b0 @ ''/'' @ script"
  have h: "\<not> isl (fst (readTextFile ?p (logEvent FsCwd w)))" using assms(2) read_after_cwd by simp
  show ?thesis
    using assms(1) h
      cacheOrGen_hit_read[of "Some ?p" "logEvent FsCwd w" script "compile E (toggled b0)" "''cachedCompile''"]
      cacheOrGen0_hit_read[of ?p "logEvent FsCwd w" script "compile0 E b0" "''cachedCompile''"]
    by (simp add: cachedCompile_cwd(1)[OF Inr] cachedCompile0_cwd(1)[OF Inr])
qed

text \<open>Generators that do the same, or leave the same files, make the same cached operation.\<close>

lemma cacheOrGen_eq:
  assumes "p \<noteq> []"
    and "g (stripJs script) (logEvent (FsRead p) w) = g0 (stripJs script) (logEvent (FsRead p) w)"
  shows "cacheOrGen script (Some p) g fn w = cacheOrGen0 script p g0 fn w"
proof -
  obtain r1 w1 where r: "readTextFile p w = (r1, w1)" by (cases "readTextFile p w")
  then have w1: "w1 = logEvent (FsRead p) w" using snd_readTextFile[of p w] by simp
  show ?thesis using assms r w1
    by (cases r1) (simp_all add: cacheOrGen_def cacheOrGen0_def cong: prod.case_cong sum.case_cong)
qed

lemma cacheOrGen_same:
  assumes "p \<noteq> []"
    and "fst (g (stripJs script) (logEvent (FsRead p) w)) = fst (g0 (stripJs script) (logEvent (FsRead p) w))"
    and "sameFs (snd (g (stripJs script) (logEvent (FsRead p) w)))
                (snd (g0 (stripJs script) (logEvent (FsRead p) w)))"
  shows "fst (cacheOrGen script (Some p) g fn w) = fst (cacheOrGen0 script p g0 fn w)
         \<and> sameFs (snd (cacheOrGen script (Some p) g fn w)) (snd (cacheOrGen0 script p g0 fn w))"
proof -
  let ?w1 = "logEvent (FsRead p) w"
  obtain r1 w1 where r: "readTextFile p w = (r1, w1)" by (cases "readTextFile p w")
  then have w1: "w1 = ?w1" using snd_readTextFile[of p w] by simp
  obtain r2 w2 where g: "g (stripJs script) ?w1 = (r2, w2)" by (cases "g (stripJs script) ?w1")
  obtain r2' w2' where g0: "g0 (stripJs script) ?w1 = (r2', w2')" by (cases "g0 (stripJs script) ?w1")
  have e2: "r2' = r2" and s2: "sameFs w2 w2'" using assms(2,3) g g0 by simp_all
  obtain r3 w3 where r3: "readTextFile p w2 = (r3, w3)" by (cases "readTextFile p w2")
  obtain r3' w3' where r3': "readTextFile p w2' = (r3', w3')" by (cases "readTextFile p w2'")
  have e3: "r3' = r3" and s3: "sameFs w3 w3'"
    using readTextFile_sameFs[OF s2, of p] r3 r3' by simp_all
  show ?thesis using assms(1) r w1 g g0 e2 s2 r3 r3' e3 s3
    by (cases r1; cases r2; cases r3) (simp_all add: cacheOrGen_def cacheOrGen0_def)
qed

lemma bundle0_cwd:
  "cwd E = Inr wd \<Longrightarrow>
     bundle0 E b s w =
       (case denoBundle E (files w) (''./'' @ tsSource0 b @ ''/'' @ s) of
          Inl e \<Rightarrow> (Inl e, logEvent (GenBundle (''./'' @ tsSource0 b @ ''/'' @ s)) (logEvent FsCwd w))
        | Inr (diagnostics, emit) \<Rightarrow>
            (case diagnostics of
               Some d \<Rightarrow> (Inl (AssertionError (''Compile Error: '' @ d)),
                          logEvent (GenBundle (''./'' @ tsSource0 b @ ''/'' @ s)) (logEvent FsCwd w))
             | None \<Rightarrow>
                 writeTextFile (''./'' @ bundleFolder0 b @ ''/'' @ s @ ''.js'')
                   (mapExternalSources0 b emit)
                   (logEvent (GenBundle (''./'' @ tsSource0 b @ ''/'' @ s)) (logEvent FsCwd w))))"
  "cwd E = Inl e \<Longrightarrow> bundle0 E b s w = (Inl e, logEvent FsCwd w)"
  by (simp_all add: bundle0_def generatedPaths0_cwd split: sum.splits prod.splits option.splits)

lemma compile0_cwd:
  "cwd E = Inr wd \<Longrightarrow>
     compile0 E b s w =
       (case denoCompile E (files w) (''./'' @ tsSource0 b @ ''/'' @ s) of
          Inl e \<Rightarrow> (Inl e, logEvent (GenCompile (''./'' @ tsSource0 b @ ''/'' @ s)) (logEvent FsCwd w))
        | Inr (diagnostics, emitMap) \<Rightarrow>
            (case diagnostics of
               Some d \<Rightarrow> (Inl (AssertionError (''Compile Error: '' @ d)),
                          logEvent (GenCompile (''./'' @ tsSource0 b @ ''/'' @ s)) (logEvent FsCwd w))
             | None \<Rightarrow>
                 compileLoop0 b (''./'' @ compiledFolder0 b @ ''/'' @ s) emitMap
                   (logEvent (GenCompile (''./'' @ tsSource0 b @ ''/'' @ s)) (logEvent FsCwd w))))"
  "cwd E = Inl e \<Longrightarrow> compile0 E b s w = (Inl e, logEvent FsCwd w)"
  by (simp_all add: compile0_def generatedPaths0_cwd split: sum.splits prod.splits option.splits)

lemma bundle_same:
  assumes "bundleFolder0 b0 \<noteq> []" "directory w (bundleFolder0 b0)"
  shows "fst (bundleGen E (toggled b0) s w) = fst (bundle0 E b0 s w)
         \<and> sameFs (snd (bundleGen E (toggled b0) s w)) (snd (bundle0 E b0 s w))"
proof (cases "cwd E")
  case (Inl e)
  then show ?thesis by (simp add: generator_cwd_fault bundle0_cwd)
next
  case cw: (Inr wd)
  have tr: "truthy (bundleFolder (toggled b0))" using assms(1) by simp
  show ?thesis
  proof (cases "denoBundle E (files w) (''./'' @ tsSource0 b0 @ ''/'' @ s)")
    case (Inl e)
    then show ?thesis by (simp add: bundleGen_cwd[OF cw tr] bundle0_cwd(1)[OF cw])
  next
    case (Inr r)
    obtain diagnostics emit where r: "r = (diagnostics, emit)" by (cases r)
    show ?thesis
    proof (cases diagnostics)
      case None
      let ?w1 = "logEvent (GenBundle (''./'' @ tsSource0 b0 @ ''/'' @ s)) (logEvent FsCwd w)"
      have e: "ensureDir (bundleFolder0 b0) ?w1 = (Inr (), logEvent (FsEnsureDir (bundleFolder0 b0)) ?w1)"
        using assms(2) by (simp add: ensureDir_existing)
      have "sameFs (logEvent (FsEnsureDir (bundleFolder0 b0)) ?w1) ?w1" by simp
      from writeTextFile_sameFs[OF this] show ?thesis
        using Inr r None e
        by (simp add: bundleGen_cwd[OF cw tr] bundle0_cwd(1)[OF cw] mapExternalSources_toggled)
    next
      case (Some d)
      then show ?thesis using Inr r by (simp add: bundleGen_cwd[OF cw tr] bundle0_cwd(1)[OF cw])
    qed
  qed
qed

lemma bundle_fault_same:
  assumes "bundleFolder0 b0 \<noteq> []"
    and "bundlerFaults E (files w) (''./'' @ tsSource0 b0 @ ''/'' @ s)"
  shows "bundleGen E (toggled b0) s w = bundle0 E b0 s w"
proof (cases "cwd E")
  case (Inl e)
  then show ?thesis by (simp add: generator_cwd_fault bundle0_cwd)
next
  case cw: (Inr wd)
  have tr: "truthy (bundleFolder (toggled b0))" using assms(1) by simp
  show ?thesis using assms(2)
    by (auto simp add: bundleGen_cwd[OF cw tr] bundle0_cwd(1)[OF cw] bundlerFaults_def
        split: sum.splits prod.splits option.splits)
qed

lemma compile_nothing_same:
  assumes "compiledFolder0 b0 \<noteq> []"
    and "compilerWritesNothing E (files w) (''./'' @ tsSource0 b0 @ ''/'' @ s)"
  shows "compile E (toggled b0) s w = compile0 E b0 s w"
proof (cases "cwd E")
  case (Inl e)
  then show ?thesis by (simp add: generator_cwd_fault compile0_cwd)
next
  case cw: (Inr wd)
  have tr: "truthy (compiledFolder (toggled b0))" using assms(1) by simp
  show ?thesis using assms(2)
    by (auto simp add: compile_cwd[OF cw tr] compile0_cwd(1)[OF cw] compilerWritesNothing_def
        split: sum.splits prod.splits option.splits)
qed

lemma cachedBundle_same:
  assumes f: "bundleFolder0 b0 \<noteq> []" and d: "directory w (bundleFolder0 b0)"
  shows "fst (cachedBundle E (toggled b0) script w) = fst (cachedBundle0 E b0 script w)
         \<and> sameFs (snd (cachedBundle E (toggled b0) script w)) (snd (cachedBundle0 E b0 script w))"
proof (cases "cwd E")
  case (Inl e)
  then show ?thesis by (simp add: cachedBundle_cwd cachedBundle0_cwd)
next
  case cw: (Inr wd)
  let ?p = "''./'' @ bundleFolder0 b0 @ ''/'' @ script"
  have d1: "directory (logEvent (FsRead ?p) (logEvent FsCwd w)) (bundleFolder0 b0)" using d by simp
  note g = bundle_same[OF f d1, of E "stripJs script"]
  have "?p \<noteq> []" by simp
  from cacheOrGen_same[OF this, of "bundleGen E (toggled b0)" script "logEvent FsCwd w"
         "bundle0 E b0" "''cachedBundle''"] g
  show ?thesis using f by (simp add: cachedBundle_cwd(1)[OF cw] cachedBundle0_cwd(1)[OF cw])
qed

lemma cachedBundle_fault_same:
  assumes f: "bundleFolder0 b0 \<noteq> []"
    and "bundlerFaults E (files w) (''./'' @ tsSource0 b0 @ ''/'' @ stripJs script)"
  shows "cachedBundle E (toggled b0) script w = cachedBundle0 E b0 script w"
proof (cases "cwd E")
  case (Inl e)
  then show ?thesis by (simp add: cachedBundle_cwd cachedBundle0_cwd)
next
  case cw: (Inr wd)
  let ?p = "''./'' @ bundleFolder0 b0 @ ''/'' @ script"
  have "bundlerFaults E (files (logEvent (FsRead ?p) (logEvent FsCwd w)))
          (''./'' @ tsSource0 b0 @ ''/'' @ stripJs script)"
    using assms(2) by simp
  note g = bundle_fault_same[OF f this]
  have "?p \<noteq> []" by simp
  from cacheOrGen_eq[OF this, of "bundleGen E (toggled b0)" script "logEvent FsCwd w"
         "bundle0 E b0" "''cachedBundle''"] g
  show ?thesis using f by (simp add: cachedBundle_cwd(1)[OF cw] cachedBundle0_cwd(1)[OF cw])
qed

lemma cachedCompile_nothing_same:
  assumes f: "compiledFolder0 b0 \<noteq> []"
    and "compilerWritesNothing E (files w) (''./'' @ tsSource0 b0 @ ''/'' @ stripJs script)"
  shows "cachedCompile E (toggled b0) script w = cachedCompile0 E b0 script w"
proof (cases "cwd E")
  case (Inl e)
  then show ?thesis by (simp add: cachedCompile_cwd cachedCompile0_cwd)
next
  case cw: (Inr wd)
  let ?p = "''./'' @ compiledFolder0 b0 @ ''/'' @ script"
  have "compilerWritesNothing E (files (logEvent (FsRead ?p) (logEvent FsCwd w)))
          (''./'' @ tsSource0 b0 @ ''/'' @ stripJs script)"
    using assms(2) by simp
  note g = compile_nothing_same[OF f this]
  have "?p \<noteq> []" by simp
  from cacheOrGen_eq[OF this, of "compile E (toggled b0)" script "logEvent FsCwd w"
         "compile0 E b0" "''cachedCompile''"] g
  show ?thesis using f by (simp add: cachedCompile_cwd(1)[OF cw] cachedCompile0_cwd(1)[OF cw])
qed

text \<open>The external cache.\<close>

lemma scriptCache_fetch_fault_same:
  assumes "cacheFolder0 b0 \<noteq> []"
    and "isl (fetch E (tmpl (mapGet (cacheMap0 b0) handle) @ script))"
  shows "scriptCache E (toggled b0) script handle w = scriptCache0 E b0 script handle w"
proof -
  obtain e where fe: "fetch E (tmpl (mapGet (cacheMap0 b0) handle) @ script) = Inl e"
    using assms(2) by (cases "fetch E (tmpl (mapGet (cacheMap0 b0) handle) @ script)") auto
  have "updateCache E (toggled b0) script handle uri v = updateCache0 E b0 script handle uri v" for uri v
    using assms(1) fe by (simp add: updateCache_def updateCache0_def Let_def)
  then show ?thesis using assms(1)
    by (simp add: scriptCache_def scriptCache0_def Let_def split: prod.splits sum.splits)
qed

lemma ensureDir_dot_slash:
  assumes "\<not> isAbsolute x"
  shows "sameOutcome (fst (ensureDir x w)) (fst (ensureDir (''./'' @ x) w))
         \<and> sameFs (snd (ensureDir x w)) (snd (ensureDir (''./'' @ x) w))"
  using normPath_dot_slash[OF assms] passedDirs_dot_slash[OF assms]
  by (simp add: ensureDir_def Let_def resolves_def canMkdir_def mkdirTargets_def mkdir_def sameFs_def)

lemma writeTextFile_dot_slash:
  assumes "\<not> isAbsolute x" "sameFs w w'"
  shows "sameOutcome (fst (writeTextFile x t w)) (fst (writeTextFile (''./'' @ x) t w'))
         \<and> sameFs (snd (writeTextFile x t w)) (snd (writeTextFile (''./'' @ x) t w'))"
proof -
  have wr: "writable w' (''./'' @ x) = writable w x"
    using writable_dot_slash[OF assms(1), of w'] writable_dirs[OF sameFs_dirs[OF assms(2)], of x] by simp
  show ?thesis
  proof (cases "writable w x")
    case True
    then show ?thesis using wr assms normPath_dot_slash[OF assms(1)]
      by (simp add: writeTextFile_writable sameFs_def)
  next
    case False
    then show ?thesis using wr assms(2) by (simp add: writeTextFile_fault)
  qed
qed

lemma updateCache_cache_same:
  assumes "cacheFolder0 b0 = ''cache''"
  shows "sameOutcome (fst (updateCache E (toggled b0) script src uri w))
                     (fst (updateCache0 E b0 script src uri w))
         \<and> sameFs (snd (updateCache E (toggled b0) script src uri w))
                   (snd (updateCache0 E b0 script src uri w))"
proof (cases "fetch E (tmpl (mapGet (cacheMap0 b0) src) @ script)")
  case (Inl e)
  then show ?thesis using assms by (simp add: updateCache_def updateCache0_def Let_def)
next
  case (Inr body)
  let ?w1 = "logEvent (NetFetch (tmpl (mapGet (cacheMap0 b0) src) @ script)) w"
  let ?d = "''cache/'' @ src @ ''/''"
  let ?q = "''cache/'' @ src @ ''/'' @ md5 E script"
  let ?code = "mapExternalSources0 b0 body"
  have na: "\<not> isAbsolute ?d" "\<not> isAbsolute ?q" by (simp_all add: isAbsolute_def)
  obtain r1 v1 where e: "ensureDir ?d ?w1 = (r1, v1)" by (cases "ensureDir ?d ?w1")
  obtain r1' v1' where e': "ensureDir (''./'' @ ?d) ?w1 = (r1', v1')" by (cases "ensureDir (''./'' @ ?d) ?w1")
  have o1: "sameOutcome r1 r1'" and s1: "sameFs v1 v1'"
    using ensureDir_dot_slash[OF na(1), of ?w1] e e' by simp_all
  have u: "updateCache E (toggled b0) script src uri w
             = (case r1 of Inl e \<Rightarrow> (Inl e, v1) | Inr _ \<Rightarrow> writeTextFile ?q ?code v1)"
    using assms Inr e
    by (cases r1) (simp_all add: updateCache_def Let_def mapExternalSources_toggled)
  have u0: "updateCache0 E b0 script src uri w
             = (case r1' of Inl e \<Rightarrow> (Inl e, v1') | Inr _ \<Rightarrow> writeTextFile (''./'' @ ?q) ?code v1')"
    using Inr e' by (cases r1') (simp_all add: updateCache0_def Let_def)
  show ?thesis
  proof (cases r1)
    case (Inl a)
    then obtain a' where "r1' = Inl a'" using o1 by (cases r1') simp_all
    then show ?thesis using u u0 Inl s1 by simp
  next
    case (Inr x)
    then have "r1' = Inr x" using o1 by simp
    then show ?thesis using u u0 Inr writeTextFile_dot_slash[OF na(2) s1, of ?code] by simp
  qed
qed

lemma scriptCache_cache_same:
  assumes "cacheFolder0 b0 = ''cache''"
  shows "sameOutcome (fst (scriptCache E (toggled b0) script handle w))
                     (fst (scriptCache0 E b0 script handle w))
         \<and> sameFs (snd (scriptCache E (toggled b0) script handle w))
                   (snd (scriptCache0 E b0 script handle w))"
proof -
  let ?uri = "''./'' @ ''cache'' @ ''/'' @ handle @ ''/'' @ md5 E script"
  let ?w1 = "logEvent (FsRead ?uri) w"
  obtain r1 w1 where r: "readTextFile ?uri w = (r1, w1)" by (cases "readTextFile ?uri w")
  then have w1: "w1 = ?w1" using snd_readTextFile[of ?uri w] by simp
  obtain r2 w2 where u: "updateCache E (toggled b0) script handle ?uri ?w1 = (r2, w2)"
    by (cases "updateCache E (toggled b0) script handle ?uri ?w1")
  obtain r2' w2' where u0: "updateCache0 E b0 script handle ?uri ?w1 = (r2', w2')"
    by (cases "updateCache0 E b0 script handle ?uri ?w1")
  have o2: "sameOutcome r2 r2'" and s2: "sameFs w2 w2'"
    using updateCache_cache_same[OF assms, of E script handle ?uri ?w1] u u0 by simp_all
  obtain r3 w3 where r3: "readTextFile ?uri w2 = (r3, w3)" by (cases "readTextFile ?uri w2")
  obtain r3' w3' where r3': "readTextFile ?uri w2' = (r3', w3')" by (cases "readTextFile ?uri w2'")
  have w3: "w3 = logEvent (FsRead ?uri) w2" "w3' = logEvent (FsRead ?uri) w2'"
    using r3 r3' snd_readTextFile[of ?uri w2] snd_readTextFile[of ?uri w2'] by simp_all
  have e3: "r3' = r3" using readTextFile_sameFs[OF s2, of ?uri] r3 r3' by simp
  have s3: "sameFs w3 w3'" using s2 w3 by simp
  have sc: "scriptCache E (toggled b0) script handle w
              = (case r1 of Inr data \<Rightarrow> (Inr data, w1)
                 | Inl _ \<Rightarrow> (case r2 of Inl e \<Rightarrow> (Inl e, w2)
                             | Inr _ \<Rightarrow> (case r3 of Inr data \<Rightarrow> (Inr data, w3)
                                         | Inl _ \<Rightarrow> (Inr (missingFile script handle), w3))))"
    using assms r w1 u r3 by (cases r1; cases r2; cases r3) (simp_all add: scriptCache_def Let_def)
  have sc0: "scriptCache0 E b0 script handle w
              = (case r1 of Inr data \<Rightarrow> (Inr data, w1)
                 | Inl _ \<Rightarrow> (case r2' of Inl e \<Rightarrow> (Inl e, w2')
                             | Inr _ \<Rightarrow> (case r3' of Inr data \<Rightarrow> (Inr data, w3')
                                         | Inl _ \<Rightarrow> (Inr (missingFile script handle), w3'))))"
    using assms r w1 u0 r3' by (cases r1; cases r2'; cases r3') (simp_all add: scriptCache0_def Let_def)
  show ?thesis
  proof (cases r1)
    case (Inr data)
    then show ?thesis using sc sc0 by simp
  next
    case (Inl a)
    show ?thesis
    proof (cases r2)
      case l2: (Inl a2)
      then obtain a2' where "r2' = Inl a2'" using o2 by (cases r2') simp_all
      then show ?thesis using sc sc0 Inl l2 s2 by simp
    next
      case i2: (Inr x)
      then have "r2' = Inr x" using o2 by simp
      then show ?thesis using sc sc0 Inl i2 e3 s3 by (cases r3) simp_all
    qed
  qed
qed

text \<open>
  C9, as the code has it. With every folder set, the two engines register sources,
  rewrite them and know the handles alike, and answer \<open>valid\<close> alike; they clear the
  caches alike, one by one and all at once;
  and on a cache hit \<open>cachedBundle\<close>, \<open>cachedCompile\<close> and \<open>scriptCache\<close> are one and
  the same read. On a miss, \<open>cachedBundle\<close> returns the same outcome and leaves the
  same files and directories where the bundle folder exists, and is the same where the
  bundler faults; \<open>cachedCompile\<close> is the same where the compiler faults or emits
  nothing; \<open>scriptCache\<close> is the same where the fetch faults, and with the cache
  folder \<open>cache\<close> it returns the same text or faults alike, and leaves the same files
  and directories.
\<close>

theorem variants_amended:
  "mapExternalSources (toggled b0) code = mapExternalSources0 b0 code
   \<and> validSource (toggled b0) handle = validSource0 b0 handle
   \<and> toggled (addCacheSource0 h source b0) = addCacheSource h source (toggled b0)
   \<and> valid E (toggled b0) sid w = valid0 E b0 sid w
   \<and> (bundleFolder0 b0 \<noteq> [] \<longrightarrow> clearBundleCache (toggled b0) w = clearBundleCache0 b0 w)
   \<and> (compiledFolder0 b0 \<noteq> [] \<longrightarrow> clearCompileCache (toggled b0) w = clearCompileCache0 b0 w)
   \<and> (cacheFolder0 b0 \<noteq> [] \<longrightarrow> clearExternalCache (toggled b0) w = clearExternalCache0 b0 w)
   \<and> (bundleFolder0 b0 \<noteq> [] \<and> compiledFolder0 b0 \<noteq> [] \<and> cacheFolder0 b0 \<noteq> []
      \<longrightarrow> clearAllCache (toggled b0) w = clearAllCache0 b0 w)
   \<and> (bundleFolder0 b0 \<noteq> []
        \<and> \<not> isl (fst (readTextFile (''./'' @ bundleFolder0 b0 @ ''/'' @ script) w))
      \<longrightarrow> cachedBundle E (toggled b0) script w = cachedBundle0 E b0 script w)
   \<and> (compiledFolder0 b0 \<noteq> []
        \<and> \<not> isl (fst (readTextFile (''./'' @ compiledFolder0 b0 @ ''/'' @ script) w))
      \<longrightarrow> cachedCompile E (toggled b0) script w = cachedCompile0 E b0 script w)
   \<and> (cacheFolder0 b0 \<noteq> []
        \<and> \<not> isl (fst (readTextFile
                        (''./'' @ cacheFolder0 b0 @ ''/'' @ handle @ ''/'' @ md5 E script) w))
      \<longrightarrow> scriptCache E (toggled b0) script handle w = scriptCache0 E b0 script handle w)
   \<and> (bundleFolder0 b0 \<noteq> [] \<and> directory w (bundleFolder0 b0)
      \<longrightarrow> fst (cachedBundle E (toggled b0) script w) = fst (cachedBundle0 E b0 script w)
          \<and> sameFs (snd (cachedBundle E (toggled b0) script w))
                    (snd (cachedBundle0 E b0 script w)))
   \<and> (bundleFolder0 b0 \<noteq> []
        \<and> bundlerFaults E (files w) (''./'' @ tsSource0 b0 @ ''/'' @ stripJs script)
      \<longrightarrow> cachedBundle E (toggled b0) script w = cachedBundle0 E b0 script w)
   \<and> (compiledFolder0 b0 \<noteq> []
        \<and> compilerWritesNothing E (files w) (''./'' @ tsSource0 b0 @ ''/'' @ stripJs script)
      \<longrightarrow> cachedCompile E (toggled b0) script w = cachedCompile0 E b0 script w)
   \<and> (cacheFolder0 b0 \<noteq> [] \<and> isl (fetch E (tmpl (mapGet (cacheMap0 b0) handle) @ script))
      \<longrightarrow> scriptCache E (toggled b0) script handle w = scriptCache0 E b0 script handle w)
   \<and> (cacheFolder0 b0 = ''cache''
      \<longrightarrow> sameOutcome (fst (scriptCache E (toggled b0) script handle w))
                       (fst (scriptCache0 E b0 script handle w))
          \<and> sameFs (snd (scriptCache E (toggled b0) script handle w))
                    (snd (scriptCache0 E b0 script handle w)))"
proof -
  have 2: "validSource (toggled b0) handle = validSource0 b0 handle"
    by (simp add: validSource_def validSource0_def)
  have 3: "bundleFolder0 b0 \<noteq> [] \<Longrightarrow> clearBundleCache (toggled b0) w = clearBundleCache0 b0 w"
    by (simp add: clears_toggled)
  have 4: "compiledFolder0 b0 \<noteq> [] \<Longrightarrow> clearCompileCache (toggled b0) w = clearCompileCache0 b0 w"
    by (simp add: clears_toggled)
  have 5: "cacheFolder0 b0 \<noteq> [] \<Longrightarrow> clearExternalCache (toggled b0) w = clearExternalCache0 b0 w"
    by (simp add: clears_toggled)
  have 8: "scriptCache E (toggled b0) script handle w = scriptCache0 E b0 script handle w"
    if "cacheFolder0 b0 \<noteq> []"
      and "\<not> isl (fst (readTextFile
                        (''./'' @ cacheFolder0 b0 @ ''/'' @ handle @ ''/'' @ md5 E script) w))"
    using that scriptCache_hit_read[of "toggled b0" handle E script w]
      scriptCache0_hit_read[of b0 handle E script w]
    by simp
  have a: "toggled (addCacheSource0 h source b0) = addCacheSource h source (toggled b0)"
    by (simp add: toggled_def addCacheSource_def addCacheSource0_def)
  have v: "valid E (toggled b0) sid w = valid0 E b0 sid w"
    by (cases "cwd E") (simp_all add: valid_def valid0_def generatedPaths_cwd generatedPaths0_cwd)
  show ?thesis
    using mapExternalSources_toggled[of b0 code] 2 3 4 5 8 a v
      clearAllCache_toggled[of b0 w]
      cachedBundle_hit_same[of b0 script w E] cachedCompile_hit_same[of b0 script w E]
      cachedBundle_same[of b0 w E script] cachedBundle_fault_same[of b0 E w script]
      cachedCompile_nothing_same[of b0 E w script]
      scriptCache_fetch_fault_same[of b0 E handle script w]
      scriptCache_cache_same[of b0 E script handle w]
    by blast
qed

theorem variants_amended_witness:
  "mapExternalSources (toggled exAll0) ''import x'' = mapExternalSources0 exAll0 ''import x''
   \<and> validSource (toggled exAll0) ''lib'' = validSource0 exAll0 ''lib''
   \<and> toggled (addCacheSource0 ''std'' ''https://deno.land/'' exAll0)
       = addCacheSource ''std'' ''https://deno.land/'' (toggled exAll0)
   \<and> valid exEnv (toggled exAll0) (Some ''app'') exWorld = valid0 exEnv exAll0 (Some ''app'') exWorld
   \<and> bundleFolder0 exAll0 \<noteq> []
   \<and> clearBundleCache (toggled exAll0) exCachedWorld = clearBundleCache0 exAll0 exCachedWorld
   \<and> compiledFolder0 exAll0 \<noteq> []
   \<and> clearCompileCache (toggled exAll0) exCachedWorld = clearCompileCache0 exAll0 exCachedWorld
   \<and> cacheFolder0 exAll0 \<noteq> []
   \<and> clearExternalCache (toggled exAll0) exCachedWorld = clearExternalCache0 exAll0 exCachedWorld
   \<and> (bundleFolder0 exAll0 \<noteq> [] \<and> compiledFolder0 exAll0 \<noteq> [] \<and> cacheFolder0 exAll0 \<noteq> [])
   \<and> clearAllCache (toggled exAll0) exCachedWorld = clearAllCache0 exAll0 exCachedWorld
   \<and> (bundleFolder0 exAll0 \<noteq> []
        \<and> \<not> isl (fst (readTextFile (''./'' @ bundleFolder0 exAll0 @ ''/'' @ ''app.js'') exCachedWorld)))
   \<and> cachedBundle exEnv (toggled exAll0) ''app.js'' exCachedWorld
       = cachedBundle0 exEnv exAll0 ''app.js'' exCachedWorld
   \<and> (compiledFolder0 exAll0 \<noteq> []
        \<and> \<not> isl (fst (readTextFile (''./'' @ compiledFolder0 exAll0 @ ''/'' @ ''app'') exCachedWorld)))
   \<and> cachedCompile exEnv (toggled exAll0) ''app'' exCachedWorld
       = cachedCompile0 exEnv exAll0 ''app'' exCachedWorld
   \<and> (cacheFolder0 exAll0 \<noteq> []
        \<and> \<not> isl (fst (readTextFile
                        (''./'' @ cacheFolder0 exAll0 @ ''/'' @ ''lib'' @ ''/'' @ md5 exEnv ''utils.js'')
                        exCachedWorld)))
   \<and> scriptCache exEnv (toggled exAll0) ''utils.js'' ''lib'' exCachedWorld
       = scriptCache0 exEnv exAll0 ''utils.js'' ''lib'' exCachedWorld
   \<and> (bundleFolder0 exAll0 \<noteq> [] \<and> directory exWorldDirs (bundleFolder0 exAll0))
   \<and> (fst (cachedBundle exEnv (toggled exAll0) ''app.js'' exWorldDirs)
         = fst (cachedBundle0 exEnv exAll0 ''app.js'' exWorldDirs)
        \<and> sameFs (snd (cachedBundle exEnv (toggled exAll0) ''app.js'' exWorldDirs))
                  (snd (cachedBundle0 exEnv exAll0 ''app.js'' exWorldDirs)))
   \<and> (bundleFolder0 exAll0 \<noteq> []
        \<and> bundlerFaults exEnv (files exWorld) (''./'' @ tsSource0 exAll0 @ ''/'' @ stripJs ''bad.js''))
   \<and> cachedBundle exEnv (toggled exAll0) ''bad.js'' exWorld
       = cachedBundle0 exEnv exAll0 ''bad.js'' exWorld
   \<and> (compiledFolder0 exAll0 \<noteq> []
        \<and> compilerWritesNothing exEnv (files exWorld)
             (''./'' @ tsSource0 exAll0 @ ''/'' @ stripJs ''bad.js''))
   \<and> cachedCompile exEnv (toggled exAll0) ''bad.js'' exWorld
       = cachedCompile0 exEnv exAll0 ''bad.js'' exWorld
   \<and> (cacheFolder0 exAll0 \<noteq> []
        \<and> isl (fetch exEnv (tmpl (mapGet (cacheMap0 exAll0) ''lib'') @ ''missing.js'')))
   \<and> scriptCache exEnv (toggled exAll0) ''missing.js'' ''lib'' exWorld
       = scriptCache0 exEnv exAll0 ''missing.js'' ''lib'' exWorld
   \<and> cacheFolder0 exCache0 = ''cache''
   \<and> (sameOutcome (fst (scriptCache exEnv (toggled exCache0) ''utils.js'' ''lib'' exWorld))
                   (fst (scriptCache0 exEnv exCache0 ''utils.js'' ''lib'' exWorld))
        \<and> sameFs (snd (scriptCache exEnv (toggled exCache0) ''utils.js'' ''lib'' exWorld))
                  (snd (scriptCache0 exEnv exCache0 ''utils.js'' ''lib'' exWorld)))
   \<and> fst (cachedBundle exEnv (toggled exAll0) ''app.js'' exWorldDirs) = Inr ''/*bundle*/let x = 1''
   \<and> fst (cachedBundle exEnv (toggled exAll0) ''bad.js'' exWorld)
       = Inl (AssertionError ''Compile Error: [1109]'')
   \<and> fst (scriptCache0 exEnv exCache0 ''utils.js'' ''lib'' exWorld) = Inr ''export {}''"
  (is "?C1 \<and> ?C2 \<and> ?A1 \<and> ?A2 \<and> ?H3 \<and> ?C3 \<and> ?H4 \<and> ?C4 \<and> ?H5 \<and> ?C5 \<and> ?H6 \<and> ?C6
        \<and> ?H7 \<and> ?C7 \<and> ?H8 \<and> ?C8 \<and> ?H9 \<and> ?C9 \<and> ?H10 \<and> ?C10 \<and> ?H11 \<and> ?C11
        \<and> ?H12 \<and> ?C12 \<and> ?H13 \<and> ?C13 \<and> ?H14 \<and> ?C14 \<and> ?X1 \<and> ?X2 \<and> ?X3")
proof -
  have h3: ?H3 by code_simp
  have h4: ?H4 by code_simp
  have h5: ?H5 by code_simp
  have h6: ?H6 by code_simp
  have h7: ?H7 by code_simp
  have h8: ?H8 by code_simp
  have h9: ?H9 by code_simp
  have h10: ?H10 by code_simp
  have h11: ?H11 by code_simp
  have h12: ?H12 by code_simp
  have h13: ?H13 by code_simp
  have h14: ?H14 by code_simp
  have x1: ?X1 by code_simp
  have x2: ?X2 by code_simp
  have x3: ?X3 by code_simp
  note t = variants_amended[where ?b0.0 = exAll0 and E = exEnv]
  have c1: ?C1
    using t[where code = "''import x''",
            THEN conjunct1] .
  have c2: ?C2
    using t[where handle = "''lib''",
            THEN conjunct2, THEN conjunct1] .
  have a1: ?A1
    using t[where h = "''std''" and source = "''https://deno.land/''",
            THEN conjunct2, THEN conjunct2, THEN conjunct1] .
  have a2: ?A2
    using t[where sid = "Some ''app''" and w = exWorld,
            THEN conjunct2, THEN conjunct2, THEN conjunct2, THEN conjunct1] .
  have c3: ?C3
    using t[where w = exCachedWorld,
            THEN conjunct2, THEN conjunct2, THEN conjunct2, THEN conjunct2, THEN conjunct1,
            THEN mp, OF h3] .
  have c4: ?C4
    using t[where w = exCachedWorld,
            THEN conjunct2, THEN conjunct2, THEN conjunct2, THEN conjunct2, THEN conjunct2,
            THEN conjunct1, THEN mp, OF h4] .
  have c5: ?C5
    using t[where w = exCachedWorld,
            THEN conjunct2, THEN conjunct2, THEN conjunct2, THEN conjunct2, THEN conjunct2,
            THEN conjunct2, THEN conjunct1, THEN mp, OF h5] .
  have c6: ?C6
    using t[where w = exCachedWorld,
            THEN conjunct2, THEN conjunct2, THEN conjunct2, THEN conjunct2, THEN conjunct2,
            THEN conjunct2, THEN conjunct2, THEN conjunct1, THEN mp, OF h6] .
  have c7: ?C7
    using t[where w = exCachedWorld and script = "''app.js''",
            THEN conjunct2, THEN conjunct2, THEN conjunct2, THEN conjunct2, THEN conjunct2,
            THEN conjunct2, THEN conjunct2, THEN conjunct2, THEN conjunct1, THEN mp, OF h7] .
  have c8: ?C8
    using t[where w = exCachedWorld and script = "''app''",
            THEN conjunct2, THEN conjunct2, THEN conjunct2, THEN conjunct2, THEN conjunct2,
            THEN conjunct2, THEN conjunct2, THEN conjunct2, THEN conjunct2, THEN conjunct1,
            THEN mp, OF h8] .
  have c9: ?C9
    using t[where w = exCachedWorld and script = "''utils.js''" and handle = "''lib''",
            THEN conjunct2, THEN conjunct2, THEN conjunct2, THEN conjunct2, THEN conjunct2,
            THEN conjunct2, THEN conjunct2, THEN conjunct2, THEN conjunct2, THEN conjunct2,
            THEN conjunct1, THEN mp, OF h9] .
  have c10: ?C10
    using t[where w = exWorldDirs and script = "''app.js''",
            THEN conjunct2, THEN conjunct2, THEN conjunct2, THEN conjunct2, THEN conjunct2,
            THEN conjunct2, THEN conjunct2, THEN conjunct2, THEN conjunct2, THEN conjunct2,
            THEN conjunct2, THEN conjunct1, THEN mp, OF h10] .
  have c11: ?C11
    using t[where w = exWorld and script = "''bad.js''",
            THEN conjunct2, THEN conjunct2, THEN conjunct2, THEN conjunct2, THEN conjunct2,
            THEN conjunct2, THEN conjunct2, THEN conjunct2, THEN conjunct2, THEN conjunct2,
            THEN conjunct2, THEN conjunct2, THEN conjunct1, THEN mp, OF h11] .
  have c12: ?C12
    using t[where w = exWorld and script = "''bad.js''",
            THEN conjunct2, THEN conjunct2, THEN conjunct2, THEN conjunct2, THEN conjunct2,
            THEN conjunct2, THEN conjunct2, THEN conjunct2, THEN conjunct2, THEN conjunct2,
            THEN conjunct2, THEN conjunct2, THEN conjunct2, THEN conjunct1, THEN mp, OF h12] .
  have c13: ?C13
    using t[where w = exWorld and script = "''missing.js''" and handle = "''lib''",
            THEN conjunct2, THEN conjunct2, THEN conjunct2, THEN conjunct2, THEN conjunct2,
            THEN conjunct2, THEN conjunct2, THEN conjunct2, THEN conjunct2, THEN conjunct2,
            THEN conjunct2, THEN conjunct2, THEN conjunct2, THEN conjunct2, THEN conjunct1,
            THEN mp, OF h13] .
  have c14: ?C14
    using variants_amended
            [where ?b0.0 = exCache0 and E = exEnv and w = exWorld and script = "''utils.js''"
               and handle = "''lib''",
             THEN conjunct2, THEN conjunct2, THEN conjunct2, THEN conjunct2, THEN conjunct2,
            THEN conjunct2, THEN conjunct2, THEN conjunct2, THEN conjunct2, THEN conjunct2,
            THEN conjunct2, THEN conjunct2, THEN conjunct2, THEN conjunct2, THEN conjunct2,
            THEN mp, OF h14] .
  show ?thesis
    using c1 c2 a1 a2 h3 c3 h4 c4 h5 c5 h6 c6 h7 c7 h8 c8 h9 c9 h10 c10 h11 c11 h12 c12 h13 c13
      h14 c14 x1 x2 x3
    by blast
qed

text \<open>
  C9 as stated fails on a miss of \<open>cachedBundle\<close> where the bundle folder does not
  exist yet, with every folder set. The engine with toggles creates the folder before it
  writes, and returns the bundle; the simpler engine writes without creating it, and
  ends with the fault of the write.
\<close>

theorem variants_counterexample:
  "bundleFolder0 exAll0 \<noteq> [] \<and> compiledFolder0 exAll0 \<noteq> [] \<and> cacheFolder0 exAll0 \<noteq> []
   \<and> \<not> directory exWorld (bundleFolder0 exAll0)
   \<and> fst (cachedBundle exEnv (toggled exAll0) ''app.js'' exWorld) = Inr ''/*bundle*/let x = 1''
   \<and> fst (cachedBundle0 exEnv exAll0 ''app.js'' exWorld) = Inl (IOError ''./bundle/app.js'')
   \<and> files (snd (cachedBundle exEnv (toggled exAll0) ''app.js'' exWorld))
        (normPath ''./bundle/app.js'') = Some ''/*bundle*/let x = 1''
   \<and> files (snd (cachedBundle0 exEnv exAll0 ''app.js'' exWorld)) (normPath ''./bundle/app.js'')
        = None"
  by code_simp

section \<open>Further behaviour of the generators\<close>

text \<open>
  The dot of \<open>/.js$/\<close> matches any character that is not a line terminator, so an
  identifier that ends in \<open>js\<close> behind any such character loses its last three
  characters, whether that character is a dot or not.
\<close>

lemma stripJs_any_character: "\<not> lineTerminator c \<Longrightarrow> stripJs (s @ c # ''js'') = s"
  by (simp add: stripJs_def Let_def nth_append)

lemma stripJs_line_terminator: "lineTerminator c \<Longrightarrow> stripJs (s @ c # ''js'') = s @ c # ''js''"
  by (simp add: stripJs_def Let_def nth_append)

lemma stripJs_without_dot: "stripJs ''appxjs'' = ''app''"
  by code_simp

text \<open>
  \<open>compile\<close> writes to the path planned for its argument, with no extension: for the
  identifier \<open>app.js\<close> it writes \<open>./compiled/app\<close>, the path read is
  \<open>./compiled/app.js\<close>, and the request returns the not-found payload.
\<close>

lemma compile_writes_without_extension:
  "trace (snd (cachedCompile exEnv exAll ''app.js'' exWorld))
     = [FsCwd, FsRead ''./compiled/app.js'', FsCwd, GenCompile ''./src/app'',
        FsEnsureDir ''compiled'', FsWrite ''./compiled/app'', FsRead ''./compiled/app.js'']
   \<and> fst (cachedCompile exEnv exAll ''app.js'' exWorld)
       = Inr (failedToFind ''cachedCompile'' ''app.js'')"
  by code_simp

text \<open>
  \<open>transpile\<close> reads the field \<open>source\<close> of an answer that has the one entry
  \<open>main.ts\<close>: the value is \<open>undefined\<close>. With rewriting off, or no source registered,
  the file written is empty, and the empty text is what the request returns; with
  rewriting on and a source registered, \<open>mapExternalSources\<close> faults.
\<close>

lemma transpile_writes_empty_file:
  "fst (cachedTranspile exEnv exAll ''app'' exWorld) = Inr []
   \<and> trace (snd (cachedTranspile exEnv exAll ''app'' exWorld))
       = [FsCwd, FsRead ''./transpiled/app'', FsCwd, GenTranspile ''./src/app'',
          FsEnsureDir ''transpiled'', FsWrite ''./transpiled/app'', FsRead ''./transpiled/app'']
   \<and> files (snd (cachedTranspile exEnv exAll ''app'' exWorld)) (normPath ''./transpiled/app'')
       = Some []"
  by code_simp

lemma transpile_faults_on_rewriting:
  "mapSources exTwoSources \<and> cacheMap exTwoSources \<noteq> []
   \<and> fst (cachedTranspile exEnv exTwoSources ''app'' exWorld)
       = Inl (TypeError ''Cannot read property replaceAll of undefined'')"
  by code_simp

text \<open>
  The generators create the output folder and nothing below it: an identifier that names
  a file in a folder that does not exist ends with the fault of the write.
\<close>

lemma bundle_in_missing_folder:
  "fst (valid exEnv exAll (Some ''lib/app'') exNested) = Inr True
   \<and> fst (cachedBundle exEnv exAll ''lib/app.js'' exNested) = Inl (IOError ''./bundle/lib/app.js'')
   \<and> trace (snd (cachedBundle exEnv exAll ''lib/app.js'' exNested))
       = [FsCwd, FsRead ''./bundle/lib/app.js'', FsCwd, GenBundle ''./src/lib/app'',
          FsEnsureDir ''bundle'', FsWrite ''./bundle/lib/app.js'']"
  by code_simp

text \<open>
  The simpler engine reads an entry of the external cache under its cache folder and
  writes it under \<open>./cache\<close>: with the cache folder \<open>remote\<close>, the entry fetched is not
  found by the read that follows, and the engine with toggles finds it.
\<close>

lemma simpler_engine_writes_under_cache:
  "cacheFolder0 exAll0 = ''remote''
   \<and> fst (scriptCache0 exEnv exAll0 ''utils.js'' ''lib'' exWorld)
       = Inr (missingFile ''utils.js'' ''lib'')
   \<and> files (snd (scriptCache0 exEnv exAll0 ''utils.js'' ''lib'' exWorld))
        (normPath ''./cache/lib/md5-utils.js'') = Some ''export {}''
   \<and> fst (scriptCache exEnv (toggled exAll0) ''utils.js'' ''lib'' exWorld) = Inr ''export {}''"
  by code_simp

text \<open>
  \<open>fs.exists\<close> faults on a path that passes through a file, and a path that steps back
  out of a directory resolves only when that directory exists.
\<close>

lemma exists_through_file:
  "fst (exists ''./src/app/x'' exWorld) = Inl (IOError ''./src/app/x'')
   \<and> fst (valid exEnv exAll (Some ''app/x'') exWorld) = Inl (IOError ''./src/app/x'')
   \<and> fst (valid exEnv exAll (Some ''app'') exWorld) = Inr True
   \<and> fst (valid exEnv exAll (Some ''nope'') exWorld) = Inr False
   \<and> fst (valid exNoCwd exAll (Some ''app'') exWorld) = Inl (Thrown ''NotFound'')"
  by code_simp

lemma path_through_missing_directory:
  "normPath ''./x/../src/app'' = normPath ''./src/app''
   \<and> fst (readTextFile ''./src/app'' exWorld) = Inr ''let x = 1''
   \<and> fst (readTextFile ''./x/../src/app'' exWorld) = Inl (IOError ''./x/../src/app'')
   \<and> fst (readTextFile ''./src/../src/app'' exWorld) = Inr ''let x = 1''"
  by code_simp

end
